(* ===== verification/Prelude.thy ===== *)
theory Prelude
  imports Main "HOL-Library.Multiset" "HOL-Library.Char_ord" "HOL-Library.List_Lexorder" "HOL-Library.Product_Lexorder"
begin

text \<open>
  Shared vocabulary of the development: results of fallible Python functions as sums,
  keyed tables (a list of rows with a key, the shape of a SQL table), the orders Python's
  \<open>sorted\<close> uses on strings and tuples, and the generic lemmas the components share.

  A Python \<open>str\<close> is the list of the bytes of its UTF-8 encoding (\<open>string\<close>, a list of
  \<open>char\<close>): UTF-8 keeps the order of code points, so the lexicographic order on these lists
  is Python's order on strings.
\<close>

section \<open>Collections of facts\<close>

named_theorems table_simps \<open>lookups in updated and extended tables\<close>
named_theorems frame_simps \<open>which parts of the state an operation leaves alone\<close>

section \<open>Results of fallible functions\<close>

definition bind_res :: "'e + 'a \<Rightarrow> ('a \<Rightarrow> 'e + 'b) \<Rightarrow> 'e + 'b" where
  "bind_res r f = (case r of Inl e \<Rightarrow> Inl e | Inr x \<Rightarrow> f x)"

lemma bind_res_simps [simp]:
  "bind_res (Inl e) f = Inl e"
  "bind_res (Inr x) f = f x"
  by (simp_all add: bind_res_def)

lemma bind_res_Inr_iff: "bind_res r f = Inr y \<longleftrightarrow> (\<exists>x. r = Inr x \<and> f x = Inr y)"
  by (cases r) simp_all

text \<open>A comprehension whose element expression can raise: the first exception ends it.\<close>

fun map_res :: "('a \<Rightarrow> 'e + 'b) \<Rightarrow> 'a list \<Rightarrow> 'e + 'b list" where
  "map_res f [] = Inr []"
| "map_res f (x # xs) = bind_res (f x) (\<lambda>y. bind_res (map_res f xs) (\<lambda>ys. Inr (y # ys)))"

lemma map_res_ok: "(\<And>x. x \<in> set xs \<Longrightarrow> f x = Inr (g x)) \<Longrightarrow> map_res f xs = Inr (map g xs)"
  by (induction xs) simp_all

text \<open>\<open>x or default\<close> for an optional string and an optional integer.\<close>

definition or_str :: "string option \<Rightarrow> string \<Rightarrow> string" where
  "or_str x d = (case x of None \<Rightarrow> d | Some s \<Rightarrow> if s = [] then d else s)"

definition or_int :: "int option \<Rightarrow> int \<Rightarrow> int" where
  "or_int x d = (case x of None \<Rightarrow> d | Some n \<Rightarrow> if n = 0 then d else n)"

fun is_ok :: "'e + 'a \<Rightarrow> bool" where
  "is_ok (Inl _) = False"
| "is_ok (Inr _) = True"

lemma is_ok_iff: "is_ok r \<longleftrightarrow> (\<exists>x. r = Inr x)"
  by (cases r) simp_all

text \<open>A condition on a nullable value that null satisfies.\<close>

fun opt_all :: "('a \<Rightarrow> bool) \<Rightarrow> 'a option \<Rightarrow> bool" where
  "opt_all p None = True"
| "opt_all p (Some x) = p x"

section \<open>Keyed tables\<close>

text \<open>
  \<open>lookup_row\<close> is \<open>SELECT ... WHERE key = k\<close> with \<open>fetchone\<close>; \<open>update_where\<close> is
  \<open>UPDATE ... SET ... WHERE p\<close>; a row is inserted at the end.
\<close>

definition lookup_row :: "('r \<Rightarrow> 'k) \<Rightarrow> 'r list \<Rightarrow> 'k \<Rightarrow> 'r option" where
  "lookup_row key rows k = find (\<lambda>r. key r = k) rows"

definition update_where :: "('r \<Rightarrow> bool) \<Rightarrow> ('r \<Rightarrow> 'r) \<Rightarrow> 'r list \<Rightarrow> 'r list" where
  "update_where p f rows = map (\<lambda>r. if p r then f r else r) rows"

definition keeps_key :: "('r \<Rightarrow> 'k) \<Rightarrow> ('r \<Rightarrow> 'r) \<Rightarrow> bool" where
  "keeps_key key f \<longleftrightarrow> (\<forall>r. key (f r) = key r)"

lemma keeps_keyI [intro]: "(\<And>r. key (f r) = key r) \<Longrightarrow> keeps_key key f"
  by (simp add: keeps_key_def)

lemma lookup_row_Nil [simp]: "lookup_row key [] k = None"
  by (simp add: lookup_row_def)

lemma lookup_row_Cons [simp]:
  "lookup_row key (r # rs) k = (if key r = k then Some r else lookup_row key rs k)"
  by (simp add: lookup_row_def)

lemma lookup_row_SomeD: "lookup_row key rows k = Some r \<Longrightarrow> r \<in> set rows \<and> key r = k"
  by (induction rows) (auto split: if_splits)

lemma lookup_row_None_iff: "lookup_row key rows k = None \<longleftrightarrow> k \<notin> key ` set rows"
  by (induction rows) auto

lemma lookup_row_eq_iff:
  assumes "distinct (map key rows)"
  shows "lookup_row key rows k = Some r \<longleftrightarrow> r \<in> set rows \<and> key r = k"
  using assms by (induction rows) (auto simp: image_iff)

lemma lookup_row_mem:
  assumes "distinct (map key rows)" and "r \<in> set rows"
  shows "lookup_row key rows (key r) = Some r"
  using assms by (simp add: lookup_row_eq_iff)

lemma lookup_update_where [table_simps]:
  assumes "keeps_key key f"
  shows "lookup_row key (update_where p f rows) k =
    map_option (\<lambda>r. if p r then f r else r) (lookup_row key rows k)"
  using assms by (induction rows) (auto simp: update_where_def keeps_key_def)

lemma map_key_update_where [table_simps]:
  assumes "keeps_key key f"
  shows "map key (update_where p f rows) = map key rows"
  using assms by (simp add: update_where_def keeps_key_def)

lemma lookup_row_snoc [table_simps]:
  "lookup_row key (rows @ [r]) k =
    (case lookup_row key rows k of Some q \<Rightarrow> Some q
     | None \<Rightarrow> if key r = k then Some r else None)"
  by (induction rows) auto

lemma set_update_where: "set (update_where p f rows) = (\<lambda>r. if p r then f r else r) ` set rows"
  by (simp add: update_where_def)

lemma length_update_where [simp]: "length (update_where p f rows) = length rows"
  by (simp add: update_where_def)

lemma update_where_Nil [simp]: "update_where p f [] = []"
  by (simp add: update_where_def)

lemma update_where_Cons [simp]:
  "update_where p f (r # rs) = (if p r then f r else r) # update_where p f rs"
  by (simp add: update_where_def)

lemma update_where_none: "(\<And>r. r \<in> set rows \<Longrightarrow> \<not> p r) \<Longrightarrow> update_where p f rows = rows"
  by (induction rows) auto

subsection \<open>The interface of a keyed table\<close>

text \<open>
  What the components rely on: a lookup after an update or an insert. The lemmas of the
  locale hold for every table that keeps these laws.
\<close>

locale keyed_table =
  fixes key :: "'r \<Rightarrow> 'k"
    and look :: "'t \<Rightarrow> 'k \<Rightarrow> 'r option"
    and upd :: "('r \<Rightarrow> bool) \<Rightarrow> ('r \<Rightarrow> 'r) \<Rightarrow> 't \<Rightarrow> 't"
    and ins :: "'r \<Rightarrow> 't \<Rightarrow> 't"
  assumes look_key: "look t k = Some r \<Longrightarrow> key r = k"
    and look_upd: "keeps_key key f \<Longrightarrow>
      look (upd p f t) k = map_option (\<lambda>r. if p r then f r else r) (look t k)"
    and look_ins: "look t (key r) = None \<Longrightarrow>
      look (ins r t) k = (if k = key r then Some r else look t k)"
begin

lemma look_upd_miss:
  assumes "keeps_key key f" and "look t k = Some r" and "\<not> p r"
  shows "look (upd p f t) k = Some r"
  using assms by (simp add: look_upd)

lemma look_upd_hit:
  assumes "keeps_key key f" and "look t k = Some r" and "p r"
  shows "look (upd p f t) k = Some (f r)"
  using assms by (simp add: look_upd)

lemma look_upd_dom:
  assumes "keeps_key key f"
  shows "look (upd p f t) k = None \<longleftrightarrow> look t k = None"
  using assms by (simp add: look_upd)

lemma look_upd_other:
  assumes "keeps_key key f" and "\<And>r. p r \<Longrightarrow> key r = k" and "k' \<noteq> k"
  shows "look (upd p f t) k' = look t k'"
  using assms look_key [of t k'] by (cases "look t k'") (auto simp: look_upd)

end

lemma list_table_laws:
  "keyed_table key (lookup_row key) update_where (\<lambda>r rows. rows @ [r])"
  by unfold_locales
    (auto simp: table_simps dest: lookup_row_SomeD split: option.splits)

section \<open>Sorting\<close>

text \<open>\<open>ORDER BY key ASC LIMIT 1\<close>: the first row of the sorted selection.\<close>

definition first_by :: "('r \<Rightarrow> 'k::linorder) \<Rightarrow> 'r list \<Rightarrow> 'r option" where
  "first_by key rows = (case sort_key key rows of [] \<Rightarrow> None | r # _ \<Rightarrow> Some r)"

lemma first_by_None_iff: "first_by key rows = None \<longleftrightarrow> rows = []"
  by (cases "sort_key key rows")
    (auto simp: first_by_def dest: arg_cong [where f = length])

lemma first_by_SomeD:
  assumes "first_by key rows = Some r"
  shows "r \<in> set rows \<and> (\<forall>q \<in> set rows. key r \<le> key q)"
proof -
  obtain rs where rs: "sort_key key rows = r # rs"
    using assms by (auto simp: first_by_def split: list.splits)
  have "set rows = set (r # rs)"
    using rs by (metis set_sort)
  moreover have "sorted (map key (r # rs))"
    using rs by (metis sorted_sort_key)
  ultimately show ?thesis by auto
qed

lemma sort_key_perm_eq:
  assumes "mset xs = mset ys" and "inj_on key (set xs)"
  shows "sort_key key xs = sort_key key ys"
proof (rule properties_for_sort_key)
  show "mset (sort_key key ys) = mset xs"
    using assms(1) by simp
next
  fix k
  assume "k \<in> set (sort_key key ys)"
  have "set xs = set ys"
    using assms(1) by (rule mset_eq_setD)
  have *: "filter (\<lambda>x. key k = key x) zs = replicate (count (mset zs) k) k"
    if "set zs = set xs" for zs
  proof -
    have "filter (\<lambda>x. key k = key x) zs = filter (\<lambda>x. k = x) zs"
      using assms(2) \<open>k \<in> set (sort_key key ys)\<close> \<open>set xs = set ys\<close> that
      by (intro filter_cong) (auto dest: inj_onD)
    then show ?thesis
      by (metis replicate_count_mset_eq_filter_eq)
  qed
  show "filter (\<lambda>x. key k = key x) (sort_key key ys) = filter (\<lambda>x. key k = key x) xs"
    using * [of "sort_key key ys"] * [of xs] \<open>set xs = set ys\<close> assms(1) by simp
next
  show "sorted (map key (sort_key key ys))" by simp
qed

lemma sort_eq_iff: "sort xs = sort ys \<longleftrightarrow> mset xs = mset ys"
  by (metis mset_sort sort_key_perm_eq [where key = "\<lambda>x. x"] inj_on_id2)

end
