(* ===== verification/Errors.thy ===== *)
theory Errors
  imports Prelude
begin

text \<open>
  \<open>src/src/verifierci/errors.py\<close>: the machine-readable codes, the exception classes with
  their default codes, and the map from exceptions to exit categories. An exception is a value:
  \<open>VCI\<close> is an instance of the hierarchy below \<open>VerifierCIError\<close> with its \<open>code\<close> attribute,
  \<open>PyExc\<close> any other Python exception with its class name and its \<open>str\<close>. The prose message
  and the \<open>details\<close> dictionary of a \<open>VerifierCIError\<close> are not represented.
\<close>

section \<open>Error codes\<close>

datatype ErrorCode =
    EC_PATCH_ERROR | EC_BUILD_ERROR | EC_COLLECTION_MISMATCH | EC_EMPTY_COLLECTION | EC_TIMEOUT
  | EC_RESOURCE_EXHAUSTED | EC_ARTIFACT_LIMIT | EC_DIGEST_MISMATCH | EC_IMAGE_UNAVAILABLE
  | EC_RUNTIME_UNAVAILABLE | EC_LEASE_LOST | EC_CANCELLED | EC_PARSER_ERROR | EC_DATABASE_ERROR
  | EC_UNSUPPORTED_DIAGNOSTIC | EC_IDENTITY_CONFLICT | EC_VALIDATION_ERROR | EC_PROTECTION_ERROR
  | EC_INFRASTRUCTURE_ERROR

fun ec_value :: "ErrorCode \<Rightarrow> string" where
  "ec_value EC_PATCH_ERROR = ''PATCH_ERROR''"
| "ec_value EC_BUILD_ERROR = ''BUILD_ERROR''"
| "ec_value EC_COLLECTION_MISMATCH = ''COLLECTION_MISMATCH''"
| "ec_value EC_EMPTY_COLLECTION = ''EMPTY_COLLECTION''"
| "ec_value EC_TIMEOUT = ''TIMEOUT''"
| "ec_value EC_RESOURCE_EXHAUSTED = ''RESOURCE_EXHAUSTED''"
| "ec_value EC_ARTIFACT_LIMIT = ''ARTIFACT_LIMIT''"
| "ec_value EC_DIGEST_MISMATCH = ''DIGEST_MISMATCH''"
| "ec_value EC_IMAGE_UNAVAILABLE = ''IMAGE_UNAVAILABLE''"
| "ec_value EC_RUNTIME_UNAVAILABLE = ''RUNTIME_UNAVAILABLE''"
| "ec_value EC_LEASE_LOST = ''LEASE_LOST''"
| "ec_value EC_CANCELLED = ''CANCELLED''"
| "ec_value EC_PARSER_ERROR = ''PARSER_ERROR''"
| "ec_value EC_DATABASE_ERROR = ''DATABASE_ERROR''"
| "ec_value EC_UNSUPPORTED_DIAGNOSTIC = ''UNSUPPORTED_DIAGNOSTIC''"
| "ec_value EC_IDENTITY_CONFLICT = ''IDENTITY_CONFLICT''"
| "ec_value EC_VALIDATION_ERROR = ''VALIDATION_ERROR''"
| "ec_value EC_PROTECTION_ERROR = ''PROTECTION_ERROR''"
| "ec_value EC_INFRASTRUCTURE_ERROR = ''INFRASTRUCTURE_ERROR''"

section \<open>The exception hierarchy\<close>

datatype exc_class =
  VerifierCIError | ProtectionError | ValidationError | IdentityConflict | InfrastructureError
  | LeaseLost

fun parent_class :: "exc_class \<Rightarrow> exc_class option" where
  "parent_class VerifierCIError = None"
| "parent_class ProtectionError = Some VerifierCIError"
| "parent_class ValidationError = Some VerifierCIError"
| "parent_class IdentityConflict = Some ValidationError"
| "parent_class InfrastructureError = Some VerifierCIError"
| "parent_class LeaseLost = Some InfrastructureError"

fun class_depth :: "exc_class \<Rightarrow> nat" where
  "class_depth VerifierCIError = 0"
| "class_depth ProtectionError = 1"
| "class_depth ValidationError = 1"
| "class_depth InfrastructureError = 1"
| "class_depth IdentityConflict = 2"
| "class_depth LeaseLost = 2"

lemma parent_class_depth: "parent_class c = Some p \<Longrightarrow> class_depth p < class_depth c"
  by (cases c) auto

text \<open>\<open>issubclass\<close>: walk up the parents.\<close>

function subclass_of :: "exc_class \<Rightarrow> exc_class \<Rightarrow> bool" where
  "subclass_of c d = (c = d \<or> (case parent_class c of None \<Rightarrow> False | Some p \<Rightarrow> subclass_of p d))"
  by pat_completeness auto
termination
  by (relation "measure (\<lambda>(c, d). class_depth c)") (auto dest: parent_class_depth)

declare subclass_of.simps [simp del]

lemma subclass_of_simps [simp]:
  "subclass_of VerifierCIError d \<longleftrightarrow> d = VerifierCIError"
  "subclass_of ProtectionError d \<longleftrightarrow> d = ProtectionError \<or> d = VerifierCIError"
  "subclass_of ValidationError d \<longleftrightarrow> d = ValidationError \<or> d = VerifierCIError"
  "subclass_of IdentityConflict d \<longleftrightarrow>
     d = IdentityConflict \<or> d = ValidationError \<or> d = VerifierCIError"
  "subclass_of InfrastructureError d \<longleftrightarrow> d = InfrastructureError \<or> d = VerifierCIError"
  "subclass_of LeaseLost d \<longleftrightarrow> d = LeaseLost \<or> d = InfrastructureError \<or> d = VerifierCIError"
  by (auto simp: subclass_of.simps [of VerifierCIError] subclass_of.simps [of ProtectionError]
      subclass_of.simps [of ValidationError] subclass_of.simps [of IdentityConflict]
      subclass_of.simps [of InfrastructureError] subclass_of.simps [of LeaseLost])

fun default_code :: "exc_class \<Rightarrow> string" where
  "default_code VerifierCIError = ec_value EC_UNSUPPORTED_DIAGNOSTIC"
| "default_code ProtectionError = ec_value EC_PROTECTION_ERROR"
| "default_code ValidationError = ec_value EC_VALIDATION_ERROR"
| "default_code IdentityConflict = ec_value EC_IDENTITY_CONFLICT"
| "default_code InfrastructureError = ec_value EC_INFRASTRUCTURE_ERROR"
| "default_code LeaseLost = ec_value EC_LEASE_LOST"

datatype exn =
    VCI exc_class string
  | PyExc string string

type_synonym 'a res = "exn + 'a"

text \<open>\<open>VerifierCIError.__init__\<close>: the code given, or the class's default.\<close>

definition make_error :: "exc_class \<Rightarrow> string option \<Rightarrow> exn" where
  "make_error c code = VCI c (case code of Some k \<Rightarrow> k | None \<Rightarrow> default_code c)"

fun exn_code :: "exn \<Rightarrow> string option" where
  "exn_code (VCI _ code) = Some code"
| "exn_code (PyExc _ _) = None"

fun is_instance :: "exn \<Rightarrow> exc_class \<Rightarrow> bool" where
  "is_instance (VCI c _) d = subclass_of c d"
| "is_instance (PyExc _ _) d = False"

text \<open>\<open>sqlite3.IntegrityError\<close>: a CHECK, foreign key or uniqueness failure, or RAISE(ABORT).\<close>

abbreviation integrity_error :: "string \<Rightarrow> exn" where
  "integrity_error msg \<equiv> PyExc ''sqlite3.IntegrityError'' msg"

section \<open>Exit categories\<close>

definition exit_category :: "exn \<Rightarrow> int" where
  "exit_category e =
    (if is_instance e ProtectionError then 1
     else if is_instance e ValidationError \<or> is_instance e IdentityConflict then 2
     else if is_instance e InfrastructureError \<or> is_instance e LeaseLost then 3
     else if is_instance e VerifierCIError then 3
     else 3)"

lemma exit_category_range: "exit_category e \<in> {1, 2, 3}"
  by (simp add: exit_category_def)

lemma exit_category_success_never: "exit_category e \<noteq> 0"
  by (simp add: exit_category_def)

lemma ec_value_inj: "ec_value c = ec_value d \<Longrightarrow> c = d"
  by (cases c; cases d; simp)

end
