(* ===== verification/Models.thy ===== *)
theory Models
  imports Errors Complex_Main "HOL-Library.Finite_Map"
begin

text \<open>
  The frozen dataclasses of \<open>src/src/verifierci/models/\<close> that the modelled code reads and
  builds, as records. A field keeps its name behind the prefix of its record (\<open>j_fence\<close> is
  \<open>Job.fence\<close>), because several classes share field names. \<open>Literal\<close> types are datatypes.

  Representations: a timezone-aware \<open>datetime\<close> is its instant in microseconds since the
  epoch; a Python float is a finite rational or one of the three non-finite values (the sign
  of zero is not represented); an \<open>int\<close> is an \<open>int\<close>; a \<open>tuple[str, ...]\<close> is a list; a
  \<open>Mapping[str, int]\<close> is a finite map.
\<close>

section \<open>Scalars\<close>

type_synonym datetime = int

datatype pyfloat = PFin rat | PInf | PNegInf | PNaN

fun is_finite :: "pyfloat \<Rightarrow> bool" where
  "is_finite (PFin _) = True"
| "is_finite _ = False"

datatype job_state = PENDING | CLAIMED | RUNNING | DONE | FAILED | ABANDONED

datatype run_state = Run_PLANNED | Run_RUNNING | Run_COMPLETE | Run_CANCELLED | Run_FAILED

text \<open>
  One type for the outcomes of attempts and of cells: \<open>Flaky\<close> is legal for a cell only, which
  \<open>validate_attempt\<close> checks.
\<close>

datatype outcome = Accept | Reject | Invalid_evaluation | Error | Flaky

datatype validity = Pending | Valid | Invalid

datatype disposition = Active | Authoritative | Stale | Abandoned

datatype label = L_valid | L_invalid | L_unresolved

datatype role = R_challenge | R_reference | R_noop

datatype review_status = RS_provisional | RS_independent | RS_disputed

datatype test_status = T_passed | T_failed | T_skipped | T_error

section \<open>Queue records: \<open>models/protocol.py\<close>, \<open>models/result.py\<close>\<close>

record ResourceUsage =
  ru_duration :: "pyfloat option"
  ru_allocated_cpu :: "pyfloat option"
  ru_cpu_seconds :: "pyfloat option"
  ru_peak_memory :: "int option"
  ru_model_usage :: "(string, int) fmap option"
  ru_estimated_cost :: "string option"
  ru_pricing_version :: "string option"
  ru_bytes_written :: "int option"

record Job =
  j_job_id :: string
  j_run_id :: string
  j_task_key :: string
  j_case_id :: string
  j_verifier_key :: string
  j_repetition :: int
  j_state :: job_state
  j_fence :: int
  j_attempt_id :: "string option"
  j_lease_token :: "string option"
  j_worker_id :: "string option"
  j_lease_expires_ms :: "int option"
  j_attempts_started :: int
  j_selected_attempt_id :: "string option"
  j_terminal_reason :: "string option"

record EvaluationAttempt =
  a_attempt_id :: string
  a_job_id :: string
  a_fence :: int
  a_outcome :: "outcome option"
  a_evaluation_validity :: validity
  a_error_code :: "string option"
  a_disposition :: disposition
  a_started_at :: datetime
  a_finished_at :: "datetime option"
  a_exit_code :: "int option"
  a_stdout_hash :: "string option"
  a_stderr_hash :: "string option"
  a_report_digest :: "string option"
  a_test_collection :: "string list"
  a_tests_passed :: "int option"
  a_tests_failed :: "int option"
  a_resources :: ResourceUsage
  a_artifact_digests :: "string list"
  a_capture_truncated :: bool

record AuditRun =
  r_run_id :: string
  r_manifest_hash :: string
  r_state :: run_state
  r_cancel_requested :: bool
  r_created_at :: datetime
  r_finished_at :: "datetime option"
  r_diagnostic_code :: "string option"

section \<open>Audit planning records\<close>

record TaskPin =
  tp_task_key :: string
  tp_task_version :: string
  tp_contract_hash :: string
  tp_repository_snapshot_digest :: string
  tp_environment_id :: string
  tp_environment_image_digest :: "string option"
  tp_verifier_baseline_version :: string
  tp_verifier_candidate_version :: string
  tp_baseline_manifest_hash :: string
  tp_candidate_manifest_hash :: string
  tp_case_ids :: "string list"

record AuditManifest =
  m_manifest_hash :: string
  m_run_id :: string
  m_benchmark_version :: string
  m_task_pins :: "TaskPin list"
  m_panel_key :: string
  m_adjudication_version :: string
  m_evaluation_harness_version :: string
  m_config_hash :: string
  m_policy_hash :: string
  m_analysis_plan_hash :: "string option"
  m_timestamp :: datetime
  m_host_fingerprint :: string
  m_seed :: "int option"
  m_agent_version :: "string option"
  m_model_identifier :: "string option"
  m_max_repetitions :: int
  m_max_attempts_per_job :: int
  m_timeout_seconds :: int
  m_resource_policy :: string
  m_expansion_digest :: string
  m_parent_run_id :: "string option"

datatype backend = B_fixture | B_docker

record AuditOptions =
  o_task_files :: "string list"
  o_benchmark_file :: "string option"
  o_panel_file :: string
  o_baseline_file :: string
  o_candidate_file :: string
  o_repetitions :: int
  o_backend :: backend
  o_trusted_fixture :: bool
  o_sandbox_policy_file :: string
  o_max_attempts :: int
  o_offline :: bool
  o_output_dir :: "string option"
  o_dry_run :: bool
  o_resume_run_id :: "string option"
  o_parent_run_id :: "string option"
  o_policy_file :: string
  o_analysis_plan_file :: "string option"
  o_max_jobs :: int
  o_concurrency :: int
  o_timeout_seconds :: int
  o_seed :: "int option"
  o_collect_only :: bool
  o_diagnostic :: bool

section \<open>Execution and classification records\<close>

record VerifierManifest =
  vm_manifest_hash :: string
  vm_mode :: string
  vm_command :: "string list"
  vm_build_command :: "string list"
  vm_expected_collection :: "string list"
  vm_parser_id :: string
  vm_report_path :: string
  vm_payload_digest :: string
  vm_allowed_edit_paths :: "string list"
  vm_required_pass_ids :: "string list"
  vm_permitted_skips :: "string list"
  vm_timeout_seconds :: int

record ExecutionCapture =
  c_attempt_id :: string
  c_exit_code :: "int option"
  c_timed_out :: bool
  c_oom_killed :: "bool option"
  c_cancelled :: bool
  c_build_exit_code :: "int option"
  c_stdout_hash :: "string option"
  c_stderr_hash :: "string option"
  c_report_digest :: "string option"
  c_truncated :: bool
  c_resources :: ResourceUsage
  c_runtime_error :: "string option"

record TestResult =
  tr_test_id :: string
  tr_status :: test_status
  tr_duration :: "pyfloat option"
  tr_failure_digest :: "string option"

record TestReport =
  rep_schema_version :: string
  rep_collected_ids :: "string list"
  rep_results :: "TestResult list"
  rep_completed :: bool
  rep_runner_error :: "string option"

record ParsedOutcome =
  po_outcome :: outcome
  po_evaluation_validity :: validity
  po_error_code :: "string option"
  po_report :: "TestReport option"
  po_evidence_digests :: "string list"

section \<open>Panel and matrix records\<close>

record PatchCase =
  pc_case_id :: string
  pc_task_key :: string
  pc_diff_digest :: string
  pc_base_snapshot_digest :: string
  pc_source :: string
  pc_source_run_id :: "string option"
  pc_parent_case_ids :: "string list"
  pc_family_id :: string
  pc_role :: role
  pc_provenance_digest :: string
  pc_licence :: string
  pc_created_at :: datetime

record ReviewVote =
  rv_reviewer_id :: string
  rv_label :: label
  rv_rationale :: string
  rv_minutes :: "pyfloat option"
  rv_blinded_to_verifier :: bool
  rv_independent_of_author :: bool
  rv_recorded_at :: datetime

record Adjudication =
  ad_adjudication_id :: string
  ad_case_id :: string
  ad_contract_hash :: string
  ad_version :: int
  ad_label :: label
  ad_review_status :: review_status
  ad_votes :: "ReviewVote list"
  ad_rationale :: string
  ad_requirement_hashes :: "string list"
  ad_witness_ids :: "string list"
  ad_uncertainty :: string
  ad_supersedes_id :: "string option"
  ad_created_at :: datetime

record PatchPanel =
  pp_panel_key :: string
  pp_panel_id :: string
  pp_version :: string
  pp_split :: string
  pp_membership_digest :: string
  pp_sampling_policy :: string
  pp_exposed_at :: "datetime option"
  pp_development_used_at :: "datetime option"
  pp_sealed_at :: "datetime option"
  pp_retired_at :: "datetime option"
  pp_parent_panel_key :: "string option"

record PatchPanelMembership =
  pm_panel_key :: string
  pm_case_id :: string
  pm_adjudication_id :: string
  pm_ordinal :: int
  pm_expected_control_outcomes :: "(string, string) fmap"

record Contract =
  ct_contract_hash :: string
  ct_task_id :: string
  ct_version :: string
  ct_requirement_hashes :: "string list"
  ct_allowed_variation :: string
  ct_unresolved_questions :: "string list"
  ct_evidence_digests :: "string list"
  ct_created_at :: datetime

record AcceptanceCell =
  cell_task_key :: string
  cell_repository_id :: string
  cell_case_id :: string
  cell_verifier_key :: string
  cell_adjudication_id :: string
  cell_label :: label
  cell_role :: role
  cell_outcome :: outcome
  cell_evaluation_validity :: validity
  cell_planned_repetitions :: int
  cell_selected_attempt_ids :: "string list"
  cell_excluded_attempt_ids :: "string list"
  cell_repetition_outcomes :: "outcome option list"
  cell_diagnostic_codes :: "string list"

record AcceptanceMatrix =
  mx_matrix_id :: string
  mx_run_id :: string
  mx_reducer_version :: string
  mx_cells :: "AcceptanceCell list"
  mx_complete :: bool
  mx_source_attempts_digest :: string
  mx_created_at :: datetime

section \<open>Validation of attempts and matrices: \<open>models/result.py\<close>\<close>

definition validate_attempt :: "EvaluationAttempt \<Rightarrow> unit res" where
  "validate_attempt attempt =
    (if a_fence attempt \<le> 0 then Inl (make_error ValidationError None)
     else if a_outcome attempt = Some Flaky then Inl (make_error ValidationError None)
     else (case a_evaluation_validity attempt of
         Pending \<Rightarrow>
           if a_outcome attempt \<noteq> None \<or> a_disposition attempt \<noteq> Active
           then Inl (make_error ValidationError None) else Inr ()
       | Valid \<Rightarrow>
           if a_outcome attempt \<notin> {Some Accept, Some Reject}
           then Inl (make_error ValidationError None) else Inr ()
       | Invalid \<Rightarrow>
           (let valid_invalid = a_outcome attempt \<in> {Some Invalid_evaluation, Some Error} \<or>
              (a_outcome attempt = None \<and> a_disposition attempt \<in> {Abandoned, Stale})
            in if \<not> valid_invalid then Inl (make_error ValidationError None) else Inr ())))"

definition validate_matrix :: "AcceptanceMatrix \<Rightarrow> AuditManifest \<Rightarrow> unit res" where
  "validate_matrix matrix manifest =
    (if mx_run_id matrix \<noteq> m_run_id manifest then Inl (make_error ValidationError None)
     else Inr ())"

definition terminal :: "job_state \<Rightarrow> bool" where
  "terminal s \<longleftrightarrow> s \<in> {DONE, FAILED, ABANDONED}"

lemma terminal_simps [simp]:
  "terminal DONE" "terminal FAILED" "terminal ABANDONED"
  "\<not> terminal PENDING" "\<not> terminal CLAIMED" "\<not> terminal RUNNING"
  by (simp_all add: terminal_def)

end
