(* ===== verification/Queue.thy ===== *)
theory Queue
  imports Models
begin

text \<open>
  The fenced job queue of \<open>src/src/verifierci/execution/jobs.py\<close> over the tables it reads and
  writes. A table is the list of its rows; \<open>UPDATE ... WHERE\<close> is \<open>update_where\<close>. A row of
  \<open>jobs\<close> is a \<open>Job\<close> (the columns are the fields of the dataclass, and \<open>_row_to_job\<close> copies
  them). A row of \<open>evaluation_attempts\<close> is an \<open>attempt_row\<close>: its JSON columns hold the decoded
  value, and \<open>resources\<close> is \<open>None\<close> for the literal \<open>'{}'\<close> a claim inserts.

  The constraints of \<open>storage/migrations/001_initial_schema.sql\<close> that a statement of jobs.py
  can violate (CHECKs, foreign keys, the partial unique index and the trigger on authoritative
  attempts) make that statement raise \<open>sqlite3.IntegrityError\<close>. The body of a
  \<open>with transaction(conn, immediate=True)\<close> block is a function from the database to an
  exception or a value with the new database; \<open>in_transaction\<close> adds the rollback.
\<close>

section \<open>Tables\<close>

record attempt_row =
  ar_attempt_id :: string
  ar_job_id :: string
  ar_fence :: int
  ar_outcome :: "outcome option"
  ar_evaluation_validity :: validity
  ar_error_code :: "string option"
  ar_disposition :: disposition
  ar_started_at :: datetime
  ar_finished_at :: "datetime option"
  ar_exit_code :: "int option"
  ar_stdout_hash :: "string option"
  ar_stderr_hash :: "string option"
  ar_report_digest :: "string option"
  ar_test_collection :: "string list"
  ar_tests_passed :: "int option"
  ar_tests_failed :: "int option"
  ar_resources :: "ResourceUsage option"
  ar_artifact_digests :: "string list"
  ar_capture_truncated :: bool

text \<open>
  The columns of \<open>audit_manifests\<close> the queue reads; of \<open>artifacts\<close> it reads the key only.
\<close>

record manifest_row =
  mr_manifest_hash :: string
  mr_max_attempts_per_job :: int

record db =
  jobs :: "Job list"
  attempts :: "attempt_row list"
  runs :: "AuditRun list"
  manifests :: "manifest_row list"
  artifact_digests :: "string list"

abbreviation job_of :: "db \<Rightarrow> string \<Rightarrow> Job option" where
  "job_of db k \<equiv> lookup_row j_job_id (jobs db) k"

abbreviation attempt_of :: "db \<Rightarrow> string \<Rightarrow> attempt_row option" where
  "attempt_of db k \<equiv> lookup_row ar_attempt_id (attempts db) k"

abbreviation run_of :: "db \<Rightarrow> string \<Rightarrow> AuditRun option" where
  "run_of db k \<equiv> lookup_row r_run_id (runs db) k"

interpretation job_table: keyed_table j_job_id "lookup_row j_job_id" update_where
    "\<lambda>r rows. rows @ [r]"
  by (rule list_table_laws)

interpretation attempt_table: keyed_table ar_attempt_id "lookup_row ar_attempt_id" update_where
    "\<lambda>r rows. rows @ [r]"
  by (rule list_table_laws)

interpretation run_table: keyed_table r_run_id "lookup_row r_run_id" update_where
    "\<lambda>r rows. rows @ [r]"
  by (rule list_table_laws)

section \<open>Constraints of the attempts table\<close>

text \<open>\<open>json_valid(resources)\<close>: \<open>json.dumps\<close> writes NaN and the infinities as tokens JSON lacks.\<close>

definition json_valid_resources :: "ResourceUsage option \<Rightarrow> bool" where
  "json_valid_resources r = (case r of None \<Rightarrow> True | Some u \<Rightarrow>
     opt_all is_finite (ru_duration u) \<and> opt_all is_finite (ru_allocated_cpu u)
     \<and> opt_all is_finite (ru_cpu_seconds u))"

definition attempt_check :: "attempt_row \<Rightarrow> bool" where
  "attempt_check r \<longleftrightarrow>
     ar_fence r > 0
   \<and> ar_outcome r \<noteq> Some Flaky
   \<and> opt_all (\<lambda>n. 0 \<le> n) (ar_tests_passed r)
   \<and> opt_all (\<lambda>n. 0 \<le> n) (ar_tests_failed r)
   \<and> json_valid_resources (ar_resources r)
   \<and> ((ar_evaluation_validity r = Pending \<and> ar_outcome r = None \<and> ar_disposition r = Active)
     \<or> (ar_evaluation_validity r = Valid \<and> ar_outcome r \<in> {Some Accept, Some Reject})
     \<or> (ar_evaluation_validity r = Invalid
        \<and> (ar_outcome r \<in> {Some Invalid_evaluation, Some Error}
          \<or> (ar_outcome r = None \<and> ar_disposition r \<in> {Abandoned, Stale}))))"

definition attempt_fk :: "db \<Rightarrow> attempt_row \<Rightarrow> bool" where
  "attempt_fk db r \<longleftrightarrow>
     opt_all (\<lambda>d. d \<in> set (artifact_digests db)) (ar_stdout_hash r)
   \<and> opt_all (\<lambda>d. d \<in> set (artifact_digests db)) (ar_stderr_hash r)
   \<and> opt_all (\<lambda>d. d \<in> set (artifact_digests db)) (ar_report_digest r)
   \<and> job_of db (ar_job_id r) \<noteq> None"

text \<open>\<open>attempt_authority_idx\<close>: unique \<open>job_id\<close> among the authoritative rows.\<close>

definition authority_unique :: "attempt_row list \<Rightarrow> bool" where
  "authority_unique rows \<longleftrightarrow>
     distinct (map ar_job_id (filter (\<lambda>r. ar_disposition r = Authoritative) rows))"

text \<open>\<open>UPDATE evaluation_attempts SET f WHERE p\<close>, with the trigger and the constraints.\<close>

definition update_attempts ::
    "(attempt_row \<Rightarrow> bool) \<Rightarrow> (attempt_row \<Rightarrow> attempt_row) \<Rightarrow> db \<Rightarrow> db res" where
  "update_attempts p f db =
    (let hit = filter p (attempts db); rows = update_where p f (attempts db) in
     if list_ex (\<lambda>r. ar_disposition r = Authoritative) hit
     then Inl (integrity_error ''authoritative evaluation attempt cannot be updated'')
     else if \<not> list_all (\<lambda>r. attempt_check (f r)) hit
     then Inl (integrity_error ''CHECK constraint failed'')
     else if \<not> authority_unique rows
     then Inl (integrity_error ''UNIQUE constraint failed'')
     else if \<not> list_all (\<lambda>r. attempt_fk db (f r)) hit
     then Inl (integrity_error ''FOREIGN KEY constraint failed'')
     else Inr (db\<lparr>attempts := rows\<rparr>))"

definition insert_attempt :: "attempt_row \<Rightarrow> db \<Rightarrow> db res" where
  "insert_attempt r db =
    (if \<not> attempt_check r then Inl (integrity_error ''CHECK constraint failed'')
     else if attempt_of db (ar_attempt_id r) \<noteq> None
     then Inl (integrity_error ''UNIQUE constraint failed'')
     else if \<not> authority_unique (attempts db @ [r])
     then Inl (integrity_error ''UNIQUE constraint failed'')
     else if \<not> attempt_fk db r then Inl (integrity_error ''FOREIGN KEY constraint failed'')
     else Inr (db\<lparr>attempts := attempts db @ [r]\<rparr>))"

definition update_jobs :: "(Job \<Rightarrow> bool) \<Rightarrow> (Job \<Rightarrow> Job) \<Rightarrow> db \<Rightarrow> db" where
  "update_jobs p f db = db\<lparr>jobs := update_where p f (jobs db)\<rparr>"

definition update_runs :: "(AuditRun \<Rightarrow> bool) \<Rightarrow> (AuditRun \<Rightarrow> AuditRun) \<Rightarrow> db \<Rightarrow> db" where
  "update_runs p f db = db\<lparr>runs := update_where p f (runs db)\<rparr>"

text \<open>\<open>storage.db.transaction\<close> around a body: commit on a clean exit, rollback on an exception.\<close>

definition in_transaction :: "(db \<Rightarrow> ('a \<times> db) res) \<Rightarrow> db \<Rightarrow> 'a res \<times> db" where
  "in_transaction body db =
    (case body db of Inl e \<Rightarrow> (Inl e, db) | Inr (v, db') \<Rightarrow> (Inr v, db'))"

text \<open>\<open>datetime.fromtimestamp(now_ms / 1000.0, UTC)\<close>, in microseconds.\<close>

definition instant_of_ms :: "int \<Rightarrow> datetime" where
  "instant_of_ms now_ms = now_ms * 1000"

definition DEFAULT_LEASE_MS :: int where "DEFAULT_LEASE_MS = 30000"

definition MAX_ATTEMPTS :: int where "MAX_ATTEMPTS = 3"

section \<open>Small helpers of jobs.py\<close>

definition valid_artifact_digest :: "db \<Rightarrow> string option \<Rightarrow> string option" where
  "valid_artifact_digest db digest =
    (case digest of None \<Rightarrow> None
     | Some d \<Rightarrow> if d \<in> set (artifact_digests db) then Some d else None)"

text \<open>The dictionary written to the \<open>resources\<close> column; an empty \<open>model_usage\<close> becomes null.\<close>

definition resources_dict :: "ResourceUsage \<Rightarrow> ResourceUsage" where
  "resources_dict u = u\<lparr>ru_model_usage :=
     (case ru_model_usage u of None \<Rightarrow> None
      | Some m \<Rightarrow> if m = fmempty then None else Some m)\<rparr>"

datatype stale_arg = No_attempt | Attempt_id string | Full_attempt EvaluationAttempt

definition stale_row :: "db \<Rightarrow> EvaluationAttempt \<Rightarrow> int \<Rightarrow> attempt_row \<Rightarrow> attempt_row" where
  "stale_row db attempt now_ms r = r\<lparr>
     ar_disposition := Stale,
     ar_evaluation_validity := Invalid,
     ar_outcome := (if a_outcome attempt \<in> {Some Invalid_evaluation, Some Error}
                    then a_outcome attempt else None),
     ar_error_code := a_error_code attempt,
     ar_finished_at := (case a_finished_at attempt of Some t \<Rightarrow> Some t
                        | None \<Rightarrow> Some (instant_of_ms now_ms)),
     ar_exit_code := a_exit_code attempt,
     ar_stdout_hash := valid_artifact_digest db (a_stdout_hash attempt),
     ar_stderr_hash := valid_artifact_digest db (a_stderr_hash attempt),
     ar_report_digest := valid_artifact_digest db (a_report_digest attempt),
     ar_test_collection := a_test_collection attempt,
     ar_tests_passed := a_tests_passed attempt,
     ar_tests_failed := a_tests_failed attempt,
     ar_resources := Some (resources_dict (a_resources attempt)),
     ar_artifact_digests :=
       filter (\<lambda>d. valid_artifact_digest db (Some d) \<noteq> None) (a_artifact_digests attempt),
     ar_capture_truncated := a_capture_truncated attempt\<rparr>"

definition mark_attempt_stale :: "db \<Rightarrow> stale_arg \<Rightarrow> int \<Rightarrow> db res" where
  "mark_attempt_stale db arg now_ms = (case arg of
     No_attempt \<Rightarrow> Inr db
   | Attempt_id aid \<Rightarrow>
       update_attempts (\<lambda>r. ar_attempt_id r = aid \<and> ar_disposition r \<in> {Active, Abandoned})
         (\<lambda>r. r\<lparr>ar_disposition := Stale, ar_evaluation_validity := Invalid,
                ar_outcome := None, ar_finished_at := Some (instant_of_ms now_ms)\<rparr>) db
   | Full_attempt attempt \<Rightarrow>
       update_attempts (\<lambda>r. ar_attempt_id r = a_attempt_id attempt
           \<and> ar_job_id r = a_job_id attempt \<and> ar_disposition r \<in> {Active, Abandoned})
         (stale_row db attempt now_ms) db)"

definition get_job :: "db \<Rightarrow> string \<Rightarrow> Job option" where
  "get_job db job_id = job_of db job_id"

section \<open>The state of the parent run\<close>

definition run_jobs :: "db \<Rightarrow> string \<Rightarrow> Job list" where
  "run_jobs db run_id = filter (\<lambda>j. j_run_id j = run_id) (jobs db)"

definition update_run_state :: "string \<Rightarrow> int \<Rightarrow> db \<Rightarrow> db" where
  "update_run_state run_id now_ms db = (case run_of db run_id of
     None \<Rightarrow> db
   | Some run \<Rightarrow>
       if r_state run \<in> {Run_COMPLETE, Run_CANCELLED, Run_FAILED} then db
       else
         let js = run_jobs db run_id;
             total_count = length js;
             active_count = length (filter (\<lambda>j. j_state j \<notin> {DONE, FAILED}) js);
             fail_count = length (filter (\<lambda>j. j_state j = FAILED) js)
         in if total_count = 0 then db
            else if active_count > 0 then
              (if r_state run = Run_PLANNED
               then update_runs (\<lambda>r. r_run_id r = run_id) (\<lambda>r. r\<lparr>r_state := Run_RUNNING\<rparr>) db
               else db)
            else
              let new_state = (if r_cancel_requested run then Run_CANCELLED
                               else if fail_count > 0 then Run_FAILED else Run_COMPLETE)
              in update_runs (\<lambda>r. r_run_id r = run_id)
                   (\<lambda>r. r\<lparr>r_state := new_state, r_finished_at := Some (instant_of_ms now_ms)\<rparr>) db)"

lemma update_run_state_frame [frame_simps]:
  "jobs (update_run_state run_id now_ms db) = jobs db"
  "attempts (update_run_state run_id now_ms db) = attempts db"
  "manifests (update_run_state run_id now_ms db) = manifests db"
  "artifact_digests (update_run_state run_id now_ms db) = artifact_digests db"
  by (simp_all add: update_run_state_def update_runs_def Let_def split: option.splits)

lemma update_jobs_frame [frame_simps]:
  "attempts (update_jobs p f db) = attempts db"
  "runs (update_jobs p f db) = runs db"
  "manifests (update_jobs p f db) = manifests db"
  "artifact_digests (update_jobs p f db) = artifact_digests db"
  "jobs (update_jobs p f db) = update_where p f (jobs db)"
  by (simp_all add: update_jobs_def)

lemma update_runs_frame [frame_simps]:
  "attempts (update_runs p f db) = attempts db"
  "jobs (update_runs p f db) = jobs db"
  "manifests (update_runs p f db) = manifests db"
  "artifact_digests (update_runs p f db) = artifact_digests db"
  "runs (update_runs p f db) = update_where p f (runs db)"
  by (simp_all add: update_runs_def)

lemma update_attempts_InrD:
  assumes "update_attempts p f db = Inr db'"
  shows "db' = db\<lparr>attempts := update_where p f (attempts db)\<rparr>"
    and "\<And>r. r \<in> set (attempts db) \<Longrightarrow> p r \<Longrightarrow>
      ar_disposition r \<noteq> Authoritative \<and> attempt_check (f r) \<and> attempt_fk db (f r)"
    and "authority_unique (update_where p f (attempts db))"
  using assms
  by (auto simp: update_attempts_def Let_def list_ex_iff list_all_iff split: if_splits)

lemma insert_attempt_InrD:
  assumes "insert_attempt r db = Inr db'"
  shows "db' = db\<lparr>attempts := attempts db @ [r]\<rparr>" and "attempt_check r"
    and "attempt_of db (ar_attempt_id r) = None" and "attempt_fk db r"
    and "authority_unique (attempts db @ [r])"
  using assms by (auto simp: insert_attempt_def split: if_splits)

section \<open>claim\<close>

definition next_pending :: "db \<Rightarrow> string option \<Rightarrow> Job option" where
  "next_pending db run_id = (case run_id of
     Some rid \<Rightarrow> first_by j_job_id (filter (\<lambda>j. j_state j = PENDING \<and> j_run_id j = rid) (jobs db))
   | None \<Rightarrow> first_by j_job_id (filter (\<lambda>j. j_state j = PENDING) (jobs db)))"

text \<open>\<open>run_row and run_row["cancel_requested"]\<close>\<close>

definition run_cancelled :: "db \<Rightarrow> string \<Rightarrow> bool" where
  "run_cancelled db run_id = (case run_of db run_id of
     None \<Rightarrow> False | Some r \<Rightarrow> r_cancel_requested r)"

definition fail_pending :: "string \<Rightarrow> db \<Rightarrow> db" where
  "fail_pending run_id db = update_jobs (\<lambda>j. j_run_id j = run_id \<and> j_state j = PENDING)
     (\<lambda>j. j\<lparr>j_state := FAILED, j_terminal_reason := Some ''CANCELLED''\<rparr>) db"

definition claimed_row ::
    "string \<Rightarrow> int \<Rightarrow> string \<Rightarrow> string \<Rightarrow> int \<Rightarrow> int \<Rightarrow> Job \<Rightarrow> Job" where
  "claimed_row attempt_id fence token worker_id expires started j = j\<lparr>
     j_state := CLAIMED, j_fence := fence, j_attempt_id := Some attempt_id,
     j_lease_token := Some token, j_worker_id := Some worker_id,
     j_lease_expires_ms := Some expires, j_attempts_started := started\<rparr>"

definition pending_attempt :: "string \<Rightarrow> string \<Rightarrow> int \<Rightarrow> int \<Rightarrow> attempt_row" where
  "pending_attempt attempt_id job_id fence now_ms = \<lparr>
     ar_attempt_id = attempt_id, ar_job_id = job_id, ar_fence = fence, ar_outcome = None,
     ar_evaluation_validity = Pending, ar_error_code = None, ar_disposition = Active,
     ar_started_at = instant_of_ms now_ms, ar_finished_at = None, ar_exit_code = None,
     ar_stdout_hash = None, ar_stderr_hash = None, ar_report_digest = None,
     ar_test_collection = [], ar_tests_passed = None, ar_tests_failed = None,
     ar_resources = None, ar_artifact_digests = [], ar_capture_truncated = False\<rparr>"

text \<open>The \<open>Job(...)\<close> a claim returns: built from the row read before the update.\<close>

definition claimed_job ::
    "string \<Rightarrow> int \<Rightarrow> string \<Rightarrow> string \<Rightarrow> int \<Rightarrow> int \<Rightarrow> Job \<Rightarrow> Job" where
  "claimed_job attempt_id fence token worker_id expires started row = \<lparr>
     j_job_id = j_job_id row, j_run_id = j_run_id row, j_task_key = j_task_key row,
     j_case_id = j_case_id row, j_verifier_key = j_verifier_key row,
     j_repetition = j_repetition row, j_state = CLAIMED, j_fence = fence,
     j_attempt_id = Some attempt_id, j_lease_token = Some token, j_worker_id = Some worker_id,
     j_lease_expires_ms = Some expires, j_attempts_started = started,
     j_selected_attempt_id = None, j_terminal_reason = None\<rparr>"

definition pending_count :: "db \<Rightarrow> nat" where
  "pending_count db = length (filter (\<lambda>j. j_state j = PENDING) (jobs db))"

lemma next_pending_SomeD:
  assumes "next_pending db run_id = Some row"
  shows "row \<in> set (jobs db)" and "j_state row = PENDING"
    and "case run_id of Some rid \<Rightarrow> j_run_id row = rid | None \<Rightarrow> True"
    and "\<And>q. q \<in> set (jobs db) \<Longrightarrow> j_state q = PENDING \<Longrightarrow>
      (case run_id of Some rid \<Rightarrow> j_run_id q = rid | None \<Rightarrow> True) \<Longrightarrow> j_job_id row \<le> j_job_id q"
  using assms by (auto simp: next_pending_def dest!: first_by_SomeD split: option.splits)

lemma next_pending_None_iff:
  "next_pending db run_id = None \<longleftrightarrow> (\<forall>q \<in> set (jobs db). j_state q = PENDING \<longrightarrow>
     (case run_id of Some rid \<Rightarrow> j_run_id q \<noteq> rid | None \<Rightarrow> False))"
  by (auto simp: next_pending_def first_by_None_iff filter_empty_conv split: option.splits)

lemma length_filter_map_less:
  assumes "\<And>x. P (f x) \<Longrightarrow> P x" and "x \<in> set xs" and "P x" and "\<not> P (f x)"
  shows "length (filter P (map f xs)) < length (filter P xs)"
proof -
  have le: "length (filter P (map f ys)) \<le> length (filter P ys)" for ys
    using assms(1) by (induction ys) auto
  show ?thesis
    using assms(2)
  proof (induction xs)
    case Nil
    then show ?case by simp
  next
    case (Cons y ys)
    with le [of ys] assms show ?case by auto
  qed
qed

lemma fail_pending_count:
  assumes "row \<in> set (jobs db)" and "j_state row = PENDING"
  shows "pending_count (fail_pending (j_run_id row) db) < pending_count db"
  unfolding pending_count_def fail_pending_def update_jobs_frame update_where_def
  by (rule length_filter_map_less [where x = row]) (use assms in \<open>auto split: if_splits\<close>)

text \<open>
  The body of \<open>claim\<close>: the \<open>while True\<close> loop. \<open>fresh n\<close> is the pair of the UUID and the
  lease token the \<open>n\<close>-th round draws. A round that finds a cancelled run fails that run's
  pending jobs and goes on; the round after a lost race (no row updated) goes on as well.
\<close>

function claim_loop ::
    "string \<Rightarrow> string option \<Rightarrow> int \<Rightarrow> int \<Rightarrow> (nat \<Rightarrow> string \<times> string) \<Rightarrow> nat \<Rightarrow> db
     \<Rightarrow> (Job option \<times> db) res" where
  "claim_loop worker_id run_id now_ms lease_duration_ms fresh n db =
    (case next_pending db run_id of
       None \<Rightarrow> Inr (None, db)
     | Some row \<Rightarrow>
         if run_cancelled db (j_run_id row) then
           claim_loop worker_id run_id now_ms lease_duration_ms fresh (Suc n)
             (update_run_state (j_run_id row) now_ms (fail_pending (j_run_id row) db))
         else
           let new_attempt_id = fst (fresh n);
               new_fence = j_fence row + 1;
               new_lease_token = snd (fresh n);
               new_lease_expires_ms = now_ms + lease_duration_ms;
               new_attempts_started = j_attempts_started row + 1;
               hit = (\<lambda>j. j_job_id j = j_job_id row \<and> j_state j = PENDING)
           in if filter hit (jobs db) = [] then
                claim_loop worker_id run_id now_ms lease_duration_ms fresh (Suc n) db
              else
                bind_res
                  (insert_attempt (pending_attempt new_attempt_id (j_job_id row) new_fence now_ms)
                    (update_jobs hit (claimed_row new_attempt_id new_fence new_lease_token worker_id
                       new_lease_expires_ms new_attempts_started) db))
                  (\<lambda>db'. Inr (Some (claimed_job new_attempt_id new_fence new_lease_token worker_id
                       new_lease_expires_ms new_attempts_started row),
                     update_run_state (j_run_id row) now_ms db')))"
  by pat_completeness auto
termination
proof (relation "measure (\<lambda>(_, _, _, _, _, _, db). pending_count db)", goal_cases)
  case 1
  show ?case by simp
next
  case (2 worker_id run_id now_ms lease_duration_ms fresh n db row)
  then show ?case
    using fail_pending_count [OF next_pending_SomeD(1,2)]
    by (simp add: pending_count_def frame_simps)
next
  case (3 worker_id run_id now_ms lease_duration_ms fresh n db row)
  then show ?case
    using next_pending_SomeD(1,2) [of db run_id row] by (auto simp: filter_empty_conv)
qed

declare claim_loop.simps [simp del]

definition claim ::
    "db \<Rightarrow> string \<Rightarrow> int \<Rightarrow> string option \<Rightarrow> int \<Rightarrow> (nat \<Rightarrow> string \<times> string) \<Rightarrow> Job option res \<times> db"
    where
  "claim db worker_id now_ms run_id lease_duration_ms fresh =
    in_transaction (claim_loop worker_id run_id now_ms lease_duration_ms fresh 0) db"

section \<open>mark\_running and heartbeat\<close>

definition lease_lost :: exn where
  "lease_lost = make_error LeaseLost (Some (ec_value EC_LEASE_LOST))"

definition lease_mismatch :: "Job \<Rightarrow> Job \<Rightarrow> bool" where
  "lease_mismatch row job \<longleftrightarrow>
     j_fence row \<noteq> j_fence job
   \<or> j_lease_token row \<noteq> j_lease_token job
   \<or> (j_worker_id job \<noteq> None \<and> j_worker_id row \<noteq> j_worker_id job)
   \<or> (j_attempt_id job \<noteq> None \<and> j_attempt_id row \<noteq> j_attempt_id job)"

definition lease_expired :: "Job \<Rightarrow> int \<Rightarrow> bool" where
  "lease_expired row now_ms = (case j_lease_expires_ms row of None \<Rightarrow> True | Some t \<Rightarrow> t \<le> now_ms)"

definition mark_running_body :: "Job \<Rightarrow> int \<Rightarrow> db \<Rightarrow> (Job \<times> db) res" where
  "mark_running_body job now_ms db = (case job_of db (j_job_id job) of
     None \<Rightarrow> Inl lease_lost
   | Some row \<Rightarrow>
       if lease_mismatch row job then Inl lease_lost
       else if lease_expired row now_ms then Inl lease_lost
       else if j_state row \<notin> {CLAIMED, RUNNING} then Inl lease_lost
       else
         let db' = (if j_state row = CLAIMED
                    then update_jobs (\<lambda>j. j_job_id j = j_job_id job)
                           (\<lambda>j. j\<lparr>j_state := RUNNING\<rparr>) db
                    else db)
         in Inr (job\<lparr>j_state := RUNNING,
                     j_lease_expires_ms := j_lease_expires_ms row,
                     j_attempts_started := j_attempts_started row,
                     j_selected_attempt_id := j_selected_attempt_id row,
                     j_terminal_reason := j_terminal_reason row\<rparr>, db'))"

definition mark_running :: "db \<Rightarrow> Job \<Rightarrow> int \<Rightarrow> Job res \<times> db" where
  "mark_running db job now_ms = in_transaction (mark_running_body job now_ms) db"

definition heartbeat_body :: "Job \<Rightarrow> int \<Rightarrow> int \<Rightarrow> db \<Rightarrow> (Job \<times> db) res" where
  "heartbeat_body job now_ms extension_ms db = (case job_of db (j_job_id job) of
     None \<Rightarrow> Inl lease_lost
   | Some row \<Rightarrow>
       if lease_mismatch row job then Inl lease_lost
       else if lease_expired row now_ms then Inl lease_lost
       else if j_state row \<notin> {CLAIMED, RUNNING} then Inl lease_lost
       else
         let new_expires_ms = now_ms + extension_ms
         in Inr (job\<lparr>j_state := j_state row,
                     j_worker_id := j_worker_id row,
                     j_lease_expires_ms := Some new_expires_ms,
                     j_attempts_started := j_attempts_started row,
                     j_selected_attempt_id := j_selected_attempt_id row,
                     j_terminal_reason := j_terminal_reason row\<rparr>,
                 update_jobs (\<lambda>j. j_job_id j = j_job_id job)
                   (\<lambda>j. j\<lparr>j_lease_expires_ms := Some new_expires_ms\<rparr>) db))"

definition heartbeat :: "db \<Rightarrow> Job \<Rightarrow> int \<Rightarrow> int \<Rightarrow> Job res \<times> db" where
  "heartbeat db job now_ms extension_ms =
    in_transaction (heartbeat_body job now_ms extension_ms) db"

section \<open>complete\<close>

datatype completion = Committed | Duplicate | Stale_submission

text \<open>The comparison of a resubmitted attempt with the stored row (\<open>matches\<close>).\<close>

definition attempt_matches :: "attempt_row \<Rightarrow> EvaluationAttempt \<Rightarrow> bool" where
  "attempt_matches r attempt \<longleftrightarrow>
     ar_outcome r = a_outcome attempt
   \<and> ar_evaluation_validity r = a_evaluation_validity attempt
   \<and> ar_error_code r = a_error_code attempt
   \<and> ar_exit_code r = a_exit_code attempt
   \<and> ar_stdout_hash r = a_stdout_hash attempt
   \<and> ar_stderr_hash r = a_stderr_hash attempt
   \<and> ar_report_digest r = a_report_digest attempt
   \<and> ar_test_collection r = a_test_collection attempt
   \<and> ar_tests_passed r = a_tests_passed attempt
   \<and> ar_tests_failed r = a_tests_failed attempt
   \<and> ar_resources r = Some (resources_dict (a_resources attempt))
   \<and> ar_artifact_digests r = a_artifact_digests attempt
   \<and> ar_capture_truncated r = a_capture_truncated attempt"

definition stale_result :: "db \<Rightarrow> EvaluationAttempt \<Rightarrow> int \<Rightarrow> (completion \<times> db) res" where
  "stale_result db attempt now_ms =
    bind_res (mark_attempt_stale db (Full_attempt attempt) now_ms)
      (\<lambda>db'. Inr (Stale_submission, db'))"

text \<open>Case 1 of \<open>complete\<close>: the job is already terminal.\<close>

definition complete_terminal ::
    "Job \<Rightarrow> EvaluationAttempt \<Rightarrow> int \<Rightarrow> db \<Rightarrow> (completion \<times> db) res" where
  "complete_terminal row attempt now_ms db =
    (if j_selected_attempt_id row = Some (a_attempt_id attempt) then
       (case attempt_of db (a_attempt_id attempt) of
          None \<Rightarrow> Inr (Duplicate, db)
        | Some r \<Rightarrow> if attempt_matches r attempt then Inr (Duplicate, db)
                   else Inl (make_error IdentityConflict (Some (ec_value EC_IDENTITY_CONFLICT))))
     else stale_result db attempt now_ms)"

text \<open>Case 3: the lease is live and the fence, the token and the attempt match.\<close>

definition committed_row :: "EvaluationAttempt \<Rightarrow> int \<Rightarrow> attempt_row \<Rightarrow> attempt_row" where
  "committed_row attempt now_ms r = r\<lparr>
     ar_outcome := a_outcome attempt,
     ar_evaluation_validity := a_evaluation_validity attempt,
     ar_error_code := a_error_code attempt,
     ar_disposition := Authoritative,
     ar_finished_at := (case a_finished_at attempt of Some t \<Rightarrow> Some t
                        | None \<Rightarrow> Some (instant_of_ms now_ms)),
     ar_exit_code := a_exit_code attempt,
     ar_stdout_hash := a_stdout_hash attempt,
     ar_stderr_hash := a_stderr_hash attempt,
     ar_report_digest := a_report_digest attempt,
     ar_test_collection := a_test_collection attempt,
     ar_tests_passed := a_tests_passed attempt,
     ar_tests_failed := a_tests_failed attempt,
     ar_resources := Some (resources_dict (a_resources attempt)),
     ar_artifact_digests := a_artifact_digests attempt,
     ar_capture_truncated := a_capture_truncated attempt\<rparr>"

definition terminal_state_of :: "EvaluationAttempt \<Rightarrow> job_state" where
  "terminal_state_of attempt = (if a_outcome attempt = Some Error then FAILED else DONE)"

text \<open>\<open>attempt.error_code or "EVALUATION_ERROR"\<close>: an empty code counts as absent.\<close>

definition terminal_reason_of :: "EvaluationAttempt \<Rightarrow> string option" where
  "terminal_reason_of attempt =
    (if a_outcome attempt = Some Error
     then Some (case a_error_code attempt of
         None \<Rightarrow> ''EVALUATION_ERROR''
       | Some c \<Rightarrow> if c = [] then ''EVALUATION_ERROR'' else c)
     else None)"

definition settled_row :: "EvaluationAttempt \<Rightarrow> Job \<Rightarrow> Job" where
  "settled_row attempt j = j\<lparr>
     j_state := terminal_state_of attempt,
     j_selected_attempt_id := Some (a_attempt_id attempt),
     j_lease_token := None, j_worker_id := None, j_lease_expires_ms := None,
     j_terminal_reason := terminal_reason_of attempt\<rparr>"

definition complete_commit ::
    "Job \<Rightarrow> EvaluationAttempt \<Rightarrow> int \<Rightarrow> db \<Rightarrow> (completion \<times> db) res" where
  "complete_commit job attempt now_ms db =
    (if (case attempt_of db (a_attempt_id attempt) of
           None \<Rightarrow> True
         | Some r \<Rightarrow> ar_job_id r \<noteq> j_job_id job \<or> ar_fence r \<noteq> j_fence job)
        \<or> a_job_id attempt \<noteq> j_job_id job \<or> a_fence attempt \<noteq> j_fence job
     then Inl (make_error IdentityConflict (Some (ec_value EC_IDENTITY_CONFLICT)))
     else
       bind_res
         (update_attempts (\<lambda>r. ar_attempt_id r = a_attempt_id attempt)
            (committed_row attempt now_ms) db)
         (\<lambda>db'. Inr (Committed,
            update_run_state (j_run_id job) now_ms
              (update_jobs (\<lambda>j. j_job_id j = j_job_id job) (settled_row attempt) db'))))"

definition complete_body ::
    "Job \<Rightarrow> EvaluationAttempt \<Rightarrow> int \<Rightarrow> db \<Rightarrow> (completion \<times> db) res" where
  "complete_body job attempt now_ms db = (case job_of db (j_job_id job) of
     None \<Rightarrow> Inl (make_error InfrastructureError (Some (ec_value EC_INFRASTRUCTURE_ERROR)))
   | Some row \<Rightarrow>
       if j_state row \<in> {DONE, FAILED, ABANDONED} then complete_terminal row attempt now_ms db
       else
         let expired = lease_expired row now_ms;
             lease_identity_invalid =
               (j_fence row \<noteq> j_fence job \<or> j_lease_token row \<noteq> j_lease_token job);
             attempt_not_current = (j_attempt_id row \<noteq> Some (a_attempt_id attempt));
             worker_mismatch = (j_worker_id job \<noteq> None \<and> j_worker_id row \<noteq> j_worker_id job)
         in if expired \<or> lease_identity_invalid \<or> attempt_not_current
            then stale_result db attempt now_ms
            else if worker_mismatch then Inr (Stale_submission, db)
            else complete_commit job attempt now_ms db)"

definition complete ::
    "db \<Rightarrow> Job \<Rightarrow> EvaluationAttempt \<Rightarrow> int \<Rightarrow> completion res \<times> db" where
  "complete db job attempt now_ms = in_transaction (complete_body job attempt now_ms) db"

section \<open>reap\_expired\<close>

definition expired_jobs :: "db \<Rightarrow> int \<Rightarrow> Job list" where
  "expired_jobs db now_ms = sort_key j_job_id (filter (\<lambda>j. j_state j \<in> {CLAIMED, RUNNING}
     \<and> (case j_lease_expires_ms j of None \<Rightarrow> False | Some t \<Rightarrow> t \<le> now_ms)) (jobs db))"

text \<open>
  \<open>SELECT m.max_attempts_per_job FROM audit_runs r JOIN audit_manifests m ...\<close>, with the
  default when there is no such row.
\<close>

definition manifest_limit :: "db \<Rightarrow> string \<Rightarrow> int" where
  "manifest_limit db run_id = (case run_of db run_id of
     None \<Rightarrow> MAX_ATTEMPTS
   | Some r \<Rightarrow> (case lookup_row mr_manifest_hash (manifests db) (r_manifest_hash r) of
       None \<Rightarrow> MAX_ATTEMPTS
     | Some m \<Rightarrow> mr_max_attempts_per_job m))"

text \<open>The limit of one round, with the \<open>manifest_cache\<close> dictionary it reads and fills.\<close>

definition effective_limit ::
    "int option \<Rightarrow> db \<Rightarrow> string \<Rightarrow> (string \<times> int) list \<Rightarrow> int \<times> (string \<times> int) list" where
  "effective_limit max_attempts db run_id cache = (case max_attempts of
     Some m \<Rightarrow> (m, cache)
   | None \<Rightarrow> (case map_of cache run_id of
       Some m \<Rightarrow> (m, cache)
     | None \<Rightarrow> (manifest_limit db run_id, (run_id, manifest_limit db run_id) # cache)))"

definition abandoned_row :: "int \<Rightarrow> attempt_row \<Rightarrow> attempt_row" where
  "abandoned_row now_ms r = r\<lparr>
     ar_disposition := Abandoned, ar_evaluation_validity := Invalid, ar_outcome := None,
     ar_finished_at := Some (instant_of_ms now_ms)\<rparr>"

text \<open>\<open>if attempt_id:\<close> is false for null and for the empty string.\<close>

definition abandon_attempt :: "string option \<Rightarrow> int \<Rightarrow> db \<Rightarrow> db res" where
  "abandon_attempt attempt_id now_ms db = (case attempt_id of
     None \<Rightarrow> Inr db
   | Some aid \<Rightarrow> if aid = [] then Inr db
       else update_attempts (\<lambda>r. ar_attempt_id r = aid \<and> ar_disposition r = Active)
              (abandoned_row now_ms) db)"

definition reaped_row :: "job_state \<Rightarrow> string option \<Rightarrow> Job \<Rightarrow> Job" where
  "reaped_row st reason j = j\<lparr>
     j_state := st, j_attempt_id := None, j_lease_token := None, j_worker_id := None,
     j_lease_expires_ms := None, j_terminal_reason := reason\<rparr>"

definition reap_target :: "bool \<Rightarrow> int \<Rightarrow> int \<Rightarrow> job_state \<times> string option" where
  "reap_target cancelled attempts_started limit =
    (if cancelled then (FAILED, Some ''CANCELLED'')
     else if attempts_started < limit then (PENDING, None)
     else (FAILED, Some ''LEASE_EXPIRED''))"

fun reap_loop ::
    "int option \<Rightarrow> int \<Rightarrow> Job list \<Rightarrow> (string \<times> int) list \<Rightarrow> db \<Rightarrow> db res" where
  "reap_loop max_attempts now_ms [] cache db = Inr db"
| "reap_loop max_attempts now_ms (row # rows) cache db =
    bind_res (abandon_attempt (j_attempt_id row) now_ms db) (\<lambda>db1.
      let cancelled = run_cancelled db1 (j_run_id row);
          (limit, cache') = effective_limit max_attempts db1 (j_run_id row) cache;
          (st, reason) = reap_target cancelled (j_attempts_started row) limit
      in reap_loop max_attempts now_ms rows cache'
           (update_jobs (\<lambda>j. j_job_id j = j_job_id row) (reaped_row st reason) db1))"

text \<open>
  The set \<open>affected_runs\<close> is iterated in the order \<open>order\<close> gives; Python leaves it open.
\<close>

definition reap_body ::
    "(string list \<Rightarrow> string list) \<Rightarrow> int \<Rightarrow> int option \<Rightarrow> db \<Rightarrow> (string list \<times> db) res" where
  "reap_body order now_ms max_attempts db =
    (let rows = expired_jobs db now_ms in
     bind_res (reap_loop max_attempts now_ms rows [] db) (\<lambda>db'.
       Inr (map j_job_id rows,
            fold (\<lambda>run_id. update_run_state run_id now_ms)
              (order (remdups (map j_run_id rows))) db')))"

definition reap_expired ::
    "(string list \<Rightarrow> string list) \<Rightarrow> db \<Rightarrow> int \<Rightarrow> int option \<Rightarrow> string list res \<times> db" where
  "reap_expired order db now_ms max_attempts =
    in_transaction (reap_body order now_ms max_attempts) db"

section \<open>request\_cancel\<close>

definition request_cancel_body :: "string \<Rightarrow> int \<Rightarrow> db \<Rightarrow> (unit \<times> db) res" where
  "request_cancel_body run_id now_ms db =
    Inr ((), update_run_state run_id now_ms (fail_pending run_id
      (update_runs (\<lambda>r. r_run_id r = run_id) (\<lambda>r. r\<lparr>r_cancel_requested := True\<rparr>) db)))"

definition request_cancel :: "db \<Rightarrow> string \<Rightarrow> int \<Rightarrow> unit res \<times> db" where
  "request_cancel db run_id now_ms = in_transaction (request_cancel_body run_id now_ms) db"

section \<open>The queue as a system\<close>

text \<open>
  SQLite runs \<open>BEGIN IMMEDIATE\<close> transactions one after the other, so an execution of any
  number of workers, the reaper and the controller is a sequence of whole operations, each
  with arbitrary arguments: a worker may submit any handle and any attempt.
\<close>

datatype queue_op =
    Op_claim string int "string option" int "nat \<Rightarrow> string \<times> string"
  | Op_mark_running Job int
  | Op_heartbeat Job int int
  | Op_complete Job EvaluationAttempt int
  | Op_reap "string list \<Rightarrow> string list" int "int option"
  | Op_cancel string int

fun run_op :: "queue_op \<Rightarrow> db \<Rightarrow> db" where
  "run_op (Op_claim w now run lease fresh) db = snd (claim db w now run lease fresh)"
| "run_op (Op_mark_running job now) db = snd (mark_running db job now)"
| "run_op (Op_heartbeat job now ext) db = snd (heartbeat db job now ext)"
| "run_op (Op_complete job attempt now) db = snd (complete db job attempt now)"
| "run_op (Op_reap order now m) db = snd (reap_expired order db now m)"
| "run_op (Op_cancel run now) db = snd (request_cancel db run now)"

inductive queue_step :: "db \<Rightarrow> db \<Rightarrow> bool" where
  op: "queue_step db (run_op p db)"

inductive queue_steps :: "db \<Rightarrow> db \<Rightarrow> bool" where
  start: "queue_steps db db"
| step: "queue_steps db db' \<Longrightarrow> queue_step db' db'' \<Longrightarrow> queue_steps db db''"

end
