(* ===== verification/Queue_Invariant.thy ===== *)
theory Queue_Invariant
  imports Queue
begin

text \<open>
  The invariant of the queue tables and its preservation. Every operation of \<open>Queue\<close> is a
  sequence of the few transitions of \<open>micro\<close>; what has to hold in every reachable database
  is proved once per transition and lifted to operations and executions by the locales
  \<open>invariant_system\<close> and \<open>simulated_system\<close>.
\<close>

section \<open>Systems with an invariant\<close>

locale invariant_system =
  fixes move :: "'s \<Rightarrow> 's \<Rightarrow> bool" and inv :: "'s \<Rightarrow> bool"
  assumes move_inv: "move s t \<Longrightarrow> inv s \<Longrightarrow> inv t"
begin

lemma moves_inv: "move\<^sup>*\<^sup>* s t \<Longrightarrow> inv s \<Longrightarrow> inv t"
  by (induction rule: rtranclp_induct) (auto intro: move_inv)

text \<open>A relation between states that every transition from an invariant state respects.\<close>

lemma moves_rel:
  assumes "move\<^sup>*\<^sup>* s t" and "inv s"
    and "\<And>s t. move s t \<Longrightarrow> inv s \<Longrightarrow> R s t"
    and "\<And>s. R s s" and "\<And>s t u. R s t \<Longrightarrow> R t u \<Longrightarrow> R s u"
  shows "R s t"
  using assms(1)
proof (induction rule: rtranclp_induct)
  case base
  show ?case by (rule assms(4))
next
  case (step t u)
  then have "R t u" using assms(2,3) moves_inv by blast
  with step.IH show ?case by (rule assms(5))
qed

end

locale simulated_system = invariant_system +
  fixes big :: "'s \<Rightarrow> 's \<Rightarrow> bool"
  assumes big_moves: "big s t \<Longrightarrow> inv s \<Longrightarrow> move\<^sup>*\<^sup>* s t"
begin

lemma bigs_moves: "big\<^sup>*\<^sup>* s t \<Longrightarrow> inv s \<Longrightarrow> move\<^sup>*\<^sup>* s t"
proof (induction rule: rtranclp_induct)
  case base
  then show ?case by simp
next
  case (step t u)
  then have "move\<^sup>*\<^sup>* s t" by simp
  moreover have "move\<^sup>*\<^sup>* t u"
    using big_moves [OF step.hyps(2)] moves_inv [OF \<open>move\<^sup>*\<^sup>* s t\<close> step.prems] by blast
  ultimately show ?case by (rule rtranclp_trans)
qed

lemma bigs_inv: "big\<^sup>*\<^sup>* s t \<Longrightarrow> inv s \<Longrightarrow> inv t"
  by (blast intro: bigs_moves moves_inv)

end

section \<open>The invariant\<close>

definition db_keys :: "db \<Rightarrow> bool" where
  "db_keys db \<longleftrightarrow> distinct (map j_job_id (jobs db)) \<and> distinct (map ar_attempt_id (attempts db))
     \<and> distinct (map r_run_id (runs db))"

definition leased :: "Job \<Rightarrow> bool" where
  "leased j \<longleftrightarrow> j_state j \<in> {CLAIMED, RUNNING}"

text \<open>
  \<open>att\<close> and \<open>job\<close> are the lookups of the two tables. A pending job has no lease, a leased job
  points to the attempt of its fence, and a job has selected an attempt exactly when that
  attempt is authoritative, which is then the attempt of its last fence; \<open>FAILED\<close> with a selected attempt means an \<open>error\<close> outcome.
\<close>

definition job_inv :: "(string \<Rightarrow> attempt_row option) \<Rightarrow> Job \<Rightarrow> bool" where
  "job_inv att j \<longleftrightarrow> 0 \<le> j_fence j \<and> j_attempts_started j = j_fence j \<and> j_state j \<noteq> ABANDONED
   \<and> (j_state j = PENDING \<longrightarrow> j_attempt_id j = None \<and> j_lease_token j = None
        \<and> j_worker_id j = None)
   \<and> (leased j \<longleftrightarrow> j_lease_expires_ms j \<noteq> None)
   \<and> (leased j \<longrightarrow> j_lease_token j \<noteq> None \<and> j_worker_id j \<noteq> None
        \<and> (\<exists>aid r. j_attempt_id j = Some aid \<and> att aid = Some r
             \<and> ar_job_id r = j_job_id j \<and> ar_fence r = j_fence j))
   \<and> (j_state j = DONE \<longrightarrow> j_selected_attempt_id j \<noteq> None)
   \<and> (\<forall>aid. j_selected_attempt_id j = Some aid \<longrightarrow> j_state j \<in> {DONE, FAILED}
        \<and> (\<exists>r. att aid = Some r \<and> ar_disposition r = Authoritative
             \<and> ar_job_id r = j_job_id j \<and> ar_fence r = j_fence j
             \<and> (ar_outcome r = Some Error \<longleftrightarrow> j_state j = FAILED)))"

definition row_inv :: "(string \<Rightarrow> Job option) \<Rightarrow> attempt_row \<Rightarrow> bool" where
  "row_inv job r \<longleftrightarrow> attempt_check r
   \<and> (ar_disposition r = Active \<longrightarrow> ar_stdout_hash r = None \<and> ar_stderr_hash r = None
        \<and> ar_report_digest r = None) \<and>
    (\<exists>j. job (ar_job_id r) = Some j \<and> ar_fence r \<le> j_fence j
       \<and> (ar_disposition r = Authoritative \<longrightarrow>
            j_selected_attempt_id j = Some (ar_attempt_id r)))"

definition fence_unique :: "(string \<Rightarrow> attempt_row option) \<Rightarrow> bool" where
  "fence_unique att \<longleftrightarrow> (\<forall>k k' r r'. att k = Some r \<longrightarrow> att k' = Some r' \<longrightarrow>
     ar_job_id r = ar_job_id r' \<longrightarrow> ar_fence r = ar_fence r' \<longrightarrow> k = k')"

text \<open>A terminal run agrees with the states of its jobs, all of which are terminal.\<close>

definition run_terminal :: "run_state \<Rightarrow> bool" where
  "run_terminal s \<longleftrightarrow> s \<in> {Run_COMPLETE, Run_CANCELLED, Run_FAILED}"

definition run_inv :: "(string \<Rightarrow> Job option) \<Rightarrow> AuditRun \<Rightarrow> bool" where
  "run_inv job u \<longleftrightarrow>
     (run_terminal (r_state u) \<longrightarrow> (\<forall>k j. job k = Some j \<longrightarrow> j_run_id j = r_run_id u \<longrightarrow>
        j_state j \<in> {DONE, FAILED} \<and> (r_state u = Run_COMPLETE \<longrightarrow> j_state j = DONE)))
   \<and> (r_state u = Run_CANCELLED \<longrightarrow> r_cancel_requested u)
   \<and> (r_state u = Run_FAILED \<longrightarrow>
        (\<exists>k j. job k = Some j \<and> j_run_id j = r_run_id u \<and> j_state j = FAILED))"

definition db_inv :: "db \<Rightarrow> bool" where
  "db_inv db \<longleftrightarrow> db_keys db
     \<and> (\<forall>k j. job_of db k = Some j \<longrightarrow> job_inv (attempt_of db) j)
     \<and> (\<forall>k r. attempt_of db k = Some r \<longrightarrow> row_inv (job_of db) r)
     \<and> fence_unique (attempt_of db)
     \<and> (\<forall>k u. run_of db k = Some u \<longrightarrow> run_inv (job_of db) u)"

lemma db_invD:
  assumes "db_inv db"
  shows "db_keys db"
    and "job_of db k = Some j \<Longrightarrow> job_inv (attempt_of db) j"
    and "attempt_of db a = Some r \<Longrightarrow> row_inv (job_of db) r"
    and "fence_unique (attempt_of db)"
    and "run_of db k = Some u \<Longrightarrow> run_inv (job_of db) u"
  using assms by (auto simp: db_inv_def)

lemma db_keysD:
  assumes "db_keys db"
  shows "j \<in> set (jobs db) \<Longrightarrow> job_of db (j_job_id j) = Some j"
    and "r \<in> set (attempts db) \<Longrightarrow> attempt_of db (ar_attempt_id r) = Some r"
    and "u \<in> set (runs db) \<Longrightarrow> run_of db (r_run_id u) = Some u"
  using assms by (auto simp: db_keys_def lookup_row_mem)

lemma job_of_id: "job_of db k = Some j \<Longrightarrow> j_job_id j = k"
  by (rule job_table.look_key)

lemma attempt_of_id: "attempt_of db k = Some r \<Longrightarrow> ar_attempt_id r = k"
  by (rule attempt_table.look_key)

subsection \<open>What a transition may do to a row\<close>

text \<open>
  An attempt keeps its identity, and an authoritative attempt keeps everything; a job keeps
  its identity, its fence never decreases and a selected attempt stays selected.
\<close>

definition row_evolves :: "attempt_row \<Rightarrow> attempt_row \<Rightarrow> bool" where
  "row_evolves r r' \<longleftrightarrow> ar_attempt_id r' = ar_attempt_id r \<and> ar_job_id r' = ar_job_id r
     \<and> ar_fence r' = ar_fence r \<and> (ar_disposition r = Authoritative \<longrightarrow> r' = r)"

definition job_evolves :: "Job \<Rightarrow> Job \<Rightarrow> bool" where
  "job_evolves j j' \<longleftrightarrow> j_job_id j' = j_job_id j \<and> j_run_id j' = j_run_id j
     \<and> j_fence j \<le> j_fence j'
     \<and> (terminal (j_state j) \<longrightarrow> j_state j' = j_state j
          \<and> j_selected_attempt_id j' = j_selected_attempt_id j)
     \<and> (j_selected_attempt_id j \<noteq> None \<longrightarrow> j_selected_attempt_id j' = j_selected_attempt_id j)"

definition run_evolves :: "AuditRun \<Rightarrow> AuditRun \<Rightarrow> bool" where
  "run_evolves u u' \<longleftrightarrow> r_run_id u' = r_run_id u \<and> r_manifest_hash u' = r_manifest_hash u
     \<and> (r_cancel_requested u \<longrightarrow> r_cancel_requested u')
     \<and> (run_terminal (r_state u) \<longrightarrow> r_state u' = r_state u)"

definition table_evolves :: "('r \<Rightarrow> 'r \<Rightarrow> bool) \<Rightarrow> ('k \<Rightarrow> 'r option) \<Rightarrow> ('k \<Rightarrow> 'r option) \<Rightarrow> bool" where
  "table_evolves ev t t' \<longleftrightarrow> (\<forall>k r. t k = Some r \<longrightarrow> (\<exists>r'. t' k = Some r' \<and> ev r r'))"

lemma row_evolves_refl [simp]: "row_evolves r r"
  by (simp add: row_evolves_def)

lemma job_evolves_refl [simp]: "job_evolves j j"
  by (simp add: job_evolves_def)

lemma run_evolves_refl [simp]: "run_evolves u u"
  by (simp add: run_evolves_def)

lemma run_evolves_trans: "run_evolves r s \<Longrightarrow> run_evolves s t \<Longrightarrow> run_evolves r t"
  by (auto simp: run_evolves_def)

lemma row_evolves_trans: "row_evolves r s \<Longrightarrow> row_evolves s t \<Longrightarrow> row_evolves r t"
  by (auto simp: row_evolves_def)

lemma job_evolves_trans: "job_evolves r s \<Longrightarrow> job_evolves s t \<Longrightarrow> job_evolves r t"
  by (auto simp: job_evolves_def)

lemma table_evolves_refl: "(\<And>r. ev r r) \<Longrightarrow> table_evolves ev t t"
  by (auto simp: table_evolves_def)

lemma table_evolves_trans:
  assumes "table_evolves ev t t'" and "table_evolves ev t' t''"
    and "\<And>r s u. ev r s \<Longrightarrow> ev s u \<Longrightarrow> ev r u"
  shows "table_evolves ev t t''"
  using assms unfolding table_evolves_def by meson

lemma table_evolvesD:
  "table_evolves ev t t' \<Longrightarrow> t k = Some r \<Longrightarrow> \<exists>r'. t' k = Some r' \<and> ev r r'"
  by (auto simp: table_evolves_def)

lemma table_evolves_update:
  assumes "keeps_key key f"
    and "\<And>k r. lookup_row key rows k = Some r \<Longrightarrow> p r \<Longrightarrow> ev r (f r)" and "\<And>r. ev r r"
  shows "table_evolves ev (lookup_row key rows) (lookup_row key (update_where p f rows))"
  using assms by (auto simp: table_evolves_def table_simps)

lemma job_inv_evolves:
  assumes "job_inv att j" and "table_evolves row_evolves att att'"
  shows "job_inv att' j"
proof -
  have auth: "\<exists>r'. att' aid = Some r' \<and> row_evolves r r'" if "att aid = Some r" for aid r
    using assms(2) that by (rule table_evolvesD)
  show ?thesis
    using assms(1) unfolding job_inv_def row_evolves_def
    by (auto dest!: auth simp: row_evolves_def; metis)
qed

lemma row_inv_evolves:
  assumes "row_inv job r" and "table_evolves job_evolves job job'"
  shows "row_inv job' r"
proof -
  from assms(1) obtain j where j: "job (ar_job_id r) = Some j" "ar_fence r \<le> j_fence j"
    "ar_disposition r = Authoritative \<Longrightarrow> j_selected_attempt_id j = Some (ar_attempt_id r)"
    by (auto simp: row_inv_def)
  with assms(2) obtain j' where "job' (ar_job_id r) = Some j'" "job_evolves j j'"
    by (auto simp: table_evolves_def)
  with j assms(1) show ?thesis by (auto simp: row_inv_def job_evolves_def)
qed

lemma run_inv_evolves:
  assumes "run_inv job u" and "table_evolves job_evolves job job'"
    and "\<And>k. job k = None \<Longrightarrow> job' k = None"
  shows "run_inv job' u"
proof -
  have old: "\<exists>j. job k = Some j \<and> job_evolves j j'" if "job' k = Some j'" for k j'
    using that assms(3) [of k] table_evolvesD [OF assms(2), of k] by (cases "job k") auto
  have fwd: "\<exists>j'. job' k = Some j' \<and> job_evolves j j'" if "job k = Some j" for k j
    using assms(2) that by (rule table_evolvesD)
  show ?thesis
    unfolding run_inv_def
  proof (intro conjI impI allI)
    fix k j'
    assume "run_terminal (r_state u)" and "job' k = Some j'" and "j_run_id j' = r_run_id u"
    with old assms(1) show "j_state j' \<in> {DONE, FAILED}"
      and "r_state u = Run_COMPLETE \<Longrightarrow> j_state j' = DONE"
      by (fastforce simp: run_inv_def job_evolves_def terminal_def)+
  next
    assume "r_state u = Run_FAILED"
    with assms(1) obtain k j where "job k = Some j" "j_run_id j = r_run_id u" "j_state j = FAILED"
      by (auto simp: run_inv_def)
    with fwd show "\<exists>k j. job' k = Some j \<and> j_run_id j = r_run_id u \<and> j_state j = FAILED"
      by (fastforce simp: job_evolves_def)
  next
    show "r_state u = Run_CANCELLED \<Longrightarrow> r_cancel_requested u"
      using assms(1) by (simp add: run_inv_def)
  qed
qed

text \<open>
  The shape of every preservation proof: the tables evolve, and the rows that changed
  satisfy their invariant afterwards.
\<close>

lemma db_invI:
  assumes "db_inv db" and "db_keys db'"
    and rows: "table_evolves row_evolves (attempt_of db) (attempt_of db')"
    and jobs: "table_evolves job_evolves (job_of db) (job_of db')"
    and "\<And>k j. job_of db' k = Some j \<Longrightarrow> job_of db k = Some j \<or> job_inv (attempt_of db') j"
    and "\<And>k r. attempt_of db' k = Some r \<Longrightarrow>
      attempt_of db k = Some r \<or> row_inv (job_of db') r"
    and "fence_unique (attempt_of db')"
    and dom: "\<And>k. job_of db k = None \<Longrightarrow> job_of db' k = None"
    and "runs db' = runs db"
  shows "db_inv db'"
proof -
  have "run_inv (job_of db') u" if "run_of db' k = Some u" for k u
    using that assms(9) db_invD(5) [OF assms(1), of k u] run_inv_evolves [OF _ jobs dom] by simp
  then show ?thesis
    unfolding db_inv_def
    using assms db_invD(2,3) [OF assms(1)]
    by (blast intro: job_inv_evolves row_inv_evolves)
qed

lemma fence_unique_evolves:
  assumes "fence_unique att" and "table_evolves row_evolves att att'"
    and "\<And>k. att k = None \<Longrightarrow> att' k = None"
  shows "fence_unique att'"
  unfolding fence_unique_def
proof (intro allI impI)
  fix k k' r r'
  assume *: "att' k = Some r" "att' k' = Some r'" "ar_job_id r = ar_job_id r'"
    "ar_fence r = ar_fence r'"
  have "\<exists>q. att k = Some q \<and> ar_job_id q = ar_job_id r \<and> ar_fence q = ar_fence r"
    if "att' k = Some r" for k r
    using that assms(3) [of k] table_evolvesD [OF assms(2), of k]
    by (cases "att k") (auto simp: row_evolves_def)
  with * obtain q q' where "att k = Some q" "att k' = Some q'" "ar_job_id q = ar_job_id q'"
    "ar_fence q = ar_fence q'" by metis
  then show "k = k'"
    using assms(1) by (auto simp: fence_unique_def)
qed

text \<open>A database fresh from the planner: pending jobs, no attempts.\<close>

definition planned_job :: "Job \<Rightarrow> bool" where
  "planned_job j \<longleftrightarrow> j_state j = PENDING \<and> j_fence j = 0 \<and> j_attempts_started j = 0
     \<and> j_attempt_id j = None \<and> j_lease_token j = None \<and> j_worker_id j = None
     \<and> j_lease_expires_ms j = None \<and> j_selected_attempt_id j = None"

lemma db_inv_planned:
  assumes "list_all planned_job (jobs db)" and "attempts db = []"
    and "distinct (map j_job_id (jobs db))" and "distinct (map r_run_id (runs db))"
    and "list_all (\<lambda>u. r_state u = Run_PLANNED) (runs db)"
  shows "db_inv db"
  using assms
  by (auto simp: db_inv_def db_keys_def fence_unique_def job_inv_def planned_job_def leased_def
      run_inv_def run_terminal_def list_all_iff dest!: lookup_row_SomeD)

section \<open>The transitions the operations are made of\<close>

definition claim_move :: "Job \<Rightarrow> string \<Rightarrow> string \<Rightarrow> string \<Rightarrow> int \<Rightarrow> int \<Rightarrow> db \<Rightarrow> db" where
  "claim_move row aid token w e now_ms db = db\<lparr>
     jobs := update_where (\<lambda>j. j_job_id j = j_job_id row \<and> j_state j = PENDING)
       (claimed_row aid (j_fence row + 1) token w e (j_attempts_started row + 1)) (jobs db),
     attempts := attempts db @ [pending_attempt aid (j_job_id row) (j_fence row + 1) now_ms]\<rparr>"

definition keeps_identity :: "(attempt_row \<Rightarrow> attempt_row) \<Rightarrow> bool" where
  "keeps_identity f \<longleftrightarrow> (\<forall>r. ar_attempt_id (f r) = ar_attempt_id r
     \<and> ar_job_id (f r) = ar_job_id r \<and> ar_fence (f r) = ar_fence r)"

inductive work :: "db \<Rightarrow> db \<Rightarrow> bool" where
  recompute: "work db (update_run_state rid now_ms db)"
| flag: "work db (update_runs (\<lambda>r. r_run_id r = rid) (\<lambda>r. r\<lparr>r_cancel_requested := True\<rparr>) db)"
| cancel: "work db (fail_pending rid db)"
| claim: "job_of db k = Some row \<Longrightarrow> j_state row = PENDING \<Longrightarrow> attempt_of db aid = None \<Longrightarrow>
    \<not> run_cancelled db (j_run_id row) \<Longrightarrow> work db (claim_move row aid token w e now_ms db)"
| running: "job_of db k = Some row \<Longrightarrow> leased row \<Longrightarrow>
    work db (update_jobs (\<lambda>j. j_job_id j = k) (\<lambda>j. j\<lparr>j_state := RUNNING\<rparr>) db)"
| renew: "job_of db k = Some row \<Longrightarrow> leased row \<Longrightarrow>
    work db (update_jobs (\<lambda>j. j_job_id j = k) (\<lambda>j. j\<lparr>j_lease_expires_ms := Some e\<rparr>) db)"
| quarantine: "update_attempts p f db = Inr db' \<Longrightarrow>
    keeps_identity f \<Longrightarrow> (\<And>r. ar_disposition (f r) \<in> {Stale, Abandoned}) \<Longrightarrow>
    work db db'"
| commit: "job_of db k = Some row \<Longrightarrow> leased row \<Longrightarrow> j_attempt_id row = Some (a_attempt_id att) \<Longrightarrow>
    update_attempts (\<lambda>r. ar_attempt_id r = a_attempt_id att) (committed_row att now_ms) db
      = Inr db' \<Longrightarrow>
    work db (update_jobs (\<lambda>j. j_job_id j = k) (settled_row att) db')"

text \<open>The reaper's own transition is apart: it is the only one that requeues a job.\<close>

inductive micro :: "db \<Rightarrow> db \<Rightarrow> bool" where
  work: "work db db' \<Longrightarrow> micro db db'"
| reap: "job_of db k = Some row \<Longrightarrow> leased row \<Longrightarrow> st \<in> {PENDING, FAILED} \<Longrightarrow>
    (run_cancelled db (j_run_id row) \<Longrightarrow> st = FAILED) \<Longrightarrow> micro db (update_jobs (\<lambda>j. j_job_id j = k) (reaped_row st reason) db)"

inductive_cases work_from: "work db db'"

lemma keeps_key_rows [simp]:
  "keeps_key j_job_id (claimed_row a b c d e g)"
  "keeps_key j_job_id (settled_row att)"
  "keeps_key j_job_id (reaped_row st reason)"
  "keeps_key j_job_id (\<lambda>j. j\<lparr>j_state := s\<rparr>)"
  "keeps_key j_job_id (\<lambda>j. j\<lparr>j_lease_expires_ms := x\<rparr>)"
  "keeps_key j_job_id (\<lambda>j. j\<lparr>j_state := s, j_terminal_reason := y\<rparr>)"
  "keeps_key ar_attempt_id (committed_row att now)"
  "keeps_key ar_attempt_id (stale_row db att now)"
  "keeps_key ar_attempt_id (abandoned_row now)"
  by (auto simp: claimed_row_def settled_row_def reaped_row_def committed_row_def stale_row_def
      abandoned_row_def)

lemmas job_row_defs = claimed_row_def settled_row_def reaped_row_def
lemmas inv_defs = db_inv_def db_keys_def job_inv_def row_inv_def fence_unique_def


section \<open>Every transition evolves the tables and keeps the invariant\<close>

text \<open>
  A transition that only updates job rows: the attempts are the same, so the invariant is
  kept when each updated row evolves and satisfies its invariant.
\<close>

lemma update_jobs_inv:
  assumes "db_inv db" and "keeps_key j_job_id f"
    and "\<And>k j. job_of db k = Some j \<Longrightarrow> p j \<Longrightarrow> job_evolves j (f j) \<and> job_inv (attempt_of db) (f j)"
  shows "db_inv (update_jobs p f db)"
    and "table_evolves job_evolves (job_of db) (job_of (update_jobs p f db))"
proof -
  show jobs: "table_evolves job_evolves (job_of db) (job_of (update_jobs p f db))"
    unfolding update_jobs_frame by (rule table_evolves_update) (use assms in auto)
  show "db_inv (update_jobs p f db)"
  proof (rule db_invI [OF assms(1)])
    show "db_keys (update_jobs p f db)"
      using db_invD(1) [OF assms(1)] assms(2) by (simp add: db_keys_def frame_simps table_simps)
    show "table_evolves row_evolves (attempt_of db) (attempt_of (update_jobs p f db))"
      by (simp add: frame_simps table_evolves_refl)
    show "fence_unique (attempt_of (update_jobs p f db))"
      using db_invD(4) [OF assms(1)] by (simp add: frame_simps)
    show "job_of db k = Some j \<or> job_inv (attempt_of (update_jobs p f db)) j"
      if "job_of (update_jobs p f db) k = Some j" for k j
      using that assms by (auto simp: frame_simps table_simps split: if_splits)
  qed (use jobs assms(2) in \<open>simp_all add: frame_simps table_simps\<close>)
qed

lemma leased_simps [simp]:
  "leased j \<Longrightarrow> j_state j \<noteq> PENDING" "leased j \<Longrightarrow> \<not> terminal (j_state j)"
  by (auto simp: leased_def)

lemma leased_not_selected:
  "job_inv att j \<Longrightarrow> leased j \<Longrightarrow> j_selected_attempt_id j = None"
  by (auto simp: job_inv_def leased_def)

lemma pending_not_selected:
  "job_inv att j \<Longrightarrow> j_state j = PENDING \<Longrightarrow> j_selected_attempt_id j = None"
  by (auto simp: job_inv_def)

lemma fail_pending_inv:
  assumes "db_inv db"
  shows "db_inv (fail_pending rid db)"
    and "table_evolves job_evolves (job_of db) (job_of (fail_pending rid db))"
  unfolding fail_pending_def
  by (rule update_jobs_inv [OF assms];
      use db_invD(2) [OF assms] in \<open>fastforce simp: job_evolves_def job_inv_def leased_def\<close>)+

lemma update_one_job_inv:
  assumes "db_inv db" and "job_of db k = Some row" and "keeps_key j_job_id f"
    and "job_evolves row (f row)" and "job_inv (attempt_of db) (f row)"
  shows "db_inv (update_jobs (\<lambda>j. j_job_id j = k) f db)
    \<and> table_evolves job_evolves (job_of db) (job_of (update_jobs (\<lambda>j. j_job_id j = k) f db))"
proof -
  have *: "job_evolves j (f j) \<and> job_inv (attempt_of db) (f j)"
    if "job_of db k' = Some j" "j_job_id j = k" for k' j
  proof -
    from that assms(2) have "j = row" using job_of_id by fastforce
    with assms show ?thesis by simp
  qed
  show ?thesis
    using update_jobs_inv [OF assms(1,3) *] by auto
qed

lemma running_inv:
  assumes "db_inv db" and "job_of db k = Some row" and "leased row"
  shows "db_inv (update_jobs (\<lambda>j. j_job_id j = k) (\<lambda>j. j\<lparr>j_state := RUNNING\<rparr>) db)
    \<and> table_evolves job_evolves (job_of db)
      (job_of (update_jobs (\<lambda>j. j_job_id j = k) (\<lambda>j. j\<lparr>j_state := RUNNING\<rparr>) db))"
  by (rule update_one_job_inv [OF assms(1,2)])
    (use assms db_invD(2) [OF assms(1,2)] in
      \<open>fastforce simp: job_evolves_def job_inv_def leased_def\<close>)+

lemma renew_inv:
  assumes "db_inv db" and "job_of db k = Some row" and "leased row"
  shows "db_inv (update_jobs (\<lambda>j. j_job_id j = k) (\<lambda>j. j\<lparr>j_lease_expires_ms := Some e\<rparr>) db)
    \<and> table_evolves job_evolves (job_of db)
      (job_of (update_jobs (\<lambda>j. j_job_id j = k) (\<lambda>j. j\<lparr>j_lease_expires_ms := Some e\<rparr>) db))"
  by (rule update_one_job_inv [OF assms(1,2)])
    (use assms db_invD(2) [OF assms(1,2)] in
      \<open>fastforce simp: job_evolves_def job_inv_def leased_def\<close>)+

lemma reap_inv:
  assumes "db_inv db" and "job_of db k = Some row" and "leased row" and "st \<in> {PENDING, FAILED}"
  shows "db_inv (update_jobs (\<lambda>j. j_job_id j = k) (reaped_row st reason) db)
    \<and> table_evolves job_evolves (job_of db)
      (job_of (update_jobs (\<lambda>j. j_job_id j = k) (reaped_row st reason) db))"
  by (rule update_one_job_inv [OF assms(1,2)])
    (use assms db_invD(2) [OF assms(1,2)] in
      \<open>fastforce simp: job_evolves_def job_inv_def leased_def reaped_row_def\<close>)+

text \<open>A successful \<open>UPDATE evaluation_attempts\<close> that keeps identities evolves the attempts.\<close>

lemma keeps_identity_key: "keeps_identity f \<Longrightarrow> keeps_key ar_attempt_id f"
  by (auto simp: keeps_identity_def)

lemma keeps_identity_rows [simp]:
  "keeps_identity (committed_row att now)" "keeps_identity (stale_row db att now)"
  "keeps_identity (abandoned_row now)"
  by (simp_all add: keeps_identity_def committed_row_def stale_row_def abandoned_row_def)

lemma update_attempts_evolves:
  assumes "update_attempts p f db = Inr db'" and "keeps_identity f"
  shows "table_evolves row_evolves (attempt_of db) (attempt_of db')"
proof -
  have "row_evolves r (f r)" if "attempt_of db k = Some r" "p r" for k r
    using update_attempts_InrD(2) [OF assms(1), of r] that assms(2)
    by (auto simp: row_evolves_def keeps_identity_def dest: lookup_row_SomeD)
  then show ?thesis
    using table_evolves_update [OF keeps_identity_key [OF assms(2)], of "attempts db" p row_evolves]
      update_attempts_InrD(1) [OF assms(1)] by simp
qed

lemma update_attempts_keys:
  assumes "update_attempts p f db = Inr db'" and "keeps_identity f" and "db_inv db"
  shows "db_keys db'" and "fence_unique (attempt_of db')"
proof -
  have db': "db' = db\<lparr>attempts := update_where p f (attempts db)\<rparr>"
    by (rule update_attempts_InrD(1) [OF assms(1)])
  show "db_keys db'"
    using db_invD(1) [OF assms(3)] keeps_identity_key [OF assms(2)]
    by (simp add: db' db_keys_def table_simps)
  show "fence_unique (attempt_of db')"
    by (rule fence_unique_evolves [OF db_invD(4) [OF assms(3)] update_attempts_evolves [OF assms(1,2)]])
      (simp add: db' table_simps keeps_identity_key [OF assms(2)])
qed

lemma update_attempts_row:
  assumes "update_attempts p f db = Inr db'" and "keeps_identity f"
    and "attempt_of db' k = Some r'"
  obtains "attempt_of db k = Some r'"
    | r where "attempt_of db k = Some r" and "p r" and "r' = f r" and "attempt_check r'"
proof -
  have "attempt_of db' k = map_option (\<lambda>r. if p r then f r else r) (attempt_of db k)"
    using update_attempts_InrD(1) [OF assms(1)]
    by (simp add: table_simps keeps_identity_key [OF assms(2)])
  with assms(3) obtain r where r: "attempt_of db k = Some r" "r' = (if p r then f r else r)"
    by auto
  show thesis
  proof (cases "p r")
    case True
    with r update_attempts_InrD(2) [OF assms(1), of r] have "attempt_check r'"
      by (auto dest: lookup_row_SomeD)
    with r True that(2) show thesis by simp
  next
    case False
    with r that(1) show thesis by simp
  qed
qed

lemma quarantine_inv:
  assumes "db_inv db" and "update_attempts p f db = Inr db'" and "keeps_identity f"
    and "\<And>r. ar_disposition (f r) \<in> {Stale, Abandoned}"
  shows "db_inv db'"
proof (rule db_invI [OF assms(1)])
  have jobs: "jobs db' = jobs db"
    using update_attempts_InrD(1) [OF assms(2)] by simp
  show "db_keys db'" and "fence_unique (attempt_of db')"
    using update_attempts_keys [OF assms(2,3,1)] .
  show "table_evolves row_evolves (attempt_of db) (attempt_of db')"
    by (rule update_attempts_evolves [OF assms(2,3)])
  show "table_evolves job_evolves (job_of db) (job_of db')"
    by (simp add: jobs table_evolves_refl)
  show "attempt_of db k = Some r \<or> row_inv (job_of db') r" if "attempt_of db' k = Some r" for k r
    using update_attempts_row [OF assms(2,3) that]
  proof cases
    case 1
    then show ?thesis by simp
  next
    case (2 q)
    then show ?thesis
      using db_invD(3) [OF assms(1) 2(1)] assms(3) assms(4) [of q] jobs
      by (auto simp: row_inv_def keeps_identity_def)
  qed
  show "job_of db k = Some j \<or> job_inv (attempt_of db') j" if "job_of db' k = Some j" for k j
    using that by (simp add: jobs)
qed (use update_attempts_InrD(1) [OF assms(2)] in simp_all)

lemma leased_attempt:
  assumes "db_inv db" and "job_of db k = Some row" and "leased row"
  obtains aid r where "j_attempt_id row = Some aid" and "attempt_of db aid = Some r"
    and "ar_job_id r = k" and "ar_fence r = j_fence row"
  using db_invD(2) [OF assms(1,2)] assms(3) job_of_id [OF assms(2)] by (auto simp: job_inv_def)

lemma commit_inv:
  assumes inv: "db_inv db" and row: "job_of db k = Some row" "leased row"
    and cur: "j_attempt_id row = Some (a_attempt_id att)"
    and upd: "update_attempts (\<lambda>r. ar_attempt_id r = a_attempt_id att)
      (committed_row att now_ms) db = Inr db1"
  defines "db' \<equiv> update_jobs (\<lambda>j. j_job_id j = k) (settled_row att) db1"
  shows "db_inv db'" and "table_evolves job_evolves (job_of db) (job_of db')"
    and "table_evolves row_evolves (attempt_of db) (attempt_of db')"
proof -
  let ?a = "a_attempt_id att" and ?f = "committed_row att now_ms"
  have jobs: "jobs db1 = jobs db"
    using update_attempts_InrD(1) [OF upd] by simp
  obtain r where r: "attempt_of db ?a = Some r" "ar_job_id r = k" "ar_fence r = j_fence row"
    by (rule leased_attempt [OF inv row]) (use cur in auto)
  have r': "attempt_of db' ?a = Some (?f r)"
    using r(1) attempt_of_id [OF r(1)] update_attempts_InrD(1) [OF upd]
    by (simp add: db'_def frame_simps table_simps)
  have chk: "attempt_check (?f r)"
    using update_attempts_InrD(2) [OF upd] r(1) attempt_of_id [OF r(1)]
    by (auto dest: lookup_row_SomeD)
  have job': "job_of db' k' = (if k' = k then Some (settled_row att row) else job_of db k')" for k'
    using row(1) job_of_id [of db]
    by (cases "job_of db k'") (auto simp: db'_def frame_simps table_simps jobs)
  show rows: "table_evolves row_evolves (attempt_of db) (attempt_of db')"
    using update_attempts_evolves [OF upd] by (simp add: db'_def frame_simps)
  have "job_evolves row (settled_row att row)"
    using leased_not_selected [OF db_invD(2) [OF inv row(1)] row(2)] row(2)
    by (simp add: job_evolves_def settled_row_def)
  then show jobs': "table_evolves job_evolves (job_of db) (job_of db')"
    using row(1) by (auto simp: table_evolves_def job')
  have settled: "job_inv (attempt_of db') (settled_row att row)"
    using db_invD(2) [OF inv row(1)] r r' job_of_id [OF row(1)] row(2)
    by (auto simp: job_inv_def settled_row_def terminal_state_of_def leased_def committed_row_def)
  show "db_inv db'"
  proof (rule db_invI [OF inv _ rows jobs'])
    show "db_keys db'" and "fence_unique (attempt_of db')"
      using update_attempts_keys [OF upd _ inv]
      by (simp_all add: db'_def db_keys_def frame_simps table_simps)
    show "job_of db k' = Some j \<or> job_inv (attempt_of db') j" if "job_of db' k' = Some j" for k' j
      using that settled by (auto simp: job' split: if_splits)
    show "attempt_of db k' = Some q \<or> row_inv (job_of db') q" if "attempt_of db' k' = Some q" for k' q
    proof (cases "k' = ?a")
      case True
      have "q = ?f r" using that r' True by simp
      then show ?thesis
        using chk r attempt_of_id [OF r(1)] job' [of k]
        by (simp add: row_inv_def settled_row_def committed_row_def)
    next
      case False
      then show ?thesis
        using that update_attempts_InrD(1) [OF upd] attempt_of_id [of db]
        by (cases "attempt_of db k'") (auto simp: db'_def frame_simps table_simps)
    qed
    show "job_of db' k' = None" if "job_of db k' = None" for k'
      using that row(1) by (auto simp: job')
    show "runs db' = runs db"
      using update_attempts_InrD(1) [OF upd] by (simp add: db'_def frame_simps)
  qed
qed

lemma claim_step_inv:
  fixes token w e now_ms
  assumes inv: "db_inv db" and row: "job_of db k = Some row" "j_state row = PENDING"
    and fresh: "attempt_of db aid = None"
  defines "db' \<equiv> claim_move row aid token w e now_ms db"
  shows "db_inv db'" and "table_evolves job_evolves (job_of db) (job_of db')"
    and "table_evolves row_evolves (attempt_of db) (attempt_of db')"
proof -
  note k = job_of_id [OF row(1)]
  let ?j = "claimed_row aid (j_fence row + 1) token w e (j_attempts_started row + 1) row"
  let ?r = "pending_attempt aid k (j_fence row + 1) now_ms"
  have ji: "job_inv (attempt_of db) row" by (rule db_invD(2) [OF inv row(1)])
  have job': "job_of db' k' = (if k' = k then Some ?j else job_of db k')" for k'
    using row job_of_id [of db]
    by (cases "job_of db k'") (auto simp: k db'_def claim_move_def table_simps)
  have att': "attempt_of db' k' = (if k' = aid then Some ?r else attempt_of db k')" for k'
    using fresh by (auto simp: k db'_def claim_move_def table_simps pending_attempt_def split: option.splits)
  have old: "ar_fence q \<le> j_fence row" if "attempt_of db k' = Some q" "ar_job_id q = k" for k' q
    using db_invD(3) [OF inv that(1)] that(2) row(1) by (auto simp: row_inv_def)
  show rows: "table_evolves row_evolves (attempt_of db) (attempt_of db')"
    using fresh by (auto simp: table_evolves_def att')
  show jobs': "table_evolves job_evolves (job_of db) (job_of db')"
    using row pending_not_selected [OF ji row(2)]
    by (auto simp: table_evolves_def job' job_evolves_def claimed_row_def)
  have "0 \<le> j_fence row" using ji by (simp add: job_inv_def)
  have claimed: "job_inv (attempt_of db') ?j"
    using ji row(2) k pending_not_selected [OF ji row(2)]
    by (simp add: job_inv_def att' claimed_row_def leased_def pending_attempt_def)
  show "db_inv db'"
  proof (rule db_invI [OF inv _ rows jobs'])
    show "db_keys db'"
      using db_invD(1) [OF inv] fresh
      by (auto simp: db'_def claim_move_def db_keys_def table_simps pending_attempt_def lookup_row_None_iff)
    show "job_of db k' = Some j \<or> job_inv (attempt_of db') j" if "job_of db' k' = Some j" for k' j
      using that claimed by (auto simp: job' split: if_splits)
    show "attempt_of db k' = Some q \<or> row_inv (job_of db') q" if "attempt_of db' k' = Some q" for k' q
      using that \<open>0 \<le> j_fence row\<close>
      by (auto simp: att' job' row_inv_def pending_attempt_def claimed_row_def attempt_check_def
          json_valid_resources_def split: if_splits)
    show "fence_unique (attempt_of db')"
      using db_invD(4) [OF inv] old
      by (fastforce simp: fence_unique_def att' pending_attempt_def split: if_splits)
    show "job_of db' k' = None" if "job_of db k' = None" for k'
      using that row(1) by (auto simp: job')
  qed (simp add: db'_def claim_move_def)
qed

subsection \<open>Runs\<close>

lemma update_runs_inv:
  assumes "db_inv db" and "keeps_key r_run_id f"
    and "\<And>k u. run_of db k = Some u \<Longrightarrow> p u \<Longrightarrow> run_evolves u (f u) \<and> run_inv (job_of db) (f u)"
  shows "db_inv (update_runs p f db)"
    and "table_evolves run_evolves (run_of db) (run_of (update_runs p f db))"
proof -
  show "table_evolves run_evolves (run_of db) (run_of (update_runs p f db))"
    unfolding update_runs_frame by (rule table_evolves_update) (use assms in auto)
  have "db_keys (update_runs p f db)"
    using db_invD(1) [OF assms(1)] assms(2) by (simp add: db_keys_def frame_simps table_simps)
  moreover have "run_inv (job_of db) u" if "run_of (update_runs p f db) k = Some u" for k u
    using that assms db_invD(5) [OF assms(1), of k] by (auto simp: frame_simps table_simps split: if_splits)
  ultimately show "db_inv (update_runs p f db)"
    using assms(1) by (simp add: db_inv_def frame_simps)
qed

lemma update_one_run_inv:
  assumes "db_inv db" and "run_of db rid = Some u" and "keeps_key r_run_id f"
    and "run_evolves u (f u)" and "run_inv (job_of db) (f u)"
  shows "db_inv (update_runs (\<lambda>r. r_run_id r = rid) f db)
    \<and> table_evolves run_evolves (run_of db) (run_of (update_runs (\<lambda>r. r_run_id r = rid) f db))"
proof -
  have *: "run_evolves v (f v) \<and> run_inv (job_of db) (f v)"
    if "run_of db k = Some v" "r_run_id v = rid" for k v
  proof -
    from that assms(2) have "v = u" using run_table.look_key by fastforce
    with assms show ?thesis by simp
  qed
  show ?thesis
    using update_runs_inv [OF assms(1,3) *] by auto
qed

lemma run_jobs_mem:
  assumes "db_inv db"
  shows "j \<in> set (run_jobs db rid) \<longleftrightarrow> job_of db (j_job_id j) = Some j \<and> j_run_id j = rid"
  using db_invD(1) [OF assms]
  by (auto simp: run_jobs_def db_keys_def lookup_row_mem dest: lookup_row_SomeD)

lemma update_run_state_inv:
  assumes inv: "db_inv db"
  shows "db_inv (update_run_state rid now_ms db)
    \<and> table_evolves run_evolves (run_of db) (run_of (update_run_state rid now_ms db))"
proof (cases "run_of db rid")
  case None
  then show ?thesis
    using inv by (simp add: update_run_state_def table_evolves_refl)
next
  case (Some u)
  note run_id = run_table.look_key [OF Some]
  let ?p = "\<lambda>r. r_run_id r = rid"
  show ?thesis
  proof (cases "run_terminal (r_state u) \<or> run_jobs db rid = []")
    case True
    then show ?thesis
      using inv Some by (auto simp: update_run_state_def run_terminal_def table_evolves_refl)
  next
    case False
    let ?active = "filter (\<lambda>j. j_state j \<notin> {DONE, FAILED}) (run_jobs db rid)"
    show ?thesis
    proof (cases "?active = []")
      case active: False
      have "db_inv (update_runs ?p (\<lambda>r. r\<lparr>r_state := Run_RUNNING\<rparr>) db)
        \<and> table_evolves run_evolves (run_of db)
            (run_of (update_runs ?p (\<lambda>r. r\<lparr>r_state := Run_RUNNING\<rparr>) db))"
        by (rule update_one_run_inv [OF inv Some])
          (use False in \<open>auto simp: run_evolves_def run_inv_def run_terminal_def\<close>)
      then show ?thesis
        using inv Some False active
        by (auto simp: update_run_state_def run_terminal_def table_evolves_refl Let_def)
    next
      case active: True
      let ?fail = "filter (\<lambda>j. j_state j = FAILED) (run_jobs db rid)"
      define st where "st = (if r_cancel_requested u then Run_CANCELLED
        else if ?fail \<noteq> [] then Run_FAILED else Run_COMPLETE)"
      let ?f = "\<lambda>r. r\<lparr>r_state := st, r_finished_at := Some (instant_of_ms now_ms)\<rparr>"
      have eq: "update_run_state rid now_ms db = update_runs ?p ?f db"
        using Some False active by (auto simp: update_run_state_def run_terminal_def st_def Let_def)
      have "run_inv (job_of db) (?f u)"
        unfolding run_inv_def
      proof (intro conjI impI allI)
        fix k j
        assume "job_of db k = Some j" and "j_run_id j = r_run_id (?f u)"
        then have j: "j \<in> set (run_jobs db rid)"
          using run_id job_of_id by (auto simp: run_jobs_mem [OF inv])
        then show "j_state j \<in> {DONE, FAILED}"
          using active by (auto simp: filter_empty_conv)
        then show "r_state (?f u) = Run_COMPLETE \<Longrightarrow> j_state j = DONE"
          using j by (auto simp: st_def filter_empty_conv split: if_splits)
      next
        assume "r_state (?f u) = Run_FAILED"
        then have "?fail \<noteq> []" by (auto simp: st_def split: if_splits)
        then obtain j where "j \<in> set (run_jobs db rid)" "j_state j = FAILED"
          by (auto simp: filter_empty_conv)
        then show "\<exists>k j. job_of db k = Some j \<and> j_run_id j = r_run_id (?f u) \<and> j_state j = FAILED"
          using run_id by (auto simp: run_jobs_mem [OF inv])
      qed (auto simp: st_def split: if_splits)
      moreover have "run_evolves u (?f u)"
        using False by (simp add: run_evolves_def)
      ultimately show ?thesis
        unfolding eq using keeps_keyI by (intro update_one_run_inv [OF inv Some]) auto
    qed
  qed
qed

lemma flag_inv:
  fixes rid
  assumes "db_inv db"
  defines "db' \<equiv> update_runs (\<lambda>r. r_run_id r = rid) (\<lambda>r. r\<lparr>r_cancel_requested := True\<rparr>) db"
  shows "db_inv db' \<and> table_evolves run_evolves (run_of db) (run_of db')"
  unfolding db'_def
  by (intro conjI update_runs_inv [OF assms(1)])
    (use db_invD(5) [OF assms(1)] in \<open>auto simp: run_evolves_def run_inv_def\<close>)

subsection \<open>All transitions\<close>

definition db_evolves :: "db \<Rightarrow> db \<Rightarrow> bool" where
  "db_evolves db db' \<longleftrightarrow> table_evolves job_evolves (job_of db) (job_of db')
     \<and> table_evolves row_evolves (attempt_of db) (attempt_of db')
     \<and> table_evolves run_evolves (run_of db) (run_of db')"

lemma db_evolves_refl [simp]: "db_evolves db db"
  by (simp add: db_evolves_def table_evolves_refl)

lemma db_evolves_trans: "db_evolves a b \<Longrightarrow> db_evolves b c \<Longrightarrow> db_evolves a c"
  unfolding db_evolves_def
  by (meson table_evolves_trans job_evolves_trans row_evolves_trans run_evolves_trans)

lemma db_evolvesD:
  assumes "db_evolves db db'"
  shows "job_of db k = Some j \<Longrightarrow> \<exists>j'. job_of db' k = Some j' \<and> job_evolves j j'"
    and "attempt_of db a = Some r \<Longrightarrow> \<exists>r'. attempt_of db' a = Some r' \<and> row_evolves r r'"
    and "run_of db rid = Some u \<Longrightarrow> \<exists>u'. run_of db' rid = Some u' \<and> run_evolves u u'"
  using assms by (auto simp: db_evolves_def dest: table_evolvesD)

lemma work_preserves:
  assumes "work db db'" and inv: "db_inv db"
  shows "db_inv db' \<and> db_evolves db db'"
  using assms(1)
proof cases
  case (recompute rid now_ms)
  then show ?thesis
    using update_run_state_inv [OF inv, of rid now_ms]
    by (simp add: db_evolves_def frame_simps table_evolves_refl)
next
  case (flag rid)
  then show ?thesis
    using flag_inv [OF inv, of rid] by (simp add: db_evolves_def frame_simps table_evolves_refl)
next
  case (cancel rid)
  then show ?thesis
    using fail_pending_inv [OF inv, of rid]
    by (simp add: db_evolves_def fail_pending_def frame_simps table_evolves_refl)
next
  case (claim k row aid token w e now_ms)
  then show ?thesis
    using claim_step_inv [OF inv claim(2-4), of token w e now_ms]
    by (simp add: db_evolves_def claim_move_def table_evolves_refl)
next
  case (running k row)
  then show ?thesis
    using running_inv [OF inv] by (auto simp: db_evolves_def frame_simps table_evolves_refl)
next
  case (renew k row e)
  then show ?thesis
    using renew_inv [OF inv] by (auto simp: db_evolves_def frame_simps table_evolves_refl)
next
  case (quarantine p f)
  then have "jobs db' = jobs db" "runs db' = runs db"
    using update_attempts_InrD(1) by fastforce+
  with quarantine show ?thesis
    using quarantine_inv [OF inv] update_attempts_evolves
    by (auto simp: db_evolves_def table_evolves_refl)
next
  case (commit k row att now_ms db1)
  then show ?thesis
    using commit_inv [OF inv commit(2-5)] update_attempts_InrD(1) [OF commit(5)]
    by (simp add: db_evolves_def frame_simps table_evolves_refl)
qed

lemma micro_preserves:
  assumes "micro db db'" and inv: "db_inv db"
  shows "db_inv db' \<and> db_evolves db db'"
  using assms(1)
proof cases
  case work
  then show ?thesis using inv by (rule work_preserves)
next
  case (reap k row st reason)
  then show ?thesis
    using reap_inv [OF inv] by (auto simp: db_evolves_def frame_simps table_evolves_refl)
qed

interpretation work_system: invariant_system work db_inv
  by unfold_locales (use work_preserves in blast)

interpretation micro_system: invariant_system micro db_inv
  by unfold_locales (use micro_preserves in blast)

section \<open>The operations are sequences of transitions\<close>

lemma works_micros: "work\<^sup>*\<^sup>* db db' \<Longrightarrow> micro\<^sup>*\<^sup>* db db'"
  by (induction rule: rtranclp_induct) (auto intro: micro.work rtranclp.rtrancl_into_rtrancl)

lemma fold_update_run_state_work:
  "work\<^sup>*\<^sup>* db (fold (\<lambda>rid. update_run_state rid now_ms) rids db)"
proof (induction rids arbitrary: db)
  case (Cons rid rids)
  show ?case
    using converse_rtranclp_into_rtranclp [OF work.recompute Cons.IH] by simp
qed simp

lemma db_inv_row: "db_inv db \<Longrightarrow> j \<in> set (jobs db) \<Longrightarrow> job_of db (j_job_id j) = Some j"
  by (blast intro: db_keysD(1) db_invD(1))

lemma claim_loop_work:
  "claim_loop w run now_ms lease fresh n db = Inr (x, db') \<Longrightarrow> db_inv db \<Longrightarrow> work\<^sup>*\<^sup>* db db'"
proof (induction w run now_ms lease fresh n db rule: claim_loop.induct)
  case (1 w run now_ms lease fresh n db)
  show ?case
  proof (cases "next_pending db run")
    case None
    with "1.prems" show ?thesis by (simp add: claim_loop.simps [of w run now_ms lease fresh n db])
  next
    case (Some row)
    note row = next_pending_SomeD(1,2) [OF Some] and
      jrow = db_inv_row [OF "1.prems"(2) next_pending_SomeD(1) [OF Some]]
    let ?hit = "\<lambda>j. j_job_id j = j_job_id row \<and> j_state j = PENDING"
    have hit: "filter ?hit (jobs db) \<noteq> []"
      using row by (auto simp: filter_empty_conv)
    show ?thesis
    proof (cases "run_cancelled db (j_run_id row)")
      case True
      let ?db = "update_run_state (j_run_id row) now_ms (fail_pending (j_run_id row) db)"
      have "work\<^sup>*\<^sup>* db ?db"
        by (meson converse_rtranclp_into_rtranclp work.cancel work.recompute r_into_rtranclp)
      moreover from this have "db_inv ?db"
        using "1.prems"(2) by (rule work_system.moves_inv)
      ultimately show ?thesis
        using "1.IH"(1) [OF Some True] "1.prems"(1) True Some
        by (auto simp: claim_loop.simps [of w run now_ms lease fresh n db] intro: rtranclp_trans)
    next
      case False
      let ?row = "claimed_row (fst (fresh n)) (j_fence row + 1) (snd (fresh n)) w (now_ms + lease)
        (j_attempts_started row + 1)"
      from "1.prems"(1) False Some hit obtain db1 where
        ins: "insert_attempt (pending_attempt (fst (fresh n)) (j_job_id row) (j_fence row + 1) now_ms)
          (update_jobs ?hit ?row db) = Inr db1" and
        db': "db' = update_run_state (j_run_id row) now_ms db1"
        by (auto simp: claim_loop.simps [of w run now_ms lease fresh n db] Let_def
            bind_res_Inr_iff)
      have "db1 = claim_move row (fst (fresh n)) (snd (fresh n)) w (now_ms + lease) now_ms db"
        using insert_attempt_InrD(1) [OF ins] by (simp add: claim_move_def update_jobs_def)
      moreover have "attempt_of db (fst (fresh n)) = None"
        using insert_attempt_InrD(3) [OF ins] by (simp add: frame_simps pending_attempt_def)
      ultimately have "work db db1"
        using work.claim [OF jrow row(2)] False by simp
      then show ?thesis
        unfolding db' by (meson converse_rtranclp_into_rtranclp work.recompute r_into_rtranclp)
    qed
  qed
qed

lemma mark_running_work:
  "mark_running_body job now_ms db = Inr (x, db') \<Longrightarrow> work\<^sup>*\<^sup>* db db'"
  by (auto simp: mark_running_body_def Let_def leased_def split: option.splits if_splits
      intro!: r_into_rtranclp work.running)

lemma heartbeat_work:
  "heartbeat_body job now_ms ext db = Inr (x, db') \<Longrightarrow> work\<^sup>*\<^sup>* db db'"
  by (auto simp: heartbeat_body_def Let_def leased_def split: option.splits if_splits
      intro!: r_into_rtranclp work.renew)

lemma stale_result_work:
  assumes "stale_result db att now_ms = Inr (x, db')"
  shows "work\<^sup>*\<^sup>* db db'"
proof -
  from assms obtain p where "update_attempts p (stale_row db att now_ms) db = Inr db'"
    by (auto simp: stale_result_def mark_attempt_stale_def bind_res_Inr_iff)
  then show ?thesis
    by (intro r_into_rtranclp work.quarantine) (auto simp: stale_row_def keeps_identity_def)
qed

lemma complete_commit_work:
  assumes "complete_commit job att now_ms db = Inr (x, db')"
    and "job_of db (j_job_id job) = Some row" and "leased row"
    and "j_attempt_id row = Some (a_attempt_id att)"
  shows "work\<^sup>*\<^sup>* db db'"
proof -
  from assms(1) obtain db1 where
    upd: "update_attempts (\<lambda>r. ar_attempt_id r = a_attempt_id att)
      (committed_row att now_ms) db = Inr db1" and
    db': "db' = update_run_state (j_run_id job) now_ms
      (update_jobs (\<lambda>j. j_job_id j = j_job_id job) (settled_row att) db1)"
    by (auto simp: complete_commit_def bind_res_Inr_iff split: if_splits)
  show ?thesis
    unfolding db'
    using work.commit [OF assms(2-4) upd] work.recompute
    by (meson converse_rtranclp_into_rtranclp r_into_rtranclp)
qed

lemma complete_work:
  assumes "complete_body job att now_ms db = Inr (x, db')" and "db_inv db"
  shows "work\<^sup>*\<^sup>* db db'"
proof (cases "job_of db (j_job_id job)")
  case None
  with assms(1) show ?thesis by (simp add: complete_body_def)
next
  case (Some row)
  note ji = db_invD(2) [OF assms(2) Some]
  have leased: "leased row" if "\<not> lease_expired row now_ms"
    using that ji by (auto simp: job_inv_def lease_expired_def split: option.splits)
  show ?thesis
    using assms(1) Some leased
    by (auto simp: complete_body_def complete_terminal_def Let_def split: if_splits option.splits
        intro: stale_result_work complete_commit_work)
qed

text \<open>
  One round of the reaper: the row it works on was read before the loop, so its job is still
  leased unless an earlier round worked on the same job, which distinct identifiers exclude.
\<close>

lemma abandon_attempt_work:
  assumes "abandon_attempt aid now_ms db = Inr db'"
  shows "work\<^sup>*\<^sup>* db db'" and "jobs db' = jobs db" and "runs db' = runs db"
    and "manifests db' = manifests db"
proof -
  have "db' = db \<or> (\<exists>p. update_attempts p (abandoned_row now_ms) db = Inr db')"
    using assms by (auto simp: abandon_attempt_def split: option.splits if_splits)
  then show "work\<^sup>*\<^sup>* db db'" and "jobs db' = jobs db" and "runs db' = runs db"
    and "manifests db' = manifests db"
    by (elim disjE exE; auto simp: abandoned_row_def dest: update_attempts_InrD(1)
        intro!: r_into_rtranclp work.quarantine [where f = "abandoned_row now_ms"])+
qed

lemma reap_target_state:
  "reap_target c n m = (st, reason) \<Longrightarrow> st \<in> {PENDING, FAILED} \<and> (c \<longrightarrow> st = FAILED)"
  by (auto simp: reap_target_def split: if_splits)

lemma reap_loop_micro:
  assumes "reap_loop m now_ms rows cache db = Inr db'" and "db_inv db"
    and "distinct (map j_job_id rows)"
    and "\<And>row. row \<in> set rows \<Longrightarrow> job_of db (j_job_id row) = Some row \<and> leased row"
  shows "micro\<^sup>*\<^sup>* db db'"
  using assms
proof (induction rows arbitrary: cache db)
  case Nil
  then show ?case by simp
next
  case (Cons row rows)
  from Cons.prems(1) obtain db1 where
    ab: "abandon_attempt (j_attempt_id row) now_ms db = Inr db1"
    by (auto simp: bind_res_Inr_iff)
  obtain limit cache' where lim: "effective_limit m db1 (j_run_id row) cache = (limit, cache')"
    by fastforce
  from Cons.prems(1) ab lim obtain st reason where
    tgt: "reap_target (run_cancelled db1 (j_run_id row)) (j_attempts_started row) limit
      = (st, reason)" and
    loop: "reap_loop m now_ms rows cache'
      (update_jobs (\<lambda>j. j_job_id j = j_job_id row) (reaped_row st reason) db1) = Inr db'"
    by (cases "reap_target (run_cancelled db1 (j_run_id row)) (j_attempts_started row) limit")
      (auto simp: Let_def)
  let ?db2 = "update_jobs (\<lambda>j. j_job_id j = j_job_id row) (reaped_row st reason) db1"
  note ab1 = abandon_attempt_work [OF ab]
  have "micro db1 ?db2"
    using Cons.prems(4) [of row] ab1(2) reap_target_state [OF tgt] by (auto intro: micro.reap)
  with works_micros [OF ab1(1)] have m2: "micro\<^sup>*\<^sup>* db ?db2" by simp
  then have inv2: "db_inv ?db2" using Cons.prems(2) by (rule micro_system.moves_inv)
  have "micro\<^sup>*\<^sup>* ?db2 db'"
  proof (rule Cons.IH [OF loop inv2])
    show "distinct (map j_job_id rows)" using Cons.prems(3) by simp
    show "job_of ?db2 (j_job_id q) = Some q \<and> leased q" if "q \<in> set rows" for q
    proof -
      have "j_job_id q \<noteq> j_job_id row"
        using that Cons.prems(3) by (metis distinct.simps(2) image_eqI list.simps(9) set_map)
      then show ?thesis
        using that Cons.prems(4) [of q] ab1(2) by (simp add: frame_simps table_simps)
    qed
  qed
  with m2 show ?case by (rule rtranclp_trans)
qed

lemma expired_jobs_mem:
  assumes "db_inv db"
  shows "distinct (map j_job_id (expired_jobs db now_ms))"
    and "row \<in> set (expired_jobs db now_ms) \<Longrightarrow>
      job_of db (j_job_id row) = Some row \<and> leased row"
proof -
  let ?P = "\<lambda>j. j_state j \<in> {CLAIMED, RUNNING}
    \<and> (case j_lease_expires_ms j of None \<Rightarrow> False | Some t \<Rightarrow> t \<le> now_ms)"
  have "distinct (map j_job_id (filter ?P (jobs db)))"
    using db_invD(1) [OF assms] by (auto simp: db_keys_def distinct_map_filter)
  then show "distinct (map j_job_id (expired_jobs db now_ms))"
    by (simp add: expired_jobs_def distinct_map)
  show "job_of db (j_job_id row) = Some row \<and> leased row"
    if "row \<in> set (expired_jobs db now_ms)"
    using that db_inv_row [OF assms] by (auto simp: expired_jobs_def leased_def)
qed

lemma reap_micro:
  assumes "reap_body order now_ms m db = Inr (ids, db')" and "db_inv db"
  shows "micro\<^sup>*\<^sup>* db db'"
proof -
  from assms(1) obtain db1 where
    loop: "reap_loop m now_ms (expired_jobs db now_ms) [] db = Inr db1" and
    db': "db' = fold (\<lambda>rid. update_run_state rid now_ms)
      (order (remdups (map j_run_id (expired_jobs db now_ms)))) db1"
    by (auto simp: reap_body_def Let_def bind_res_Inr_iff)
  have "micro\<^sup>*\<^sup>* db db1"
    by (rule reap_loop_micro [OF loop assms(2)]) (rule expired_jobs_mem [OF assms(2)])+
  then show ?thesis
    unfolding db' using works_micros [OF fold_update_run_state_work] by (rule rtranclp_trans)
qed

lemma request_cancel_work:
  assumes "request_cancel_body rid now_ms db = Inr (x, db')"
  shows "work\<^sup>*\<^sup>* db db'"
proof -
  let ?db1 = "update_runs (\<lambda>r. r_run_id r = rid) (\<lambda>r. r\<lparr>r_cancel_requested := True\<rparr>) db"
  have "work db ?db1" by (rule work.flag)
  moreover have "work ?db1 (fail_pending rid ?db1)" by (rule work.cancel)
  moreover have "db' = update_run_state rid now_ms (fail_pending rid ?db1)"
    using assms by (simp add: request_cancel_body_def)
  ultimately show ?thesis
    by (metis converse_rtranclp_into_rtranclp work.recompute r_into_rtranclp)
qed

lemma in_transaction_cases:
  obtains e where "in_transaction body db = (Inl e, db)"
    | v db' where "body db = Inr (v, db')" and "in_transaction body db = (Inr v, db')"
  by (cases "body db") (auto simp: in_transaction_def)

lemma in_transaction_works:
  assumes "\<And>v db'. body db = Inr (v, db') \<Longrightarrow> R\<^sup>*\<^sup>* db db'"
  shows "R\<^sup>*\<^sup>* db (snd (in_transaction body db))"
  by (rule in_transaction_cases [of body db]) (use assms in auto)

fun is_reap :: "queue_op \<Rightarrow> bool" where
  "is_reap (Op_reap _ _ _) = True"
| "is_reap _ = False"

lemma run_op_work:
  assumes "db_inv db" and "\<not> is_reap p"
  shows "work\<^sup>*\<^sup>* db (run_op p db)"
  using assms
  by (cases p)
    (auto simp: claim_def mark_running_def heartbeat_def complete_def request_cancel_def
      intro!: in_transaction_works
      dest: claim_loop_work mark_running_work heartbeat_work complete_work request_cancel_work)

lemma run_op_micro:
  assumes "db_inv db"
  shows "micro\<^sup>*\<^sup>* db (run_op p db)"
proof (cases "is_reap p")
  case True
  then show ?thesis
    using assms by (cases p) (auto simp: reap_expired_def intro!: in_transaction_works dest: reap_micro)
qed (use assms run_op_work works_micros in blast)

inductive_simps queue_step_iff: "queue_step db db'"

lemma queue_steps_rtranclp: "queue_steps db db' \<longleftrightarrow> queue_step\<^sup>*\<^sup>* db db'"
proof
  show "queue_steps db db' \<Longrightarrow> queue_step\<^sup>*\<^sup>* db db'"
    by (induction rule: queue_steps.induct) auto
  show "queue_step\<^sup>*\<^sup>* db db' \<Longrightarrow> queue_steps db db'"
    by (induction rule: rtranclp_induct) (auto intro: queue_steps.intros)
qed

interpretation queue_system: simulated_system micro db_inv queue_step
  by unfold_locales (auto simp: queue_step_iff intro: run_op_micro)

lemma queue_steps_preserve:
  assumes "queue_steps db db'" and "db_inv db"
  shows "db_inv db'" and "db_evolves db db'"
proof -
  have big: "queue_step\<^sup>*\<^sup>* db db'"
    using assms(1) by (simp add: queue_steps_rtranclp)
  show "db_inv db'"
    by (rule queue_system.bigs_inv [OF big assms(2)])
  show "db_evolves db db'"
    by (rule micro_system.moves_rel [OF queue_system.bigs_moves [OF big assms(2)] assms(2)])
      (use micro_preserves in \<open>auto intro: db_evolves_trans\<close>)
qed

lemma run_op_preserve:
  assumes "db_inv db"
  shows "db_inv (run_op p db)" and "db_evolves db (run_op p db)"
  using assms queue_steps_preserve [OF queue_steps.step [OF queue_steps.start queue_step.op]] by blast+

end
