(* ===== verification/Queue_Properties.thy ===== *)
theory Queue_Properties
  imports Queue_Invariant
begin

text \<open>
  What the fenced queue guarantees, over executions of any length in which every operation
  may come with any arguments: authority, fencing, retries, leases, cancellation, and the
  lifecycle of a job as a refinement of a five-rule abstract machine.
\<close>

section \<open>Auxiliary facts\<close>

lemma db_inv_authority_unique:
  assumes "db_inv db"
  shows "authority_unique (attempts db)"
proof -
  let ?auth = "filter (\<lambda>r. ar_disposition r = Authoritative) (attempts db)"
  have sel: "\<exists>j. job_of db (ar_job_id r) = Some j \<and> j_selected_attempt_id j = Some (ar_attempt_id r)"
    if "r \<in> set ?auth" for r
    using that db_invD(3) [OF assms] db_keysD(2) [OF db_invD(1) [OF assms], of r]
    by (auto simp: row_inv_def)
  have "inj_on ar_job_id (set ?auth)"
  proof (rule inj_onI)
    fix r q
    assume *: "r \<in> set ?auth" "q \<in> set ?auth" "ar_job_id r = ar_job_id q"
    from sel [OF *(1)] sel [OF *(2)] *(3) have "ar_attempt_id r = ar_attempt_id q" by auto
    with * show "r = q"
      using db_keysD(2) [OF db_invD(1) [OF assms]] by (metis filter_is_subset option.inject subsetD)
  qed
  moreover have "distinct ?auth"
    using db_invD(1) [OF assms] by (auto simp: db_keys_def distinct_map)
  ultimately show ?thesis by (simp add: authority_unique_def distinct_map)
qed

lemma authority_unique_no_more:
  assumes "authority_unique rows" and "\<And>r. ar_disposition (f r) \<noteq> Authoritative"
  shows "authority_unique (update_where p f rows)"
proof -
  have "map ar_job_id (filter (\<lambda>r. ar_disposition r = Authoritative) (update_where p f rows))
    = map ar_job_id (filter (\<lambda>r. ar_disposition r = Authoritative \<and> \<not> p r) rows)"
    using assms(2) by (induction rows) auto
  moreover have "distinct (map ar_job_id
      (filter (\<lambda>r. ar_disposition r = Authoritative \<and> \<not> p r) rows))"
    using assms(1) distinct_map_filter [of ar_job_id _ "\<lambda>r. \<not> p r"]
    by (force simp: authority_unique_def)
  ultimately show ?thesis by (simp add: authority_unique_def)
qed

definition planned_db :: "db \<Rightarrow> bool" where
  "planned_db db \<longleftrightarrow> list_all planned_job (jobs db) \<and> attempts db = []
     \<and> distinct (map j_job_id (jobs db)) \<and> distinct (map r_run_id (runs db))
     \<and> list_all (\<lambda>u. r_state u = Run_PLANNED) (runs db)"

lemma planned_db_inv: "planned_db db \<Longrightarrow> db_inv db"
  by (auto simp: planned_db_def intro: db_inv_planned)

text \<open>A small audit used by the witnesses: one run with two planned jobs.\<close>

definition ex_job :: "string \<Rightarrow> Job" where
  "ex_job k = \<lparr>j_job_id = k, j_run_id = ''run'', j_task_key = ''t'', j_case_id = ''c'',
     j_verifier_key = ''v'', j_repetition = 0, j_state = PENDING, j_fence = 0,
     j_attempt_id = None, j_lease_token = None, j_worker_id = None, j_lease_expires_ms = None,
     j_attempts_started = 0, j_selected_attempt_id = None, j_terminal_reason = None\<rparr>"

definition ex_run :: AuditRun where
  "ex_run = \<lparr>r_run_id = ''run'', r_manifest_hash = ''m'', r_state = Run_PLANNED,
     r_cancel_requested = False, r_created_at = 0, r_finished_at = None,
     r_diagnostic_code = None\<rparr>"

definition ex_db :: db where
  "ex_db = \<lparr>jobs = [ex_job ''b'', ex_job ''a''], attempts = [], runs = [ex_run],
     manifests = [\<lparr>mr_manifest_hash = ''m'', mr_max_attempts_per_job = 2\<rparr>],
     artifact_digests = []\<rparr>"

definition ex_fresh :: "nat \<Rightarrow> string \<times> string" where
  "ex_fresh n = (''attempt'', ''token'')"

definition ex_resources :: ResourceUsage where
  "ex_resources = \<lparr>ru_duration = Some (PFin 1), ru_allocated_cpu = None, ru_cpu_seconds = None,
     ru_peak_memory = None, ru_model_usage = None, ru_estimated_cost = None,
     ru_pricing_version = None, ru_bytes_written = None\<rparr>"

definition ex_attempt :: EvaluationAttempt where
  "ex_attempt = \<lparr>a_attempt_id = ''attempt'', a_job_id = ''a'', a_fence = 1,
     a_outcome = Some Accept, a_evaluation_validity = Valid, a_error_code = None,
     a_disposition = Authoritative, a_started_at = 0, a_finished_at = Some 7,
     a_exit_code = Some 0, a_stdout_hash = None, a_stderr_hash = None, a_report_digest = None,
     a_test_collection = [''t1''], a_tests_passed = Some 1, a_tests_failed = Some 0,
     a_resources = ex_resources, a_artifact_digests = [], a_capture_truncated = False\<rparr>"

definition ex_claimed :: db where
  "ex_claimed = snd (claim ex_db ''w'' 100 None 50 ex_fresh)"

definition ex_handle :: Job where
  "ex_handle = claimed_job ''attempt'' 1 ''token'' ''w'' 150 1 (ex_job ''a'')"

definition ex_done :: db where
  "ex_done = snd (complete ex_claimed ex_handle ex_attempt 120)"

lemma ex_planned: "planned_db ex_db"
  by (simp add: planned_db_def planned_job_def ex_db_def ex_job_def ex_run_def)

lemma ex_claim: "fst (claim ex_db ''w'' 100 None 50 ex_fresh) = Inr (Some ex_handle)"
  by code_simp

lemma ex_complete: "fst (complete ex_claimed ex_handle ex_attempt 120) = Inr Committed"
  by code_simp

lemma ex_claimed_steps: "queue_steps ex_db ex_claimed"
  using queue_steps.step [OF queue_steps.start queue_step.op
      [of ex_db "Op_claim ''w'' 100 None 50 ex_fresh"]]
  by (simp add: ex_claimed_def)

lemma ex_done_step: "queue_steps ex_claimed ex_done"
  using queue_steps.step [OF queue_steps.start queue_step.op
      [of ex_claimed "Op_complete ex_handle ex_attempt 120"]]
  by (simp add: ex_done_def)

lemma ex_claimed_inv: "db_inv ex_claimed"
  by (rule queue_steps_preserve(1) [OF ex_claimed_steps planned_db_inv [OF ex_planned]])

lemma ex_done_inv: "db_inv ex_done"
  by (rule queue_steps_preserve(1) [OF ex_done_step ex_claimed_inv])

section \<open>Authority\<close>

text \<open>
  In every database reachable from a freshly planned one the queue invariant holds:
  identifiers are unique, a leased job points to the attempt of its own fence, a terminal
  job's selected attempt is authoritative, and the run states agree with their jobs.
\<close>

lemma queue_invariant_reachable:
  assumes "planned_db db" and "queue_steps db db'"
  shows "db_inv db'"
  by (rule queue_steps_preserve(1) [OF assms(2) planned_db_inv [OF assms(1)]])

lemma queue_invariant_reachable_witness: "db_inv ex_claimed"
  by (rule queue_invariant_reachable [OF ex_planned ex_claimed_steps])

text \<open>
  The unique index on authoritative rows is never what refuses a completion: when \<open>complete\<close> gets as far as
  writing an authoritative row, its job is leased, so it has selected no attempt and has no authoritative row.
\<close>

lemma authority_unique_one_more:
  assumes "authority_unique rows" and "\<And>r. r \<in> set rows \<Longrightarrow> ar_disposition r = Authoritative \<Longrightarrow> ar_job_id r \<noteq> k"
    and "distinct (map ar_attempt_id rows)"
    and "\<And>r. r \<in> set rows \<Longrightarrow> ar_attempt_id r = aid \<Longrightarrow> ar_job_id r = k" and "\<And>r. ar_job_id (f r) = ar_job_id r"
  shows "authority_unique (update_where (\<lambda>r. ar_attempt_id r = aid) f rows)"
  using assms(1-4)
proof (induction rows)
  case (Cons r rows)
  have tail: "authority_unique rows" using Cons.prems(1) by (simp add: authority_unique_def split: if_splits)
  show ?case
  proof (cases "ar_attempt_id r = aid")
    case True
    with Cons.prems(3) have "update_where (\<lambda>r. ar_attempt_id r = aid) f rows = rows"
      by (induction rows) auto
    moreover have "k \<notin> ar_job_id ` set (filter (\<lambda>r. ar_disposition r = Authoritative) rows)"
      using Cons.prems(2) by auto
    ultimately show ?thesis
      using True tail Cons.prems(4) [of r] assms(5) by (auto simp: authority_unique_def)
  next
    case False
    have "ar_job_id ` set (filter (\<lambda>r. ar_disposition r = Authoritative) (update_where (\<lambda>r. ar_attempt_id r = aid) f rows))
      \<subseteq> insert k (ar_job_id ` set (filter (\<lambda>r. ar_disposition r = Authoritative) rows))"
      using Cons.prems(4) assms(5) by (induction rows) auto
    with False Cons tail show ?thesis by (auto simp: authority_unique_def)
  qed
qed simp

lemma update_attempts_Inl:
  assumes "update_attempts p f db = Inl (integrity_error ''UNIQUE constraint failed'')"
  shows "\<not> authority_unique (update_where p f (attempts db))"
  using assms by (auto simp: update_attempts_def Let_def split: if_splits)

lemma stale_result_no_unique:
  assumes "db_inv db"
  shows "stale_result db att now_ms \<noteq> Inl (integrity_error ''UNIQUE constraint failed'')"
proof
  assume "stale_result db att now_ms = Inl (integrity_error ''UNIQUE constraint failed'')"
  then obtain p where "update_attempts p (stale_row db att now_ms) db = Inl (integrity_error ''UNIQUE constraint failed'')"
    by (auto simp: stale_result_def mark_attempt_stale_def bind_res_def split: sum.splits)
  from update_attempts_Inl [OF this] authority_unique_no_more [OF db_inv_authority_unique [OF assms]]
  show False by (simp add: stale_row_def)
qed

lemma leased_no_authoritative:
  assumes "db_inv db" and "job_of db k = Some row" and "leased row" and "r \<in> set (attempts db)"
    and "ar_disposition r = Authoritative"
  shows "ar_job_id r \<noteq> k"
  using db_invD(3) [OF assms(1) db_keysD(2) [OF db_invD(1) [OF assms(1)] assms(4)]] assms(2,3,5)
    leased_not_selected [OF db_invD(2) [OF assms(1,2)] assms(3)]
  by (auto simp: row_inv_def)

lemma complete_no_unique:
  assumes "db_inv db"
  shows "fst (complete db job att now_ms) \<noteq> Inl (integrity_error ''UNIQUE constraint failed'')"
proof
  assume "fst (complete db job att now_ms) = Inl (integrity_error ''UNIQUE constraint failed'')"
  then have err: "complete_body job att now_ms db = Inl (integrity_error ''UNIQUE constraint failed'')"
    by (auto simp: complete_def in_transaction_def split: sum.splits)
  then obtain row where row: "job_of db (j_job_id job) = Some row"
    by (auto simp: complete_body_def make_error_def split: option.splits)
  have "complete_terminal row att now_ms db \<noteq> Inl (integrity_error ''UNIQUE constraint failed'')"
    using stale_result_no_unique [OF assms] by (auto simp: complete_terminal_def make_error_def split: option.splits)
  with err row stale_result_no_unique [OF assms]
  have commit: "complete_commit job att now_ms db = Inl (integrity_error ''UNIQUE constraint failed'')"
    and live: "\<not> lease_expired row now_ms"
    by (auto simp: complete_body_def Let_def split: if_splits)
  have leased: "leased row"
    using db_invD(2) [OF assms row] live by (auto simp: job_inv_def lease_expired_def split: option.splits)
  from commit obtain r where r: "attempt_of db (a_attempt_id att) = Some r" "ar_job_id r = j_job_id job"
    and upd: "update_attempts (\<lambda>r. ar_attempt_id r = a_attempt_id att) (committed_row att now_ms) db
      = Inl (integrity_error ''UNIQUE constraint failed'')"
    by (auto simp: complete_commit_def bind_res_def make_error_def split: if_splits option.splits sum.splits)
  have "authority_unique (update_where (\<lambda>r. ar_attempt_id r = a_attempt_id att) (committed_row att now_ms) (attempts db))"
  proof (rule authority_unique_one_more [OF db_inv_authority_unique [OF assms]])
    show "ar_job_id q \<noteq> j_job_id job" if "q \<in> set (attempts db)" "ar_disposition q = Authoritative" for q
      by (rule leased_no_authoritative [OF assms row leased that])
    show "distinct (map ar_attempt_id (attempts db))"
      using db_invD(1) [OF assms] by (simp add: db_keys_def)
    show "ar_job_id q = j_job_id job" if "q \<in> set (attempts db)" "ar_attempt_id q = a_attempt_id att" for q
      using db_keysD(2) [OF db_invD(1) [OF assms] that(1)] that(2) r by simp
  qed (simp add: committed_row_def)
  with update_attempts_Inl [OF upd] show False by simp
qed

lemma selected_attempt_latest:
  assumes inv: "db_inv db" and j: "job_of db k = Some j" "j_selected_attempt_id j = Some aid"
  obtains r where "attempt_of db aid = Some r" "ar_disposition r = Authoritative" "ar_job_id r = k"
    "ar_fence r = j_fence j" "j_state j = (if ar_outcome r = Some Error then FAILED else DONE)"
    "\<And>q. q \<in> set (attempts db) \<Longrightarrow> ar_job_id q = k \<Longrightarrow> q = r \<or> ar_fence q < ar_fence r"
proof -
  from db_invD(2) [OF inv j(1)] j(2) job_of_id [OF j(1)] obtain r where
    r: "attempt_of db aid = Some r" "ar_disposition r = Authoritative" "ar_job_id r = k" "ar_fence r = j_fence j"
    and st: "j_state j = (if ar_outcome r = Some Error then FAILED else DONE)"
    by (auto simp: job_inv_def)
  have "q = r \<or> ar_fence q < ar_fence r" if q: "q \<in> set (attempts db)" "ar_job_id q = k" for q
  proof -
    have look: "attempt_of db (ar_attempt_id q) = Some q"
      by (rule db_keysD(2) [OF db_invD(1) [OF inv] q(1)])
    from db_invD(3) [OF inv look] q(2) j(1) have "ar_fence q \<le> ar_fence r"
      by (auto simp: row_inv_def r(4))
    moreover have "q = r" if "ar_fence q = ar_fence r"
      using db_invD(4) [OF inv] look r(1,3) q(2) that attempt_of_id [OF r(1)] unfolding fence_unique_def
      by (metis option.inject)
    ultimately show ?thesis by linarith
  qed
  with r st that show thesis by blast
qed

text \<open>
  C11. The result that counts is the one of the last attempt. After any sequence of queue operations on a
  freshly planned database, an attempt is authoritative exactly if its job has selected it; so a job has at
  most one. The selected attempt carries the last fence of its job: every other attempt of the job was started earlier. The
  job is terminal, failed exactly for an \<open>error\<close> outcome. And the unique index on authoritative rows never refuses a
  completion: the checks of \<open>complete\<close> alone keep the second result out.
\<close>

theorem result_of_last_attempt_counts:
  assumes "planned_db db" and "queue_steps db db'"
  shows "(\<forall>r \<in> set (attempts db'). ar_disposition r = Authoritative
        \<longleftrightarrow> (\<exists>j. job_of db' (ar_job_id r) = Some j \<and> j_selected_attempt_id j = Some (ar_attempt_id r)))
    \<and> (\<forall>k j aid. job_of db' k = Some j \<longrightarrow> j_selected_attempt_id j = Some aid \<longrightarrow>
        (\<exists>r. attempt_of db' aid = Some r \<and> ar_disposition r = Authoritative \<and> ar_job_id r = k \<and> ar_fence r = j_fence j
          \<and> j_state j = (if ar_outcome r = Some Error then FAILED else DONE)
          \<and> (\<forall>q \<in> set (attempts db'). ar_job_id q = k \<longrightarrow> q = r \<or> ar_fence q < ar_fence r)))
    \<and> (\<forall>job att now_ms. fst (complete db' job att now_ms) \<noteq> Inl (integrity_error ''UNIQUE constraint failed''))"
proof -
  have inv: "db_inv db'"
    by (rule queue_steps_preserve(1) [OF assms(2) planned_db_inv [OF assms(1)]])
  note rows = db_keysD(2) [OF db_invD(1) [OF inv]]
  have "\<exists>j. job_of db' (ar_job_id r) = Some j \<and> j_selected_attempt_id j = Some (ar_attempt_id r)"
    if "r \<in> set (attempts db')" "ar_disposition r = Authoritative" for r
    using db_invD(3) [OF inv rows [OF that(1)]] that(2) by (auto simp: row_inv_def)
  moreover have "ar_disposition r = Authoritative"
    if "r \<in> set (attempts db')" "job_of db' (ar_job_id r) = Some j" "j_selected_attempt_id j = Some (ar_attempt_id r)" for r j
    using selected_attempt_latest [OF inv that(2,3)] rows [OF that(1)] by auto
  moreover have "\<exists>r. attempt_of db' aid = Some r \<and> ar_disposition r = Authoritative \<and> ar_job_id r = k \<and> ar_fence r = j_fence j
          \<and> j_state j = (if ar_outcome r = Some Error then FAILED else DONE)
          \<and> (\<forall>q \<in> set (attempts db'). ar_job_id q = k \<longrightarrow> q = r \<or> ar_fence q < ar_fence r)"
    if "job_of db' k = Some j" "j_selected_attempt_id j = Some aid" for k j aid
    using selected_attempt_latest [OF inv that] by metis
  ultimately show ?thesis using complete_no_unique [OF inv] by blast
qed

theorem result_of_last_attempt_counts_witness:
  "\<exists>r \<in> set (attempts ex_done). ar_disposition r = Authoritative
     \<and> (\<exists>j. job_of ex_done (ar_job_id r) = Some j \<and> j_selected_attempt_id j = Some (ar_attempt_id r))"
proof -
  have steps: "queue_steps ex_db ex_done"
    using ex_claimed_steps queue_step.op [of ex_claimed "Op_complete ex_handle ex_attempt 120"]
    by (auto simp: ex_done_def intro: queue_steps.step)
  have "\<exists>r \<in> set (attempts ex_done). ar_disposition r = Authoritative" by code_simp
  then show ?thesis
    using result_of_last_attempt_counts [OF ex_planned steps] by blast
qed

text \<open>
  C8. A committed result is final: once an attempt is authoritative, no later operation
  changes any of its columns, and its job keeps its terminal state and its selection.
\<close>

theorem authoritative_attempt_final:
  assumes "db_inv db" and "queue_steps db db'"
    and "attempt_of db aid = Some r" and "ar_disposition r = Authoritative"
  shows "attempt_of db' aid = Some r
    \<and> (\<exists>j j'. job_of db (ar_job_id r) = Some j \<and> job_of db' (ar_job_id r) = Some j'
         \<and> terminal (j_state j) \<and> j_state j' = j_state j
         \<and> j_selected_attempt_id j = Some aid \<and> j_selected_attempt_id j' = Some aid)"
proof -
  note ev = queue_steps_preserve(2) [OF assms(2,1)]
  have "attempt_of db' aid = Some r"
    using db_evolvesD(2) [OF ev assms(3)] assms(4) by (auto simp: row_evolves_def)
  moreover from db_invD(3) [OF assms(1,3)] assms(4) attempt_of_id [OF assms(3)]
  obtain j where j: "job_of db (ar_job_id r) = Some j" "j_selected_attempt_id j = Some aid"
    by (auto simp: row_inv_def)
  moreover have "terminal (j_state j)"
    using db_invD(2) [OF assms(1) j(1)] j(2) by (auto simp: job_inv_def terminal_def)
  moreover obtain j' where "job_of db' (ar_job_id r) = Some j'" "job_evolves j j'"
    using db_evolvesD(1) [OF ev j(1)] by blast
  ultimately show ?thesis by (auto simp: job_evolves_def)
qed

theorem authoritative_attempt_final_witness:
  "\<exists>r. attempt_of ex_done ''attempt'' = Some r
     \<and> attempt_of (run_op (Op_reap id 1000 None) ex_done) ''attempt'' = Some r"
proof -
  obtain r where r: "attempt_of ex_done ''attempt'' = Some r" "ar_disposition r = Authoritative"
  proof -
    have "case attempt_of ex_done ''attempt'' of None \<Rightarrow> False
      | Some r \<Rightarrow> ar_disposition r = Authoritative" by code_simp
    then show thesis using that by (auto split: option.splits)
  qed
  have "queue_steps ex_done (run_op (Op_reap id 1000 None) ex_done)"
    by (blast intro: queue_steps.intros queue_step.op)
  from authoritative_attempt_final [OF ex_done_inv this r] r(1) show ?thesis by blast
qed

section \<open>Fencing\<close>

lemma stale_result_frame:
  assumes "stale_result db att now_ms = Inr (v, db')"
  shows "jobs db' = jobs db" and "runs db' = runs db" and "v = Stale_submission"
  using assms
  by (auto simp: stale_result_def mark_attempt_stale_def bind_res_Inr_iff
      dest: update_attempts_InrD(1))

lemma complete_body_Committed:
  assumes "complete_body job att now_ms db = Inr (Committed, db')"
  obtains row r where "job_of db (j_job_id job) = Some row" and "\<not> terminal (j_state row)"
    and "\<not> lease_expired row now_ms" and "j_fence row = j_fence job"
    and "j_lease_token row = j_lease_token job"
    and "j_worker_id job = None \<or> j_worker_id row = j_worker_id job"
    and "j_attempt_id row = Some (a_attempt_id att)"
    and "attempt_of db (a_attempt_id att) = Some r"
    and "ar_job_id r = j_job_id job" and "ar_fence r = j_fence job"
    and "complete_commit job att now_ms db = Inr (Committed, db')"
proof -
  have st: "stale_result db att now_ms \<noteq> Inr (Committed, db')"
    by (auto simp: stale_result_def bind_res_Inr_iff)
  from assms st obtain row where row: "job_of db (j_job_id job) = Some row"
    "\<not> terminal (j_state row)" "\<not> lease_expired row now_ms" "j_fence row = j_fence job"
    "j_lease_token row = j_lease_token job" "j_worker_id job = None \<or> j_worker_id row = j_worker_id job"
    "j_attempt_id row = Some (a_attempt_id att)"
    and com: "complete_commit job att now_ms db = Inr (Committed, db')"
    by (auto simp: complete_body_def complete_terminal_def Let_def terminal_def
        split: option.splits if_splits)
  from com obtain r where "attempt_of db (a_attempt_id att) = Some r"
    "ar_job_id r = j_job_id job" "ar_fence r = j_fence job"
    by (auto simp: complete_commit_def split: option.splits if_splits)
  with row com that show thesis by blast
qed

lemma complete_terminal_Inr:
  assumes "complete_terminal row att now_ms db = Inr (v, db')"
  shows "(v = Duplicate \<and> db' = db) \<or> stale_result db att now_ms = Inr (v, db')"
  using assms by (simp add: complete_terminal_def split: if_split_asm option.split_asm)

lemma complete_body_fenced:
  assumes "complete_body job att now_ms db = Inr (v, db')"
    and "job_of db (j_job_id job) = Some row" and "j_fence row \<noteq> j_fence job"
  shows "(v = Duplicate \<and> db' = db) \<or> stale_result db att now_ms = Inr (v, db')"
proof (cases "j_state row \<in> {DONE, FAILED, ABANDONED}")
  case True
  with assms(1,2) have "complete_terminal row att now_ms db = Inr (v, db')"
    by (simp only: complete_body_def option.case if_True)
  then show ?thesis by (rule complete_terminal_Inr)
next
  case False
  with assms show ?thesis by (simp add: complete_body_def)
qed

lemma complete_Inr:
  "fst (complete db job att now_ms) = Inr v \<Longrightarrow>
    complete_body job att now_ms db = Inr (v, snd (complete db job att now_ms))"
  by (auto simp: complete_def in_transaction_def split: sum.splits)

lemma commit_effect:
  assumes "db_inv db" and "fst (complete db job att now_ms) = Inr Committed"
  defines "db' \<equiv> snd (complete db job att now_ms)"
  shows "\<exists>row r. job_of db (j_job_id job) = Some row \<and> leased row
    \<and> \<not> lease_expired row now_ms
    \<and> j_fence row = j_fence job \<and> j_lease_token row = j_lease_token job
    \<and> (j_worker_id job = None \<or> j_worker_id row = j_worker_id job)
    \<and> j_attempt_id row = Some (a_attempt_id att)
    \<and> a_job_id att = j_job_id job \<and> a_fence att = j_fence job
    \<and> attempt_of db (a_attempt_id att) = Some r
    \<and> attempt_of db' (a_attempt_id att) = Some (committed_row att now_ms r)
    \<and> job_of db' (j_job_id job) = Some (settled_row att row)
    \<and> (\<forall>k. k \<noteq> j_job_id job \<longrightarrow> job_of db' k = job_of db k)
    \<and> (\<forall>k. k \<noteq> a_attempt_id att \<longrightarrow> attempt_of db' k = attempt_of db k)"
proof -
  from complete_Inr [OF assms(2)]
  have "complete_body job att now_ms db = Inr (Committed, db')" by (simp add: db'_def)
  from complete_body_Committed [OF this] obtain row r where
    row: "job_of db (j_job_id job) = Some row" "\<not> terminal (j_state row)"
      "\<not> lease_expired row now_ms" "j_fence row = j_fence job"
      "j_lease_token row = j_lease_token job"
      "j_worker_id job = None \<or> j_worker_id row = j_worker_id job"
      "j_attempt_id row = Some (a_attempt_id att)"
    and r: "attempt_of db (a_attempt_id att) = Some r"
    and com: "complete_commit job att now_ms db = Inr (Committed, db')" by blast
  from com obtain db1 where
    upd: "update_attempts (\<lambda>r. ar_attempt_id r = a_attempt_id att)
      (committed_row att now_ms) db = Inr db1" and
    db': "db' = update_run_state (j_run_id job) now_ms
      (update_jobs (\<lambda>j. j_job_id j = j_job_id job) (settled_row att) db1)" and
    ids: "a_job_id att = j_job_id job" "a_fence att = j_fence job"
    by (auto simp: complete_commit_def bind_res_Inr_iff split: if_splits)
  have leased: "leased row"
    using db_invD(2) [OF assms(1) row(1)] row(3)
    by (auto simp: job_inv_def lease_expired_def split: option.splits)
  have job': "job_of db' k = (if k = j_job_id job then Some (settled_row att row) else job_of db k)"
    for k
    using row(1) job_of_id [of db] update_attempts_InrD(1) [OF upd]
    by (cases "job_of db k") (auto simp: db' frame_simps table_simps)
  have att': "attempt_of db' k = (if k = a_attempt_id att then Some (committed_row att now_ms r)
      else attempt_of db k)" for k
    using r attempt_of_id [of db] update_attempts_InrD(1) [OF upd]
    by (cases "attempt_of db k") (auto simp: db' frame_simps table_simps)
  show ?thesis
    using row leased r ids job' att' by auto
qed

text \<open>
  C1. A commit happens only under a live lease of the current generation: the job is not
  terminal, its deadline lies ahead, and fence, token, worker and attempt are the ones the
  database holds. The job is then terminal with the attempt selected, the lease is cleared,
  and the attempt is authoritative with the submitted content; no other job and no other attempt
  changes. The state of the run, which is recomputed in the same transaction, is not part of the statement.
\<close>

theorem complete_commits_under_live_lease:
  assumes "db_inv db" and "fst (complete db job att now_ms) = Inr Committed"
  defines "db' \<equiv> snd (complete db job att now_ms)"
  shows "\<exists>row r. job_of db (j_job_id job) = Some row \<and> leased row
    \<and> \<not> lease_expired row now_ms
    \<and> j_fence row = j_fence job \<and> j_lease_token row = j_lease_token job
    \<and> (j_worker_id job = None \<or> j_worker_id row = j_worker_id job)
    \<and> j_attempt_id row = Some (a_attempt_id att)
    \<and> a_job_id att = j_job_id job \<and> a_fence att = j_fence job
    \<and> attempt_of db (a_attempt_id att) = Some r
    \<and> attempt_of db' (a_attempt_id att) = Some (committed_row att now_ms r)
    \<and> job_of db' (j_job_id job) = Some (settled_row att row)
    \<and> (\<forall>k. k \<noteq> j_job_id job \<longrightarrow> job_of db' k = job_of db k)
    \<and> (\<forall>k. k \<noteq> a_attempt_id att \<longrightarrow> attempt_of db' k = attempt_of db k)"
  unfolding db'_def by (rule commit_effect [OF assms(1,2)])

theorem complete_commits_under_live_lease_witness:
  "fst (complete ex_claimed ex_handle ex_attempt 120) = Inr Committed
   \<and> (\<exists>row. job_of ex_claimed ''a'' = Some row \<and> leased row \<and> \<not> lease_expired row 120)"
proof -
  have "j_job_id ex_handle = ''a''" by code_simp
  then show ?thesis
    using complete_commits_under_live_lease [OF ex_claimed_inv ex_complete] ex_complete by auto
qed

text \<open>
  C3. Once fenced out, always fenced out: if the job's fence has moved past the fence of a
  worker's handle, then after any further operations that handle can never commit, and
  submitting it leaves every job and every run as it is.
\<close>

theorem superseded_handle_never_commits:
  assumes "db_inv db" and "job_of db (j_job_id job) = Some row" and "j_fence job < j_fence row"
    and "queue_steps db db'"
  shows "fst (complete db' job att now_ms) \<noteq> Inr Committed
    \<and> jobs (snd (complete db' job att now_ms)) = jobs db'
    \<and> runs (snd (complete db' job att now_ms)) = runs db'"
proof -
  obtain row' where row': "job_of db' (j_job_id job) = Some row'" "j_fence row \<le> j_fence row'"
    using db_evolvesD(1) [OF queue_steps_preserve(2) [OF assms(4,1)] assms(2)]
    by (auto simp: job_evolves_def)
  with assms(3) have ne: "j_fence row' \<noteq> j_fence job" by simp
  show ?thesis
  proof (rule in_transaction_cases [of "complete_body job att now_ms" db'])
    fix v db''
    assume "complete_body job att now_ms db' = Inr (v, db'')"
      and eq: "in_transaction (complete_body job att now_ms) db' = (Inr v, db'')"
    from complete_body_fenced [OF this(1) row'(1) ne]
    have "jobs db'' = jobs db' \<and> runs db'' = runs db' \<and> v \<noteq> Committed"
      by (auto dest: stale_result_frame)
    then show ?thesis by (simp add: complete_def eq)
  qed (simp add: complete_def)
qed

text \<open>
  A worker whose lease ran out at 150 while another one claimed the job again: its handle
  still carries fence 1.
\<close>

definition ex_reclaimed :: db where
  "ex_reclaimed = snd (claim (snd (reap_expired id ex_claimed 200 None)) ''w2'' 300 None 50
     (\<lambda>n. (''attempt2'', ''token2'')))"

lemma ex_reclaimed_inv: "db_inv ex_reclaimed"
  using run_op_preserve(1) [OF run_op_preserve(1) [OF ex_claimed_inv, of "Op_reap id 200 None"],
      of "Op_claim ''w2'' 300 None 50 (\<lambda>n. (''attempt2'', ''token2''))"]
  by (simp add: ex_reclaimed_def)

theorem superseded_handle_never_commits_witness:
  "fst (complete ex_reclaimed ex_handle ex_attempt 310) \<noteq> Inr Committed"
proof -
  have "case job_of ex_reclaimed (j_job_id ex_handle) of None \<Rightarrow> False
    | Some row \<Rightarrow> j_fence ex_handle < j_fence row" by code_simp
  then obtain row where "job_of ex_reclaimed (j_job_id ex_handle) = Some row"
    "j_fence ex_handle < j_fence row" by (auto split: option.splits)
  from superseded_handle_never_commits [OF ex_reclaimed_inv this queue_steps.start]
  show ?thesis by blast
qed

text \<open>What of an attempt the resubmission check compares.\<close>

definition same_content :: "EvaluationAttempt \<Rightarrow> EvaluationAttempt \<Rightarrow> bool" where
  "same_content a b \<longleftrightarrow>
     a_outcome a = a_outcome b \<and> a_evaluation_validity a = a_evaluation_validity b
   \<and> a_error_code a = a_error_code b \<and> a_exit_code a = a_exit_code b
   \<and> a_stdout_hash a = a_stdout_hash b \<and> a_stderr_hash a = a_stderr_hash b
   \<and> a_report_digest a = a_report_digest b \<and> a_test_collection a = a_test_collection b
   \<and> a_tests_passed a = a_tests_passed b \<and> a_tests_failed a = a_tests_failed b
   \<and> resources_dict (a_resources a) = resources_dict (a_resources b)
   \<and> a_artifact_digests a = a_artifact_digests b
   \<and> a_capture_truncated a = a_capture_truncated b"

lemma committed_row_matches:
  "attempt_matches (committed_row att now_ms r) att' \<longleftrightarrow> same_content att att'"
  by (simp add: attempt_matches_def committed_row_def same_content_def)

text \<open>
  C7. Completion is idempotent: after a commit and any further operations, submitting the
  attempt again under any handle of the job answers \<open>duplicate\<close> when its content is the
  committed one and \<open>IDENTITY_CONFLICT\<close> when it differs, and writes nothing in either case.
\<close>

theorem resubmission_is_idempotent:
  assumes "db_inv db" and "fst (complete db job att now_ms) = Inr Committed"
    and "queue_steps (snd (complete db job att now_ms)) db'"
    and "j_job_id job' = j_job_id job" and "a_attempt_id att' = a_attempt_id att"
  shows "complete db' job' att' now_ms' =
    (if same_content att att' then Inr Duplicate
     else Inl (make_error IdentityConflict (Some (ec_value EC_IDENTITY_CONFLICT))), db')"
proof -
  let ?db1 = "snd (complete db job att now_ms)"
  from commit_effect [OF assms(1,2)] obtain row r where
    att1: "attempt_of ?db1 (a_attempt_id att) = Some (committed_row att now_ms r)" and
    job1: "job_of ?db1 (j_job_id job) = Some (settled_row att row)" by blast
  have "db_inv ?db1"
    using run_op_preserve(1) [OF assms(1), of "Op_complete job att now_ms"] by simp
  note ev = queue_steps_preserve(2) [OF assms(3) this]
  have att2: "attempt_of db' (a_attempt_id att) = Some (committed_row att now_ms r)"
    using db_evolvesD(2) [OF ev att1] by (auto simp: row_evolves_def committed_row_def)
  obtain j where j: "job_of db' (j_job_id job) = Some j"
    and tj: "j_state j \<in> {DONE, FAILED, ABANDONED}"
    and sj: "j_selected_attempt_id j = Some (a_attempt_id att)"
    using db_evolvesD(1) [OF ev job1]
    by (cases "a_outcome att = Some Error")
      (auto simp: job_evolves_def settled_row_def terminal_state_of_def)
  have "complete_body job' att' now_ms' db' = complete_terminal j att' now_ms' db'"
    using j tj assms(4) by (simp only: complete_body_def option.case if_True)
  also have "\<dots> = (if same_content att att' then Inr (Duplicate, db')
      else Inl (make_error IdentityConflict (Some (ec_value EC_IDENTITY_CONFLICT))))"
    using sj att2 assms(5) by (simp add: complete_terminal_def committed_row_matches)
  finally show ?thesis by (simp add: complete_def in_transaction_def)
qed

theorem resubmission_is_idempotent_witness:
  "complete ex_done ex_handle ex_attempt 500 = (Inr Duplicate, ex_done)"
  using resubmission_is_idempotent [OF ex_claimed_inv ex_complete queue_steps.start refl refl,
      of 500]
  by (simp add: ex_done_def same_content_def)

end
