(* ===== verification/Queue_Claims.thy ===== *)
theory Queue_Claims
  imports Queue_Properties
begin

text \<open>
  What \<open>claim\<close>, \<open>mark_running\<close> and \<open>heartbeat\<close> answer and write, on every branch, against
  specifications that do not follow their control flow.
\<close>

section \<open>Claiming\<close>

text \<open>
  The jobs a claim may hand out: pending, of the requested run, the run not cancelled.
\<close>

definition eligible :: "db \<Rightarrow> string option \<Rightarrow> Job \<Rightarrow> bool" where
  "eligible db run j \<longleftrightarrow> job_of db (j_job_id j) = Some j \<and> j_state j = PENDING
     \<and> (case run of Some rid \<Rightarrow> j_run_id j = rid | None \<Rightarrow> True)
     \<and> \<not> run_cancelled db (j_run_id j)"

text \<open>
  What a claim may do to the jobs it does not hand out: fail the pending jobs of cancelled runs.
\<close>

definition swept :: "db \<Rightarrow> Job \<Rightarrow> Job \<Rightarrow> bool" where
  "swept db j j' \<longleftrightarrow> j' = j \<or> (j_state j = PENDING \<and> run_cancelled db (j_run_id j)
     \<and> j' = j\<lparr>j_state := FAILED, j_terminal_reason := Some ''CANCELLED''\<rparr>)"

lemma update_run_state_cases:
  obtains "update_run_state rid now_ms db = db"
    | f where "keeps_key r_run_id f" and "\<And>r. r_cancel_requested (f r) = r_cancel_requested r"
      and "\<And>r. r_manifest_hash (f r) = r_manifest_hash r"
      and "update_run_state rid now_ms db = update_runs (\<lambda>r. r_run_id r = rid) f db"
proof -
  let ?upd = "\<lambda>f. update_runs (\<lambda>r. r_run_id r = rid) f db"
  have "update_run_state rid now_ms db = db
    \<or> update_run_state rid now_ms db = ?upd (\<lambda>r. r\<lparr>r_state := Run_RUNNING\<rparr>)
    \<or> (\<exists>st. update_run_state rid now_ms db
          = ?upd (\<lambda>r. r\<lparr>r_state := st, r_finished_at := Some (instant_of_ms now_ms)\<rparr>))"
    unfolding update_run_state_def Let_def by (simp split: option.split) blast
  then show thesis
    by (elim disjE exE) (rule that; auto intro: keeps_keyI)+
qed

lemma run_cancelled_update_run_state [frame_simps]:
  "run_cancelled (update_run_state rid now_ms db) k = run_cancelled db k"
proof (rule update_run_state_cases [of rid now_ms db])
  fix f
  assume "keeps_key r_run_id f" and "\<And>r. r_cancel_requested (f r) = r_cancel_requested r"
    and "update_run_state rid now_ms db = update_runs (\<lambda>r. r_run_id r = rid) f db"
  then show ?thesis
    by (simp add: run_cancelled_def frame_simps table_simps split: option.splits)
qed simp

lemma run_cancelled_frame [frame_simps]:
  "run_cancelled (update_jobs p f db) k = run_cancelled db k"
  "run_cancelled (fail_pending rid db) k = run_cancelled db k"
  by (simp_all add: run_cancelled_def fail_pending_def frame_simps)

lemma fail_pending_frame [frame_simps]:
  "attempts (fail_pending rid db) = attempts db"
  "runs (fail_pending rid db) = runs db"
  "manifests (fail_pending rid db) = manifests db"
  by (simp_all add: fail_pending_def frame_simps)

lemma job_of_fail_pending:
  "job_of (fail_pending rid db) k = map_option (\<lambda>j.
     if j_run_id j = rid \<and> j_state j = PENDING
     then j\<lparr>j_state := FAILED, j_terminal_reason := Some ''CANCELLED''\<rparr> else j) (job_of db k)"
  by (simp add: fail_pending_def frame_simps table_simps)

lemma eligible_sweep:
  assumes "run_cancelled db rid"
  shows "eligible (update_run_state rid now_ms (fail_pending rid db)) run j \<longleftrightarrow> eligible db run j"
proof (cases "j_run_id j = rid")
  case True
  with assms show ?thesis by (simp add: eligible_def frame_simps)
next
  case False
  then show ?thesis
    by (cases "job_of db (j_job_id j)")
      (auto simp: eligible_def frame_simps job_of_fail_pending)
qed

lemma next_pending_eligible:
  assumes "db_inv db" and "next_pending db run = Some row"
    and "\<not> run_cancelled db (j_run_id row)"
  shows "eligible db run row" and "eligible db run q \<Longrightarrow> j_job_id row \<le> j_job_id q"
  using assms(3) next_pending_SomeD [OF assms(2)] db_inv_row [OF assms(1)]
  by (auto simp: eligible_def dest: lookup_row_SomeD)

lemma next_pending_None_eligible: "next_pending db run = None \<Longrightarrow> \<not> eligible db run j"
  by (auto simp: next_pending_None_iff eligible_def dest: lookup_row_SomeD split: option.splits)

text \<open>With a fresh identifier the insert of a claim cannot fail.\<close>

lemma claim_insert_ok:
  assumes "db_inv db" and "job_of db k = Some row" and "attempt_of db aid = None"
    and "keeps_key j_job_id f"
  shows "insert_attempt (pending_attempt aid k (j_fence row + 1) now_ms) (update_jobs p f db)
    = Inr ((update_jobs p f db)\<lparr>attempts :=
        attempts db @ [pending_attempt aid k (j_fence row + 1) now_ms]\<rparr>)"
proof -
  have "0 \<le> j_fence row"
    using db_invD(2) [OF assms(1,2)] by (simp add: job_inv_def)
  moreover have "authority_unique (attempts db @ [pending_attempt aid k (j_fence row + 1) now_ms])"
    using db_inv_authority_unique [OF assms(1)] by (simp add: authority_unique_def pending_attempt_def)
  ultimately show ?thesis
    using assms(2-4)
    by (simp add: insert_attempt_def attempt_check_def attempt_fk_def pending_attempt_def
        json_valid_resources_def frame_simps table_simps)
qed

text \<open>One job is handed out, under the given identifier and token.\<close>

definition hands_out ::
    "string \<Rightarrow> string option \<Rightarrow> int \<Rightarrow> int \<Rightarrow> db \<Rightarrow> string \<Rightarrow> string \<Rightarrow> Job \<Rightarrow> Job \<Rightarrow> db \<Rightarrow> bool"
    where
  "hands_out worker run now_ms lease db aid token row h db' \<longleftrightarrow>
     eligible db run row \<and> (\<forall>j. eligible db run j \<longrightarrow> j_job_id row \<le> j_job_id j)
   \<and> h = claimed_job aid (j_fence row + 1) token worker (now_ms + lease)
         (j_attempts_started row + 1) row
   \<and> job_of db' (j_job_id row) = Some (claimed_row aid (j_fence row + 1) token worker
         (now_ms + lease) (j_attempts_started row + 1) row)
   \<and> (\<forall>k. k \<noteq> j_job_id row \<longrightarrow> rel_option (swept db) (job_of db k) (job_of db' k))
   \<and> attempts db' = attempts db @ [pending_attempt aid (j_job_id row) (j_fence row + 1) now_ms]"

definition hands_out_none :: "string option \<Rightarrow> db \<Rightarrow> db \<Rightarrow> bool" where
  "hands_out_none run db db' \<longleftrightarrow> (\<forall>j. \<not> eligible db run j) \<and> attempts db' = attempts db
     \<and> (\<forall>k. rel_option (swept db) (job_of db k) (job_of db' k))"

definition claim_post ::
    "string \<Rightarrow> string option \<Rightarrow> int \<Rightarrow> int \<Rightarrow> (nat \<Rightarrow> string \<times> string) \<Rightarrow> db \<Rightarrow> Job option \<Rightarrow> db \<Rightarrow> bool"
    where
  "claim_post worker run now_ms lease fresh db res db' = (case res of
     None \<Rightarrow> hands_out_none run db db'
   | Some h \<Rightarrow> \<exists>row n.
       hands_out worker run now_ms lease db (fst (fresh n)) (snd (fresh n)) row h db')"

lemma claim_post_sweep:
  assumes "run_cancelled db rid"
    and "claim_post w run now_ms lease fresh (update_run_state rid now_ms (fail_pending rid db)) res db'"
  shows "claim_post w run now_ms lease fresh db res db'"
proof -
  let ?db1 = "update_run_state rid now_ms (fail_pending rid db)"
  have swept: "rel_option (swept db) (job_of db k) (job_of db' k)"
    if "rel_option (swept ?db1) (job_of ?db1 k) (job_of db' k)" for k
    using that assms(1)
    by (cases "job_of db k"; cases "job_of db' k")
      (auto simp: swept_def frame_simps job_of_fail_pending split: if_splits)
  have atts: "attempts ?db1 = attempts db" by (simp add: frame_simps)
  have "hands_out_none run ?db1 db' \<Longrightarrow> hands_out_none run db db'"
    unfolding hands_out_none_def eligible_sweep [OF assms(1)] atts using swept by blast
  moreover have "hands_out w run now_ms lease ?db1 aid token row h db' \<Longrightarrow>
      hands_out w run now_ms lease db aid token row h db'" for aid token row h
    unfolding hands_out_def eligible_sweep [OF assms(1)] atts using swept by blast
  ultimately show ?thesis
    using assms(2) unfolding claim_post_def by (cases res) (simp, simp, blast)
qed

lemma claim_loop_post:
  assumes "db_inv db" and "\<And>m. n \<le> m \<Longrightarrow> attempt_of db (fst (fresh m)) = None"
  shows "\<exists>res db'. claim_loop w run now_ms lease fresh n db = Inr (res, db')
    \<and> claim_post w run now_ms lease fresh db res db'"
  using assms
proof (induction w run now_ms lease fresh n db rule: claim_loop.induct)
  case (1 w run now_ms lease fresh n db)
  note unf = claim_loop.simps [of w run now_ms lease fresh n db]
  show ?case
  proof (cases "next_pending db run")
    case None
    then have "claim_post w run now_ms lease fresh db None db"
      using next_pending_None_eligible
      by (auto simp: claim_post_def hands_out_none_def swept_def intro: option.rel_refl)
    with None show ?thesis by (auto simp: unf)
  next
    case (Some row)
    show ?thesis
    proof (cases "run_cancelled db (j_run_id row)")
      case True
      let ?db1 = "update_run_state (j_run_id row) now_ms (fail_pending (j_run_id row) db)"
      have "db_inv ?db1"
        using "1.prems"(1) fail_pending_inv(1) update_run_state_inv by blast
      from "1.IH"(1) [OF Some True this] "1.prems"(2)
      obtain res db' where *: "claim_loop w run now_ms lease fresh (Suc n) ?db1 = Inr (res, db')"
        "claim_post w run now_ms lease fresh ?db1 res db'"
        by (auto simp: frame_simps)
      with Some True show ?thesis
        using claim_post_sweep [OF True *(2)] by (auto simp: unf)
    next
      case False
      note row = next_pending_SomeD(1,2) [OF Some]
      note el = next_pending_eligible [OF "1.prems"(1) Some False]
      have jrow: "job_of db (j_job_id row) = Some row"
        using el(1) by (simp add: eligible_def)
      let ?hit = "\<lambda>j. j_job_id j = j_job_id row \<and> j_state j = PENDING"
      let ?f = "claimed_row (fst (fresh n)) (j_fence row + 1) (snd (fresh n)) w (now_ms + lease)
        (j_attempts_started row + 1)"
      let ?r = "pending_attempt (fst (fresh n)) (j_job_id row) (j_fence row + 1) now_ms"
      let ?db1 = "(update_jobs ?hit ?f db)\<lparr>attempts := attempts db @ [?r]\<rparr>"
      have hit: "filter ?hit (jobs db) \<noteq> []"
        using row by (auto simp: filter_empty_conv)
      have ins: "insert_attempt ?r (update_jobs ?hit ?f db) = Inr ?db1"
        using claim_insert_ok [OF "1.prems"(1) jrow] "1.prems"(2) [of n] by simp
      let ?h = "claimed_job (fst (fresh n)) (j_fence row + 1) (snd (fresh n)) w (now_ms + lease)
        (j_attempts_started row + 1) row"
      have res: "claim_loop w run now_ms lease fresh n db
        = Inr (Some ?h, update_run_state (j_run_id row) now_ms ?db1)"
        using Some False hit ins by (simp add: unf Let_def)
      have "job_of (update_run_state (j_run_id row) now_ms ?db1) k =
          (if k = j_job_id row then Some (?f row) else job_of db k)" for k
      proof (cases "k = j_job_id row")
        case True
        then show ?thesis
          using jrow row(2) by (simp add: frame_simps table_simps)
      next
        case False
        then show ?thesis
          by (cases "job_of db k") (auto simp: frame_simps table_simps dest: job_of_id)
      qed
      then have "hands_out w run now_ms lease db (fst (fresh n)) (snd (fresh n)) row ?h
          (update_run_state (j_run_id row) now_ms ?db1)"
        using el by (simp add: hands_out_def frame_simps swept_def option.rel_refl)
      then have "claim_post w run now_ms lease fresh db (Some ?h)
          (update_run_state (j_run_id row) now_ms ?db1)"
        unfolding claim_post_def by auto
      with res show ?thesis by blast
    qed
  qed
qed

text \<open>
  C5. A claim with fresh identifiers never fails. It answers \<open>None\<close> exactly when no job is
  eligible; otherwise it leases the eligible job with the least identifier, one fence and one
  attempt further, inserts that attempt as the only new row, and changes no other job except
  that pending jobs of cancelled runs may become \<open>FAILED/CANCELLED\<close>.
\<close>

theorem claim_leases_least_eligible_job:
  assumes "db_inv db" and "\<And>n. attempt_of db (fst (fresh n)) = None"
  shows "\<exists>res. fst (claim db worker now_ms run lease fresh) = Inr res
    \<and> claim_post worker run now_ms lease fresh db res (snd (claim db worker now_ms run lease fresh))"
  using claim_loop_post [OF assms(1), of 0 fresh worker run now_ms lease] assms(2)
  by (auto simp: claim_def in_transaction_def)

theorem claim_leases_least_eligible_job_witness:
  "\<exists>row. j_job_id row = ''a'' \<and> eligible ex_db None row
     \<and> (\<forall>j. eligible ex_db None j \<longrightarrow> ''a'' \<le> j_job_id j)"
proof -
  have fresh: "attempt_of ex_db (fst (ex_fresh n)) = None" for n
    by (simp add: ex_db_def)
  have "claim_post ''w'' None 100 50 ex_fresh ex_db (Some ex_handle) ex_claimed"
    using claim_leases_least_eligible_job [OF planned_db_inv [OF ex_planned],
        of ex_fresh "''w''" 100 None 50] fresh ex_claim
    by (auto simp: ex_claimed_def)
  then obtain row n where row: "hands_out ''w'' None 100 50 ex_db (fst (ex_fresh n))
      (snd (ex_fresh n)) row ex_handle ex_claimed" by (auto simp: claim_post_def)
  then have "ex_handle = claimed_job (fst (ex_fresh n)) (j_fence row + 1) (snd (ex_fresh n)) ''w''
      (100 + 50) (j_attempts_started row + 1) row"
    by (simp only: hands_out_def)
  from arg_cong [OF this, of j_job_id] have "j_job_id ex_handle = j_job_id row"
    by (simp add: claimed_job_def)
  moreover have "eligible ex_db None row" "\<forall>j. eligible ex_db None j \<longrightarrow> j_job_id row \<le> j_job_id j"
    using row by (simp_all add: hands_out_def)
  moreover have "j_job_id ex_handle = ''a''" by code_simp
  ultimately show ?thesis by auto
qed

section \<open>Holding a lease\<close>

text \<open>
  \<open>job\<close> is a handle of the live lease of \<open>row\<close>. The worker and the attempt of the handle
  may be left open.
\<close>

definition holds_lease :: "db \<Rightarrow> Job \<Rightarrow> int \<Rightarrow> Job \<Rightarrow> bool" where
  "holds_lease db job now_ms row \<longleftrightarrow> job_of db (j_job_id job) = Some row
     \<and> leased row \<and> (\<exists>t. j_lease_expires_ms row = Some t \<and> now_ms < t)
     \<and> j_fence row = j_fence job \<and> j_lease_token row = j_lease_token job
     \<and> (\<forall>w. j_worker_id job = Some w \<longrightarrow> j_worker_id row = Some w)
     \<and> (\<forall>a. j_attempt_id job = Some a \<longrightarrow> j_attempt_id row = Some a)"

lemma holds_lease_iff:
  assumes "job_of db (j_job_id job) = Some row"
  shows "holds_lease db job now_ms row \<longleftrightarrow>
    \<not> lease_mismatch row job \<and> \<not> lease_expired row now_ms \<and> j_state row \<in> {CLAIMED, RUNNING}"
  using assms
  by (cases "j_worker_id job"; cases "j_attempt_id job")
    (auto simp: holds_lease_def lease_mismatch_def lease_expired_def leased_def
      split: option.splits)

lemma no_lease_iff:
  "(\<forall>row. \<not> holds_lease db job now_ms row) \<longleftrightarrow> (case job_of db (j_job_id job) of None \<Rightarrow> True
     | Some row \<Rightarrow> lease_mismatch row job \<or> lease_expired row now_ms
         \<or> j_state row \<notin> {CLAIMED, RUNNING})"
proof (cases "job_of db (j_job_id job)")
  case None
  then show ?thesis by (simp add: holds_lease_def)
next
  case (Some row)
  have "holds_lease db job now_ms r \<Longrightarrow> r = row" for r
    using Some by (simp add: holds_lease_def)
  with holds_lease_iff [OF Some] show ?thesis
    using Some by (auto; metis)
qed

text \<open>
  A heartbeat succeeds exactly for a handle of a live lease. It then moves the deadline
  of that job to \<open>now + extension\<close> and writes nothing else; every other handle is refused with
  \<open>LEASE_LOST\<close> and the database stays as it is.
\<close>

lemma heartbeat_extends_live_leases_only:
  "(case fst (heartbeat db job now_ms ext) of
      Inl e \<Rightarrow> e = lease_lost \<and> (\<forall>row. \<not> holds_lease db job now_ms row)
        \<and> snd (heartbeat db job now_ms ext) = db
    | Inr h \<Rightarrow> \<exists>row. holds_lease db job now_ms row
        \<and> h = job\<lparr>j_state := j_state row, j_worker_id := j_worker_id row,
                  j_lease_expires_ms := Some (now_ms + ext),
                  j_attempts_started := j_attempts_started row,
                  j_selected_attempt_id := j_selected_attempt_id row,
                  j_terminal_reason := j_terminal_reason row\<rparr>
        \<and> snd (heartbeat db job now_ms ext) = db\<lparr>jobs :=
            update_where (\<lambda>j. j_job_id j = j_job_id job)
              (\<lambda>j. j\<lparr>j_lease_expires_ms := Some (now_ms + ext)\<rparr>) (jobs db)\<rparr>)"
proof (cases "job_of db (j_job_id job)")
  case None
  then show ?thesis
    by (simp add: heartbeat_def in_transaction_def heartbeat_body_def no_lease_iff)
next
  case (Some row)
  note holds_lease_iff [OF Some, of now_ms]
  then show ?thesis
    using Some no_lease_iff [of db job now_ms]
    by (cases "holds_lease db job now_ms row")
      (auto simp: heartbeat_def in_transaction_def heartbeat_body_def update_jobs_def Let_def)
qed

text \<open>
  \<open>mark_running\<close> succeeds exactly for a handle of a live lease, and its only effect is that
  the job is \<open>RUNNING\<close>; it is idempotent under the same lease. Every other handle is refused
  with \<open>LEASE_LOST\<close> and the database stays as it is.
\<close>

lemma mark_running_under_live_leases_only:
  "(case fst (mark_running db job now_ms) of
      Inl e \<Rightarrow> e = lease_lost \<and> (\<forall>row. \<not> holds_lease db job now_ms row)
        \<and> snd (mark_running db job now_ms) = db
    | Inr h \<Rightarrow> \<exists>row. holds_lease db job now_ms row
        \<and> (\<forall>k. job_of (snd (mark_running db job now_ms)) k =
              (if k = j_job_id job then Some (row\<lparr>j_state := RUNNING\<rparr>) else job_of db k))
        \<and> attempts (snd (mark_running db job now_ms)) = attempts db
        \<and> runs (snd (mark_running db job now_ms)) = runs db
        \<and> mark_running (snd (mark_running db job now_ms)) job now_ms
            = (Inr h, snd (mark_running db job now_ms)))"
proof (cases "job_of db (j_job_id job)")
  case None
  then show ?thesis
    by (simp add: mark_running_def in_transaction_def mark_running_body_def no_lease_iff)
next
  case (Some row)
  show ?thesis
  proof (cases "holds_lease db job now_ms row")
    case False
    then have "lease_mismatch row job \<or> lease_expired row now_ms \<or> j_state row \<notin> {CLAIMED, RUNNING}"
      by (simp add: holds_lease_iff [OF Some])
    with Some show ?thesis
      using no_lease_iff [of db job now_ms]
      by (auto simp: mark_running_def in_transaction_def mark_running_body_def)
  next
    case True
    let ?db = "if j_state row = CLAIMED
      then update_jobs (\<lambda>j. j_job_id j = j_job_id job) (\<lambda>j. j\<lparr>j_state := RUNNING\<rparr>) db else db"
    let ?row = "row\<lparr>j_state := RUNNING\<rparr>"
    have live: "\<not> lease_mismatch row job" "\<not> lease_expired row now_ms"
      "j_state row \<in> {CLAIMED, RUNNING}"
      using True by (simp_all add: holds_lease_iff [OF Some])
    have live': "\<not> lease_mismatch ?row job" "\<not> lease_expired ?row now_ms"
      using live by (simp_all add: lease_mismatch_def lease_expired_def)
    have job: "job_of ?db (j_job_id job) = Some ?row"
      using live(3) Some job_of_id [OF Some] by (auto simp: frame_simps table_simps)
    have other: "job_of ?db k = job_of db k" if "k \<noteq> j_job_id job" for k
      using that by (cases "job_of db k") (auto simp: frame_simps table_simps dest: job_of_id)
    have res: "mark_running db job now_ms = (Inr (job\<lparr>j_state := RUNNING,
        j_lease_expires_ms := j_lease_expires_ms row,
        j_attempts_started := j_attempts_started row,
        j_selected_attempt_id := j_selected_attempt_id row,
        j_terminal_reason := j_terminal_reason row\<rparr>), ?db)"
      using Some live by (simp add: mark_running_def in_transaction_def mark_running_body_def)
    have again: "mark_running ?db job now_ms = (fst (mark_running db job now_ms), ?db)"
      using job live' by (simp add: mark_running_def [of ?db] in_transaction_def
          mark_running_body_def res del: if_split)
    show ?thesis
      using True job other again res by (auto simp: frame_simps)
  qed
qed

end
