(* ===== verification/Queue_Reap.thy ===== *)
theory Queue_Reap
  imports Queue_Claims
begin

text \<open>
  The reaper against a specification without its loop, its cache and its iteration order;
  the state of a run as a function of its jobs; and the bound on the attempts of a job.
\<close>

section \<open>The state of a run as a function of its jobs\<close>

definition run_verdict :: "int \<Rightarrow> Job list \<Rightarrow> AuditRun \<Rightarrow> AuditRun" where
  "run_verdict now_ms js u =
    (if run_terminal (r_state u) \<or> js = [] then u
     else if \<exists>j \<in> set js. j_state j \<notin> {DONE, FAILED}
       then (if r_state u = Run_PLANNED then u\<lparr>r_state := Run_RUNNING\<rparr> else u)
     else u\<lparr>r_state := (if r_cancel_requested u then Run_CANCELLED
              else if \<exists>j \<in> set js. j_state j = FAILED then Run_FAILED else Run_COMPLETE),
            r_finished_at := Some (instant_of_ms now_ms)\<rparr>)"

lemma run_verdict_id [simp]: "r_run_id (run_verdict now_ms js u) = r_run_id u"
  by (simp add: run_verdict_def)

lemma run_verdict_idem: "run_verdict now_ms js (run_verdict now_ms js u) = run_verdict now_ms js u"
  by (auto simp: run_verdict_def run_terminal_def)

lemma update_run_state_runs:
  assumes "distinct (map r_run_id (runs db))"
  shows "runs (update_run_state rid now_ms db) =
    update_where (\<lambda>u. r_run_id u = rid) (run_verdict now_ms (run_jobs db rid)) (runs db)"
proof (cases "run_of db rid")
  case None
  then have "r_run_id u \<noteq> rid" if "u \<in> set (runs db)" for u
    using that by (auto simp: lookup_row_None_iff)
  then show ?thesis
    using None by (simp add: update_run_state_def update_where_none)
next
  case (Some u)
  have one: "update_where (\<lambda>u. r_run_id u = rid) f (runs db)
      = update_where (\<lambda>u. r_run_id u = rid) g (runs db)" if "f u = g u" for f g
  proof -
    have "v = u" if "v \<in> set (runs db)" "r_run_id v = rid" for v
      using that assms Some lookup_row_mem [OF assms, of v] by simp
    with that show ?thesis by (auto simp: update_where_def)
  qed
  have same: "runs db = update_where (\<lambda>u. r_run_id u = rid) g (runs db)" if "g u = u" for g
    using one [of "\<lambda>u. u" g] that by (simp add: update_where_def)
  let ?js = "run_jobs db rid"
  let ?active = "\<exists>j \<in> set ?js. j_state j \<notin> {DONE, FAILED}"
  have active: "0 < length (filter (\<lambda>j. j_state j \<notin> {DONE, FAILED}) ?js) \<longleftrightarrow> ?active"
    by (auto simp: filter_empty_conv)
  have failed: "0 < length (filter (\<lambda>j. j_state j = FAILED) ?js) \<longleftrightarrow> (\<exists>j \<in> set ?js. j_state j = FAILED)"
    by (auto simp: filter_empty_conv)
  show ?thesis
  proof (cases "run_terminal (r_state u) \<or> ?js = [] \<or> (?active \<and> r_state u \<noteq> Run_PLANNED)")
    case True
    then have "update_run_state rid now_ms db = db"
      using Some active by (auto simp: update_run_state_def run_terminal_def Let_def)
    moreover have "run_verdict now_ms ?js u = u"
      using True by (auto simp: run_verdict_def)
    ultimately show ?thesis using same by simp
  next
    case nt: False
    show ?thesis
    proof (cases ?active)
      case True
      with nt have "r_state u = Run_PLANNED" by blast
      with nt Some active True have
        "update_run_state rid now_ms db = update_runs (\<lambda>r. r_run_id r = rid) (\<lambda>r. r\<lparr>r_state := Run_RUNNING\<rparr>) db"
        unfolding update_run_state_def Let_def by (simp add: run_terminal_def)
      moreover have "run_verdict now_ms ?js u = u\<lparr>r_state := Run_RUNNING\<rparr>"
        using True nt by (auto simp: run_verdict_def)
      ultimately show ?thesis by (simp only: frame_simps) (rule one, simp)
    next
      case False
      let ?st = "if r_cancel_requested u then Run_CANCELLED
        else if \<exists>j \<in> set ?js. j_state j = FAILED then Run_FAILED else Run_COMPLETE"
      have "update_run_state rid now_ms db = update_runs (\<lambda>r. r_run_id r = rid)
          (\<lambda>r. r\<lparr>r_state := ?st, r_finished_at := Some (instant_of_ms now_ms)\<rparr>) db"
        unfolding update_run_state_def Let_def active failed
        using False nt Some by (simp add: run_terminal_def)
      moreover have "run_verdict now_ms ?js u
          = u\<lparr>r_state := ?st, r_finished_at := Some (instant_of_ms now_ms)\<rparr>"
        using False nt by (auto simp: run_verdict_def)
      ultimately show ?thesis by (simp only: frame_simps) (rule one, simp)
    qed
  qed
qed

lemma fold_update_run_state:
  assumes "distinct (map r_run_id (runs db))"
  shows "fold (\<lambda>rid. update_run_state rid now_ms) rids db = db\<lparr>runs :=
    update_where (\<lambda>u. r_run_id u \<in> set rids)
      (\<lambda>u. run_verdict now_ms (run_jobs db (r_run_id u)) u) (runs db)\<rparr>"
  using assms
proof (induction rids arbitrary: db)
  case Nil
  show ?case by (simp add: update_where_def)
next
  case (Cons rid rids)
  let ?db1 = "update_run_state rid now_ms db"
  have db1: "?db1 = db\<lparr>runs := update_where (\<lambda>u. r_run_id u = rid)
      (run_verdict now_ms (run_jobs db rid)) (runs db)\<rparr>"
    using update_run_state_runs [OF Cons.prems, of rid now_ms]
    by (intro db.equality) (simp_all add: frame_simps)
  have "distinct (map r_run_id (runs ?db1))"
    using Cons.prems by (simp add: db1 map_key_update_where keeps_keyI)
  from Cons.IH [OF this] show ?case
    by (auto simp: db1 run_jobs_def update_where_def run_verdict_idem comp_def)
qed

section \<open>The reaper\<close>

definition expired :: "int \<Rightarrow> Job \<Rightarrow> bool" where
  "expired now_ms j \<longleftrightarrow> leased j \<and> (\<exists>t. j_lease_expires_ms j = Some t \<and> t \<le> now_ms)"

definition reap_limit :: "int option \<Rightarrow> db \<Rightarrow> string \<Rightarrow> int" where
  "reap_limit max_attempts db rid =
    (case max_attempts of Some m \<Rightarrow> m | None \<Rightarrow> manifest_limit db rid)"

text \<open>What becomes of a job whose lease ran out.\<close>

definition reaped :: "int option \<Rightarrow> db \<Rightarrow> Job \<Rightarrow> Job" where
  "reaped max_attempts db j =
    (if run_cancelled db (j_run_id j) then reaped_row FAILED (Some ''CANCELLED'') j
     else if j_attempts_started j < reap_limit max_attempts db (j_run_id j)
       then reaped_row PENDING None j
     else reaped_row FAILED (Some ''LEASE_EXPIRED'') j)"

text \<open>The attempts the reaper abandons: the open ones of the jobs in \<open>rows\<close>.\<close>

definition abandons :: "Job list \<Rightarrow> attempt_row \<Rightarrow> bool" where
  "abandons rows r \<longleftrightarrow> ar_disposition r = Active \<and> ar_attempt_id r \<noteq> []
     \<and> Some (ar_attempt_id r) \<in> j_attempt_id ` set rows"

lemma abandon_attempt_ok:
  assumes "db_inv db"
  shows "abandon_attempt aid now_ms db = Inr (db\<lparr>attempts := update_where
    (\<lambda>r. ar_disposition r = Active \<and> ar_attempt_id r \<noteq> [] \<and> Some (ar_attempt_id r) = aid)
    (abandoned_row now_ms) (attempts db)\<rparr>)"
proof (cases "aid = None \<or> aid = Some []")
  case True
  then have "update_where (\<lambda>r. ar_disposition r = Active \<and> ar_attempt_id r \<noteq> []
      \<and> Some (ar_attempt_id r) = aid) (abandoned_row now_ms) (attempts db) = attempts db"
    by (intro update_where_none) auto
  with True show ?thesis by (auto simp: abandon_attempt_def)
next
  case False
  then obtain k where k: "aid = Some k" "k \<noteq> []" by auto
  let ?p = "\<lambda>r. ar_attempt_id r = k \<and> ar_disposition r = Active"
  have p: "(\<lambda>r. ar_disposition r = Active \<and> ar_attempt_id r \<noteq> [] \<and> Some (ar_attempt_id r) = aid) = ?p"
    using k by auto
  have row: "attempt_check (abandoned_row now_ms r) \<and> attempt_fk db (abandoned_row now_ms r)"
    if "r \<in> set (attempts db)" "?p r" for r
    using db_invD(3) [OF assms db_keysD(2) [OF db_invD(1) [OF assms] that(1)]] that(2)
    by (auto simp: row_inv_def attempt_check_def attempt_fk_def abandoned_row_def)
  have "authority_unique (update_where ?p (abandoned_row now_ms) (attempts db))"
    by (rule authority_unique_no_more [OF db_inv_authority_unique [OF assms]])
      (simp add: abandoned_row_def)
  then show ?thesis
    using k row unfolding p
    by (auto simp: abandon_attempt_def update_attempts_def Let_def list_ex_iff list_all_iff)
qed

lemma reap_limit_cache:
  assumes "\<And>rid l. map_of cache rid = Some l \<Longrightarrow> l = manifest_limit db rid"
  shows "fst (effective_limit m db rid cache) = reap_limit m db rid"
    and "map_of (snd (effective_limit m db rid cache)) k = Some l \<Longrightarrow> l = manifest_limit db k"
  using assms
  by (auto simp: effective_limit_def reap_limit_def split: option.splits if_splits)

definition reap_effect :: "int option \<Rightarrow> int \<Rightarrow> db \<Rightarrow> Job list \<Rightarrow> db" where
  "reap_effect m now_ms db rows = db\<lparr>
     jobs := update_where (\<lambda>j. j_job_id j \<in> j_job_id ` set rows) (reaped m db) (jobs db),
     attempts := update_where (abandons rows) (abandoned_row now_ms) (attempts db)\<rparr>"

lemma reaped_key [simp]: "j_job_id (reaped m db j) = j_job_id j"
  by (simp add: reaped_def reaped_row_def)

lemma reaped_frame:
  assumes "runs db' = runs db" and "manifests db' = manifests db"
  shows "reaped m db' = reaped m db"
  using assms
  by (intro ext) (simp add: reaped_def run_cancelled_def reap_limit_def manifest_limit_def
      split: option.split)

text \<open>One round and the rest together have the effect of all rounds.\<close>

lemma reap_effect_Cons:
  assumes "distinct (map j_job_id (row # rows))" and "distinct (map j_job_id (jobs db))"
    and "row \<in> set (jobs db)"
  shows "reap_effect m now_ms (db\<lparr>
      jobs := update_where (\<lambda>j. j_job_id j = j_job_id row) (\<lambda>_. reaped m db row) (jobs db),
      attempts := update_where (\<lambda>r. ar_disposition r = Active \<and> ar_attempt_id r \<noteq> []
        \<and> Some (ar_attempt_id r) = j_attempt_id row) (abandoned_row now_ms) (attempts db)\<rparr>) rows
    = reap_effect m now_ms db (row # rows)"
proof -
  have row: "j = row" if "j \<in> set (jobs db)" "j_job_id j = j_job_id row" for j
    using that assms(2,3) by (auto simp: distinct_map dest: inj_onD)
  have frame: "reaped m (db\<lparr>jobs := js, attempts := rs\<rparr>) = reaped m db" for js rs
    by (rule reaped_frame) simp_all
  have nin: "j_job_id row \<notin> j_job_id ` set rows" using assms(1) by simp
  have jobs: "update_where (\<lambda>j. j_job_id j \<in> j_job_id ` set rows) (reaped m db)
      (update_where (\<lambda>j. j_job_id j = j_job_id row) (\<lambda>_. reaped m db row) (jobs db))
    = update_where (\<lambda>j. j_job_id j \<in> j_job_id ` set (row # rows)) (reaped m db) (jobs db)"
    unfolding update_where_def map_map by (rule map_cong [OF refl]) (use row nin in auto)
  have attempts: "update_where (abandons rows) (abandoned_row now_ms)
      (update_where (\<lambda>r. ar_disposition r = Active \<and> ar_attempt_id r \<noteq> []
        \<and> Some (ar_attempt_id r) = j_attempt_id row) (abandoned_row now_ms) (attempts db))
    = update_where (abandons (row # rows)) (abandoned_row now_ms) (attempts db)"
    unfolding update_where_def map_map
    by (rule map_cong [OF refl]) (auto simp: abandons_def abandoned_row_def)
  show ?thesis
    by (simp add: reap_effect_def frame jobs [simplified] attempts)
qed

lemma reap_loop_effect:
  assumes "db_inv db" and "distinct (map j_job_id rows)"
    and "\<And>row. row \<in> set rows \<Longrightarrow> job_of db (j_job_id row) = Some row \<and> leased row"
    and "\<And>rid l. map_of cache rid = Some l \<Longrightarrow> l = manifest_limit db rid"
  shows "reap_loop m now_ms rows cache db = Inr (reap_effect m now_ms db rows)"
  using assms
proof (induction rows arbitrary: cache db)
  case Nil
  then show ?case
    by (simp add: reap_effect_def update_where_def abandons_def)
next
  case (Cons row rows)
  let ?db1 = "db\<lparr>attempts := update_where (\<lambda>r. ar_disposition r = Active \<and> ar_attempt_id r \<noteq> []
      \<and> Some (ar_attempt_id r) = j_attempt_id row) (abandoned_row now_ms) (attempts db)\<rparr>"
  note ab = abandon_attempt_ok [OF Cons.prems(1), of "j_attempt_id row" now_ms]
  have row: "job_of db (j_job_id row) = Some row" "leased row"
    using Cons.prems(3) [of row] by simp_all
  have ml: "manifest_limit ?db1 = manifest_limit db"
    by (intro ext) (simp add: manifest_limit_def split: option.split)
  have "l = manifest_limit ?db1 rid" if "map_of cache rid = Some l" for rid l
    unfolding ml by (rule Cons.prems(4) [OF that])
  note cache = reap_limit_cache [of cache ?db1, OF this]
  have lim1: "fst (effective_limit m ?db1 (j_run_id row) cache) = reap_limit m db (j_run_id row)"
    using cache(1) [of m "j_run_id row"] by (simp add: reap_limit_def ml split: option.splits)
  have lim2: "l = manifest_limit db k"
    if "map_of (snd (effective_limit m ?db1 (j_run_id row) cache)) k = Some l" for k l
    using cache(2) that unfolding ml by blast
  obtain st reason where tgt: "reap_target (run_cancelled ?db1 (j_run_id row))
      (j_attempts_started row) (reap_limit m db (j_run_id row)) = (st, reason)" by fastforce
  have canc: "run_cancelled ?db1 (j_run_id row) = run_cancelled db (j_run_id row)"
    by (simp add: run_cancelled_def)
  have reap: "reaped_row st reason row = reaped m db row"
    using tgt canc
    by (cases "run_cancelled db (j_run_id row)";
        cases "j_attempts_started row < reap_limit m db (j_run_id row)")
      (simp_all add: reap_target_def reaped_def)
  let ?db2 = "update_jobs (\<lambda>j. j_job_id j = j_job_id row) (reaped_row st reason) ?db1"
  have same: "reaped_row st reason j = reaped m db row"
    if "j \<in> set (jobs db)" "j_job_id j = j_job_id row" for j
  proof -
    have "job_of db (j_job_id row) = Some j"
      using db_inv_row [OF Cons.prems(1) that(1)] unfolding that(2) .
    with row(1) have "j = row" by simp
    with reap show ?thesis by simp
  qed
  have "jobs ?db2 = update_where (\<lambda>j. j_job_id j = j_job_id row) (\<lambda>_. reaped m db row) (jobs db)"
    unfolding update_jobs_frame update_where_def by (rule map_cong) (auto intro: same)
  then have db2: "?db2 = db\<lparr>
      jobs := update_where (\<lambda>j. j_job_id j = j_job_id row) (\<lambda>_. reaped m db row) (jobs db),
      attempts := update_where (\<lambda>r. ar_disposition r = Active \<and> ar_attempt_id r \<noteq> []
        \<and> Some (ar_attempt_id r) = j_attempt_id row) (abandoned_row now_ms) (attempts db)\<rparr>"
    by (intro db.equality) (simp_all add: frame_simps)
  have step: "reap_loop m now_ms (row # rows) cache db = reap_loop m now_ms rows
      (snd (effective_limit m ?db1 (j_run_id row) cache)) ?db2"
    using lim1 tgt by (simp add: ab case_prod_beta Let_def)
  have "micro\<^sup>*\<^sup>* db ?db2"
  proof -
    have "micro ?db1 ?db2"
      using row reap_target_state [OF tgt] by (intro micro.reap) auto
    with works_micros [OF abandon_attempt_work(1) [OF ab]] show ?thesis by simp
  qed
  then have inv2: "db_inv ?db2" using Cons.prems(1) by (rule micro_system.moves_inv)
  have "reap_loop m now_ms (row # rows) cache db = Inr (reap_effect m now_ms ?db2 rows)"
    unfolding step
  proof (rule Cons.IH [OF inv2])
    show "distinct (map j_job_id rows)" using Cons.prems(2) by simp
    show "job_of ?db2 (j_job_id q) = Some q \<and> leased q" if "q \<in> set rows" for q
    proof -
      have "j_job_id q \<noteq> j_job_id row"
        using that Cons.prems(2) by (metis distinct.simps(2) image_eqI list.simps(9) set_map)
      then show ?thesis
        using that Cons.prems(3) [of q] by (simp add: frame_simps table_simps)
    qed
    show "l = manifest_limit ?db2 k"
      if "map_of (snd (effective_limit m ?db1 (j_run_id row) cache)) k = Some l" for k l
      using lim2 [OF that] by (simp add: manifest_limit_def frame_simps split: option.split)
  qed
  also have "\<dots> = Inr (reap_effect m now_ms db (row # rows))"
    unfolding db2 using Cons.prems(2) db_invD(1) [OF Cons.prems(1)] lookup_row_SomeD [OF row(1)]
    by (simp only: reap_effect_Cons db_keys_def)
  finally show ?case .
qed

lemma expired_jobs_set:
  assumes "db_inv db"
  shows "row \<in> set (expired_jobs db now_ms) \<longleftrightarrow>
    job_of db (j_job_id row) = Some row \<and> expired now_ms row"
  using db_inv_row [OF assms, of row]
  by (auto simp: expired_jobs_def expired_def leased_def dest: lookup_row_SomeD split: option.splits)

lemma reap_expired_effect:
  assumes "db_inv db" and "\<And>xs. set (order xs) = set xs"
  shows "reap_expired order db now_ms m =
    (let rows = expired_jobs db now_ms; db1 = reap_effect m now_ms db rows
     in (Inr (map j_job_id rows), db1\<lparr>runs :=
          update_where (\<lambda>u. r_run_id u \<in> j_run_id ` set rows)
            (\<lambda>u. run_verdict now_ms (run_jobs db1 (r_run_id u)) u) (runs db)\<rparr>))"
proof -
  let ?rows = "expired_jobs db now_ms"
  let ?db1 = "reap_effect m now_ms db ?rows"
  have "reap_loop m now_ms ?rows [] db = Inr ?db1"
    by (rule reap_loop_effect [OF assms(1)]) (use expired_jobs_mem [OF assms(1)] in auto)
  moreover have "distinct (map r_run_id (runs ?db1))"
    using db_invD(1) [OF assms(1)] by (simp add: reap_effect_def db_keys_def)
  ultimately show ?thesis
    using assms(2)
    by (simp add: reap_expired_def in_transaction_def reap_body_def Let_def fold_update_run_state)
      (simp add: reap_effect_def)
qed

text \<open>
  C4. The reaper never fails. It returns the identifiers of the jobs whose lease has run out,
  ascending and without repetition; each of these is requeued, or failed as cancelled or as
  out of attempts, and loses its lease; its open attempt is abandoned; no other job and no
  other attempt changes, so a live lease is never revoked. The states of the affected runs are recomputed
  beside that.
\<close>

theorem reap_releases_exactly_expired_leases:
  fixes now_ms :: int and m :: "int option"
  assumes "db_inv db" and "\<And>xs. set (order xs) = set xs"
  defines "db' \<equiv> snd (reap_expired order db now_ms m)"
  shows "\<exists>ids. fst (reap_expired order db now_ms m) = Inr ids \<and> sorted ids \<and> distinct ids
    \<and> (\<forall>k. k \<in> set ids \<longleftrightarrow> (\<exists>j. job_of db k = Some j \<and> expired now_ms j))
    \<and> (\<forall>k. job_of db' k =
          map_option (\<lambda>j. if expired now_ms j then reaped m db j else j) (job_of db k))
    \<and> (\<forall>k. attempt_of db' k = map_option (\<lambda>r.
          if ar_disposition r = Active \<and> k \<noteq> []
            \<and> (\<exists>i j. job_of db i = Some j \<and> expired now_ms j \<and> j_attempt_id j = Some k)
          then abandoned_row now_ms r else r) (attempt_of db k))"
proof -
  let ?rows = "expired_jobs db now_ms"
  note mem = expired_jobs_set [OF assms(1), of _ now_ms]
  note eff = reap_expired_effect [OF assms(1,2), of now_ms m, unfolded Let_def]
  have ids: "j_job_id j \<in> j_job_id ` set ?rows \<longleftrightarrow> expired now_ms j" if "job_of db k = Some j" for k j
    using that job_of_id [OF that] by (auto simp: mem)
  have "job_of db' k = map_option (\<lambda>j. if expired now_ms j then reaped m db j else j) (job_of db k)" for k
    unfolding db'_def eff using ids [of k]
    by (cases "job_of db k") (auto simp: reap_effect_def table_simps keeps_keyI)
  moreover have "attempt_of db' k = map_option (\<lambda>r.
          if ar_disposition r = Active \<and> k \<noteq> []
            \<and> (\<exists>i j. job_of db i = Some j \<and> expired now_ms j \<and> j_attempt_id j = Some k)
          then abandoned_row now_ms r else r) (attempt_of db k)" for k
  proof -
    have "Some k \<in> j_attempt_id ` set ?rows \<longleftrightarrow> (\<exists>j \<in> set ?rows. j_attempt_id j = Some k)"
      by (auto simp: image_iff) metis
    also have "\<dots> \<longleftrightarrow> (\<exists>i j. job_of db i = Some j \<and> expired now_ms j \<and> j_attempt_id j = Some k)"
      using mem job_of_id by blast
    finally have cur: "Some k \<in> j_attempt_id ` set ?rows \<longleftrightarrow>
        (\<exists>i j. job_of db i = Some j \<and> expired now_ms j \<and> j_attempt_id j = Some k)" .
    then have ab: "abandons ?rows r \<longleftrightarrow> ar_disposition r = Active \<and> k \<noteq> []
        \<and> (\<exists>i j. job_of db i = Some j \<and> expired now_ms j \<and> j_attempt_id j = Some k)"
      if "attempt_of db k = Some r" for r
      by (simp add: abandons_def attempt_of_id [OF that] cur)
    have "attempt_of db' k = map_option (\<lambda>r. if abandons ?rows r then abandoned_row now_ms r else r)
        (attempt_of db k)"
      unfolding db'_def eff by (simp add: reap_effect_def table_simps)
    then show ?thesis
      using ab by (cases "attempt_of db k") simp_all
  qed
  moreover have "k \<in> set (map j_job_id ?rows) \<longleftrightarrow> (\<exists>j. job_of db k = Some j \<and> expired now_ms j)" for k
    unfolding set_map image_iff Bex_def mem using job_of_id by metis
  moreover have "sorted (map j_job_id ?rows)"
    by (simp add: expired_jobs_def)
  moreover have "distinct (map j_job_id ?rows)"
    by (rule expired_jobs_mem(1) [OF assms(1)])
  ultimately show ?thesis
    unfolding eff fst_conv by blast
qed

theorem reap_releases_exactly_expired_leases_witness:
  "\<exists>ids. fst (reap_expired id ex_claimed 200 None) = Inr ids
     \<and> (\<forall>k. k \<in> set ids \<longleftrightarrow> (\<exists>j. job_of ex_claimed k = Some j \<and> expired 200 j))"
  using reap_releases_exactly_expired_leases [OF ex_claimed_inv, of id 200 None] by auto

text \<open>
  The order in which Python iterates over the set of affected runs does not matter: any
  two orders of the same elements give the same answer and the same database.
\<close>

lemma reap_order_irrelevant:
  assumes "db_inv db" and "\<And>xs. set (order xs) = set xs" and "\<And>xs. set (order' xs) = set xs"
  shows "reap_expired order db now_ms m = reap_expired order' db now_ms m"
  by (simp only: reap_expired_effect [OF assms(1,2)] reap_expired_effect [OF assms(1,3)])

lemma reap_order_irrelevant_witness:
  "reap_expired id ex_claimed 200 None = reap_expired rev ex_claimed 200 None"
  by (rule reap_order_irrelevant [OF ex_claimed_inv]) simp_all

end
