(* ===== verification/Queue_Lifecycle.thy ===== *)
theory Queue_Lifecycle
  imports Queue_Reap
begin

text \<open>
  Properties of whole executions: the lifecycle of a job as a refinement of an abstract
  machine, the finality of a cancellation, the bound on physical attempts, and the agreement
  of a finished run with its jobs.
\<close>

section \<open>The lifecycle of a job\<close>

datatype phase = Ready nat | Leased nat | Settled string | Given_up

text \<open>
  The abstract machine: a lease starts the next attempt, an expired one makes the job ready
  again, a settled job carries its attempt for good.
\<close>

inductive lifecycle :: "phase \<Rightarrow> phase \<Rightarrow> bool" where
  lease: "lifecycle (Ready n) (Leased (Suc n))"
| requeue: "lifecycle (Leased n) (Ready n)"
| settle: "lifecycle (Leased n) (Settled aid)"
| give_up: "lifecycle (Leased n) Given_up"
| cancel: "lifecycle (Ready n) Given_up"

inductive_simps lifecycle_simps:
  "lifecycle (Ready n) p" "lifecycle (Leased n) p" "lifecycle (Settled aid) p" "lifecycle Given_up p"

definition phase_of :: "Job \<Rightarrow> phase" where
  "phase_of j = (case j_selected_attempt_id j of Some aid \<Rightarrow> Settled aid
     | None \<Rightarrow> if j_state j = PENDING then Ready (nat (j_attempts_started j))
         else if leased j then Leased (nat (j_attempts_started j)) else Given_up)"

definition follows :: "db \<Rightarrow> db \<Rightarrow> bool" where
  "follows db db' \<longleftrightarrow> (\<forall>k j. job_of db k = Some j \<longrightarrow>
     (\<exists>j'. job_of db' k = Some j' \<and> lifecycle\<^sup>*\<^sup>* (phase_of j) (phase_of j')))"

lemma follows_jobs: "jobs db' = jobs db \<Longrightarrow> follows db db'"
  by (auto simp: follows_def)

lemma follows_trans: "follows a b \<Longrightarrow> follows b c \<Longrightarrow> follows a c"
  unfolding follows_def by (meson rtranclp_trans)

lemma follows_one:
  assumes "job_of db k = Some row"
    and "\<And>i. job_of db' i = (if i = k then Some row' else job_of db i)"
    and "lifecycle\<^sup>*\<^sup>* (phase_of row) (phase_of row')"
  shows "follows db db'"
  using assms by (auto simp: follows_def)

lemma job_of_update_one:
  assumes "job_of db k = Some row" and "keeps_key j_job_id f"
  shows "job_of (update_jobs (\<lambda>j. j_job_id j = k) f db) i
    = (if i = k then Some (f row) else job_of db i)"
proof (cases "i = k")
  case True
  then show ?thesis
    using assms job_of_id [OF assms(1)] by (simp add: frame_simps table_simps)
next
  case False
  then show ?thesis
    using assms(2)
    by (cases "job_of db i") (auto simp: frame_simps table_simps dest: job_of_id)
qed

lemma lifecycle_update:
  assumes "job_of db k = Some row" and "keeps_key j_job_id f"
    and "phase_of (f row) = phase_of row \<or> lifecycle (phase_of row) (phase_of (f row))"
  shows "follows db (update_jobs (\<lambda>j. j_job_id j = k) f db)"
  by (rule follows_one [OF assms(1) job_of_update_one [OF assms(1,2)]]) (use assms(3) in auto)

lemma work_follows:
  assumes "work db db'" and inv: "db_inv db"
  shows "follows db db'"
  using assms(1)
proof cases
  case (cancel rid)
  have step: "lifecycle\<^sup>*\<^sup>* (phase_of j)
      (phase_of (j\<lparr>j_state := FAILED, j_terminal_reason := Some ''CANCELLED''\<rparr>))"
    if "job_of db k = Some j" "j_state j = PENDING" for k j
    using that pending_not_selected [OF db_invD(2) [OF inv that(1)] that(2)]
    by (intro r_into_rtranclp) (simp add: phase_of_def leased_def lifecycle.cancel)
  show ?thesis
    unfolding cancel follows_def
  proof (intro allI impI)
    fix k j
    assume j: "job_of db k = Some j"
    show "\<exists>j'. job_of (fail_pending rid db) k = Some j' \<and> lifecycle\<^sup>*\<^sup>* (phase_of j) (phase_of j')"
      using j step [OF j] by (auto simp: job_of_fail_pending)
  qed
next
  case (claim k row aid token w e now_ms)
  note ji = db_invD(2) [OF inv claim(2)]
  let ?f = "claimed_row aid (j_fence row + 1) token w e (j_attempts_started row + 1)"
  have "phase_of row = Ready (nat (j_attempts_started row))"
    using claim(3) pending_not_selected [OF ji claim(3)] by (simp add: phase_of_def)
  moreover have "phase_of (?f row) = Leased (Suc (nat (j_attempts_started row)))"
    using pending_not_selected [OF ji claim(3)] ji
    by (simp add: phase_of_def claimed_row_def leased_def job_inv_def nat_add_distrib)
  ultimately have ph: "lifecycle\<^sup>*\<^sup>* (phase_of row) (phase_of (?f row))"
    by (auto intro: lifecycle.lease)
  have "job_of db' i = (if i = k then Some (?f row) else job_of db i)" for i
  proof (cases "i = k")
    case True
    then show ?thesis
      using claim(2,3) job_of_id [OF claim(2)] by (simp add: claim(1) claim_move_def table_simps)
  next
    case False
    then show ?thesis
      using job_of_id [OF claim(2)]
      by (cases "job_of db i") (auto simp: claim(1) claim_move_def table_simps dest: job_of_id)
  qed
  then show ?thesis by (rule follows_one [OF claim(2) _ ph])
next
  case (running k row)
  have "phase_of (row\<lparr>j_state := RUNNING\<rparr>) = phase_of row"
    using running(3) by (auto simp: phase_of_def leased_def split: option.split)
  then show ?thesis
    unfolding running(1) by (intro lifecycle_update [OF running(2)]) (auto intro: keeps_keyI)
next
  case (renew k row e)
  have "phase_of (row\<lparr>j_lease_expires_ms := Some e\<rparr>) = phase_of row"
    by (simp add: phase_of_def leased_def split: option.split)
  then show ?thesis
    unfolding renew(1) by (intro lifecycle_update [OF renew(2)]) (auto intro: keeps_keyI)
next
  case (commit k row att now_ms db1)
  have jobs: "jobs db1 = jobs db"
    using update_attempts_InrD(1) [OF commit(5)] by simp
  have "phase_of row = Leased (nat (j_attempts_started row))"
    using commit(3) leased_not_selected [OF db_invD(2) [OF inv commit(2)] commit(3)]
    by (simp add: phase_of_def)
  moreover have "phase_of (settled_row att row) = Settled (a_attempt_id att)"
    by (simp add: phase_of_def settled_row_def)
  ultimately have ph: "lifecycle (phase_of row) (phase_of (settled_row att row))"
    by (simp add: lifecycle.settle)
  have "job_of db1 k = Some row" using commit(2) jobs by simp
  from lifecycle_update [OF this, of "settled_row att"] ph show ?thesis
    unfolding commit(1) by (auto simp: follows_def jobs)
qed (auto simp: frame_simps dest!: update_attempts_InrD(1) intro!: follows_jobs)

lemma micro_follows:
  assumes "micro db db'" and inv: "db_inv db"
  shows "follows db db'"
  using assms(1)
proof cases
  case work
  then show ?thesis using inv by (rule work_follows)
next
  case (reap k row st reason)
  have "phase_of row = Leased (nat (j_attempts_started row))"
    using reap(3) leased_not_selected [OF db_invD(2) [OF inv reap(2)] reap(3)]
    by (simp add: phase_of_def)
  moreover have "phase_of (reaped_row st reason row) \<in> {Ready (nat (j_attempts_started row)), Given_up}"
    using reap(4) leased_not_selected [OF db_invD(2) [OF inv reap(2)] reap(3)]
    by (auto simp: phase_of_def reaped_row_def leased_def)
  ultimately show ?thesis
    unfolding reap(1)
    by (intro lifecycle_update [OF reap(2)]) (auto simp: lifecycle_simps)
qed

lemma queue_steps_rel:
  assumes "queue_steps db db'" and "db_inv db"
    and "\<And>s t. micro s t \<Longrightarrow> db_inv s \<Longrightarrow> R s t"
    and "\<And>s. R s s" and "\<And>s t u. R s t \<Longrightarrow> R t u \<Longrightarrow> R s u"
  shows "R db db'"
proof -
  have "queue_step\<^sup>*\<^sup>* db db'"
    using assms(1) by (simp add: queue_steps_rtranclp)
  from micro_system.moves_rel [OF queue_system.bigs_moves [OF this assms(2)] assms(2), of R]
  show ?thesis using assms(3-5) by blast
qed

text \<open>
  C2. Refinement: whatever the workers, the reaper and the controller do, every job moves
  along the abstract lifecycle, in which a settled job never moves again, and a lease is
  followed by a requeue, a settlement or the end.
\<close>

theorem jobs_follow_lifecycle:
  assumes "db_inv db" and "queue_steps db db'" and "job_of db k = Some j"
  shows "\<exists>j'. job_of db' k = Some j' \<and> lifecycle\<^sup>*\<^sup>* (phase_of j) (phase_of j')"
proof -
  have "follows db db'"
    by (rule queue_steps_rel [OF assms(2,1)])
      (auto intro: micro_follows follows_jobs follows_trans)
  with assms(3) show ?thesis by (simp add: follows_def)
qed

theorem jobs_follow_lifecycle_witness:
  "\<exists>j'. job_of ex_done ''a'' = Some j' \<and> lifecycle\<^sup>*\<^sup>* (Ready 0) (phase_of j')"
proof -
  have "queue_steps ex_db ex_done"
    using ex_claimed_steps queue_step.op [of ex_claimed "Op_complete ex_handle ex_attempt 120"]
    by (auto simp: ex_done_def intro: queue_steps.step)
  moreover have "job_of ex_db ''a'' = Some (ex_job ''a'')" by code_simp
  moreover have "phase_of (ex_job ''a'') = Ready 0"
    by (simp add: phase_of_def ex_job_def)
  ultimately show ?thesis
    using jobs_follow_lifecycle [OF planned_db_inv [OF ex_planned]] by metis
qed

section \<open>What no operation touches\<close>

definition job_keys :: "Job \<Rightarrow> (string \<times> string) \<times> (string \<times> string \<times> string \<times> int)" where
  "job_keys j = ((j_job_id j, j_run_id j), (j_task_key j, j_case_id j, j_verifier_key j, j_repetition j))"

definition static ::
    "db \<Rightarrow> ((string \<times> string) \<times> (string \<times> string \<times> string \<times> int)) list \<times> (string \<times> string) list
     \<times> manifest_row list" where
  "static db = (map job_keys (jobs db),
     map (\<lambda>u. (r_run_id u, r_manifest_hash u)) (runs db), manifests db)"

lemma map_update_where: "(\<And>r. g (f r) = g r) \<Longrightarrow> map g (update_where p f rows) = map g rows"
  by (simp add: update_where_def)

lemma static_update_jobs:
  "(\<And>j. job_keys (f j) = job_keys j) \<Longrightarrow> static (update_jobs p f db) = static db"
  by (simp add: static_def frame_simps map_update_where)

lemma static_update_runs:
  "(\<And>u. r_run_id (f u) = r_run_id u \<and> r_manifest_hash (f u) = r_manifest_hash u) \<Longrightarrow>
    static (update_runs p f db) = static db"
  by (simp add: static_def frame_simps map_update_where)

lemma static_update_run_state: "static (update_run_state rid now_ms db) = static db"
  by (rule update_run_state_cases [of rid now_ms db])
    (auto simp: keeps_key_def intro: static_update_runs)

lemma static_update_attempts: "update_attempts p f db = Inr db' \<Longrightarrow> static db' = static db"
  by (auto simp: static_def dest: update_attempts_InrD(1))

lemma static_claim_move: "static (claim_move row aid token w e now_ms db) = static db"
  by (simp add: static_def claim_move_def map_update_where claimed_row_def job_keys_def)

lemma work_static: "work db db' \<Longrightarrow> static db' = static db"
  by (elim work_from)
    (auto simp: static_update_run_state static_update_jobs static_update_runs fail_pending_def
      static_update_attempts settled_row_def static_claim_move job_keys_def)

lemma micro_static: "micro db db' \<Longrightarrow> static db' = static db"
  by (cases rule: micro.cases) (auto simp: work_static static_update_jobs reaped_row_def job_keys_def)

lemma lookup_static:
  "lookup_row r_run_id rows k = None \<longleftrightarrow> k \<notin> fst ` set (map (\<lambda>u. (r_run_id u, r_manifest_hash u)) rows)"
  "map_option r_manifest_hash (lookup_row r_run_id rows k)
    = map_of (map (\<lambda>u. (r_run_id u, r_manifest_hash u)) rows) k"
  by (induction rows) auto

lemma manifest_limit_static:
  assumes "static db' = static db"
  shows "manifest_limit db' = manifest_limit db"
proof
  fix rid
  have "map_option r_manifest_hash (run_of db' rid) = map_option r_manifest_hash (run_of db rid)"
    using assms by (simp add: lookup_static(2) static_def)
  moreover have "manifests db' = manifests db" using assms by (simp add: static_def)
  ultimately show "manifest_limit db' rid = manifest_limit db rid"
    by (cases "run_of db rid"; cases "run_of db' rid")
      (auto simp: manifest_limit_def split: option.split)
qed

section \<open>Cancellation\<close>

text \<open>
  In a cancelled run no job is pending, so none will be leased; \<open>halts rid\<close> relates two states
  when this stays so and no job of the run starts another attempt.
\<close>

definition halted :: "string \<Rightarrow> db \<Rightarrow> bool" where
  "halted rid db \<longleftrightarrow> run_cancelled db rid
     \<and> (\<forall>k j. job_of db k = Some j \<longrightarrow> j_run_id j = rid \<longrightarrow> j_state j \<noteq> PENDING)"

definition halts :: "string \<Rightarrow> db \<Rightarrow> db \<Rightarrow> bool" where
  "halts rid db db' \<longleftrightarrow> (halted rid db \<longrightarrow> halted rid db'
     \<and> (\<forall>k j. job_of db k = Some j \<longrightarrow> j_run_id j = rid \<longrightarrow>
          (\<exists>j'. job_of db' k = Some j' \<and> j_run_id j' = rid \<and> j_fence j' = j_fence j)))"

lemma halts_refl: "halts rid db db"
  by (auto simp: halts_def)

lemma halts_trans: "halts rid a b \<Longrightarrow> halts rid b c \<Longrightarrow> halts rid a c"
  unfolding halts_def by metis

lemma halts_same_jobs:
  "jobs db' = jobs db \<Longrightarrow> (run_cancelled db rid \<Longrightarrow> run_cancelled db' rid) \<Longrightarrow> halts rid db db'"
  by (auto simp: halts_def halted_def)

lemma halts_update_jobs:
  assumes "keeps_key j_job_id f"
    and "\<And>k j. job_of db k = Some j \<Longrightarrow> p j \<Longrightarrow> run_cancelled db (j_run_id j) \<Longrightarrow>
      j_run_id (f j) = j_run_id j \<and> j_fence (f j) = j_fence j
        \<and> (j_state j \<noteq> PENDING \<longrightarrow> j_state (f j) \<noteq> PENDING)"
    and "\<And>k j. job_of db k = Some j \<Longrightarrow> p j \<Longrightarrow> j_run_id (f j) = j_run_id j"
  shows "halts rid db (update_jobs p f db)"
  unfolding halts_def
proof (intro impI conjI allI)
  assume halt: "halted rid db"
  have old: "job_of (update_jobs p f db) k = map_option (\<lambda>j. if p j then f j else j) (job_of db k)"
    for k using assms(1) by (simp add: frame_simps table_simps)
  show "halted rid (update_jobs p f db)"
    using halt assms(2,3) by (fastforce simp: halted_def frame_simps(11) old run_cancelled_frame)
  fix k j
  assume "job_of db k = Some j" and "j_run_id j = rid"
  then show "\<exists>j'. job_of (update_jobs p f db) k = Some j' \<and> j_run_id j' = rid \<and> j_fence j' = j_fence j"
    using halt assms(2) [of k j] by (auto simp: old halted_def)
qed

lemma halts_cong:
  assumes "jobs db'' = jobs db'" and "runs db'' = runs db'"
  shows "halts rid db db'' = halts rid db db'"
  using assms by (simp add: halts_def halted_def run_cancelled_def)

lemma work_halts:
  assumes "work db db'" and inv: "db_inv db"
  shows "halts rid db db'"
  using assms(1)
proof cases
  case (recompute r now_ms)
  then show ?thesis by (auto simp: frame_simps intro!: halts_same_jobs)
next
  case (flag r)
  then show ?thesis
    by (auto simp: frame_simps run_cancelled_def table_simps keeps_keyI split: option.splits
        intro!: halts_same_jobs)
next
  case (cancel r)
  then show ?thesis
    unfolding cancel fail_pending_def by (intro halts_update_jobs) auto
next
  case (claim k row aid token w e now_ms)
  let ?upd = "update_jobs (\<lambda>j. j_job_id j = j_job_id row \<and> j_state j = PENDING)
    (claimed_row aid (j_fence row + 1) token w e (j_attempts_started row + 1)) db"
  have "j = row" if "job_of db i = Some j" "j_job_id j = j_job_id row" for i j
    using that claim(2) job_of_id [OF claim(2)] job_of_id [OF that(1)] by simp
  then have "halts rid db ?upd"
    using claim(5) by (intro halts_update_jobs) (auto simp: claimed_row_def)
  moreover have "halts rid db db' = halts rid db ?upd"
    by (rule halts_cong) (simp_all add: claim(1) claim_move_def frame_simps)
  ultimately show ?thesis by simp
next
  case (running k row)
  then show ?thesis unfolding running(1) by (intro halts_update_jobs) auto
next
  case (renew k row e)
  then show ?thesis unfolding renew(1) by (intro halts_update_jobs) auto
next
  case (quarantine p f)
  then have "jobs db' = jobs db" "runs db' = runs db"
    using update_attempts_InrD(1) by fastforce+
  then show ?thesis by (intro halts_same_jobs) (simp_all add: run_cancelled_def)
next
  case (commit k row att now_ms db1)
  have "db1 = db\<lparr>attempts := attempts db1\<rparr>"
    using update_attempts_InrD(1) [OF commit(5)] by simp
  then have "jobs db1 = jobs db" "runs db1 = runs db" by (metis db.select_convs db.surjective db.update_convs)+
  moreover have "halts rid db1 db'"
    unfolding commit(1)
    by (intro halts_update_jobs) (auto simp: settled_row_def terminal_state_of_def)
  ultimately show ?thesis by (simp add: halts_def halted_def run_cancelled_def)
qed

lemma micro_halts:
  assumes "micro db db'" and inv: "db_inv db"
  shows "halts rid db db'"
  using assms(1)
proof cases
  case work
  then show ?thesis using inv by (rule work_halts)
next
  case (reap k row st reason)
  have "j = row" if "job_of db i = Some j" "j_job_id j = k" for i j
    using that reap(2) job_of_id [OF that(1)] by simp
  then show ?thesis
    unfolding reap(1) using reap(5)
    by (intro halts_update_jobs) (auto simp: reaped_row_def)
qed

text \<open>
  C10. A cancellation is final: once \<open>request_cancel\<close> has returned, whatever happens next the
  run stays cancelled, none of its jobs is ever pending again, and none starts another
  attempt, so each is finished or runs out under the lease it already had.
\<close>

theorem cancellation_is_final:
  assumes "db_inv db" and "run_of db rid \<noteq> None"
    and "queue_steps (snd (request_cancel db rid now_ms)) db'"
    and "job_of (snd (request_cancel db rid now_ms)) k = Some j" and "j_run_id j = rid"
  shows "run_cancelled db' rid \<and> (\<exists>j'. job_of db' k = Some j' \<and> j_state j' \<noteq> PENDING
    \<and> j_fence j' = j_fence j \<and> j_attempts_started j' = j_attempts_started j)"
proof -
  let ?db1 = "snd (request_cancel db rid now_ms)"
  let ?flag = "update_runs (\<lambda>r. r_run_id r = rid) (\<lambda>r. r\<lparr>r_cancel_requested := True\<rparr>) db"
  have db1: "?db1 = update_run_state rid now_ms (fail_pending rid ?flag)"
    by (simp add: request_cancel_def in_transaction_def request_cancel_body_def)
  have inv1: "db_inv ?db1"
    using run_op_preserve(1) [OF assms(1), of "Op_cancel rid now_ms"] by simp
  from assms(2) obtain u where u: "run_of db rid = Some u" by blast
  have "run_cancelled ?flag rid"
    using u run_table.look_key [OF u]
    by (simp add: run_cancelled_def frame_simps table_simps keeps_keyI)
  then have "run_cancelled ?db1 rid"
    unfolding db1 by (simp add: frame_simps)
  moreover have "j_state j \<noteq> PENDING"
    if j: "job_of ?db1 k = Some j" "j_run_id j = rid" for k j
  proof -
    from j(1) obtain a where "j = (if j_run_id a = rid \<and> j_state a = PENDING
        then a\<lparr>j_state := FAILED, j_terminal_reason := Some ''CANCELLED''\<rparr> else a)"
      unfolding db1 update_run_state_frame job_of_fail_pending by blast
    then show ?thesis
      using j(2) by (cases "j_run_id a = rid \<and> j_state a = PENDING") auto
  qed
  ultimately have "halted rid ?db1"
    by (simp add: halted_def)
  moreover have "halts rid ?db1 db'"
    by (rule queue_steps_rel [OF assms(3) inv1])
      (auto intro: micro_halts halts_refl halts_trans)
  ultimately obtain j' where "halted rid db'" "job_of db' k = Some j'" "j_run_id j' = rid"
    "j_fence j' = j_fence j"
    using assms(4,5) unfolding halts_def by blast
  moreover have "j_attempts_started j = j_fence j" "j_attempts_started j' = j_fence j'"
    using db_invD(2) [OF inv1 assms(4)]
      db_invD(2) [OF queue_steps_preserve(1) [OF assms(3) inv1] \<open>job_of db' k = Some j'\<close>]
    by (simp_all add: job_inv_def)
  ultimately show ?thesis by (auto simp: halted_def)
qed

definition ex_cancelled :: db where
  "ex_cancelled = snd (request_cancel ex_claimed ''run'' 130)"

theorem cancellation_is_final_witness:
  "run_cancelled (run_op (Op_reap id 1000 None) ex_cancelled) ''run''"
proof -
  have "run_of ex_claimed ''run'' \<noteq> None" by code_simp
  moreover have "queue_steps ex_cancelled (run_op (Op_reap id 1000 None) ex_cancelled)"
    by (blast intro: queue_steps.intros queue_step.op)
  moreover obtain j where "job_of ex_cancelled ''b'' = Some j" "j_run_id j = ''run''"
  proof -
    have "case job_of ex_cancelled ''b'' of None \<Rightarrow> False | Some j \<Rightarrow> j_run_id j = ''run''"
      by code_simp
    then show thesis using that by (auto split: option.splits)
  qed
  ultimately show ?thesis
    using cancellation_is_final [OF ex_claimed_inv] unfolding ex_cancelled_def by blast
qed

section \<open>The number of attempts\<close>

text \<open>
  \<open>M\<close> bounds what the manifests grant; \<open>in_budget M\<close> says that no job has started more than
  \<open>M\<close> attempts and that a pending job may start one more.
\<close>

definition in_budget :: "int \<Rightarrow> db \<Rightarrow> bool" where
  "in_budget M db \<longleftrightarrow> (\<forall>k j. job_of db k = Some j \<longrightarrow>
     j_attempts_started j \<le> M \<and> (j_state j = PENDING \<longrightarrow> j_attempts_started j < M))"

definition limits_within :: "int \<Rightarrow> db \<Rightarrow> bool" where
  "limits_within M db \<longleftrightarrow> (\<forall>j \<in> set (jobs db). manifest_limit db (j_run_id j) \<le> M)"

text \<open>A reaper called with an explicit limit stays below \<open>M\<close> as well.\<close>

fun grants_at_most :: "int \<Rightarrow> queue_op \<Rightarrow> bool" where
  "grants_at_most M (Op_reap order now (Some m)) \<longleftrightarrow> m \<le> M \<and> (\<forall>xs. set (order xs) = set xs)"
| "grants_at_most M (Op_reap order now None) \<longleftrightarrow> (\<forall>xs. set (order xs) = set xs)"
| "grants_at_most M _ \<longleftrightarrow> True"

lemma in_budgetD: "in_budget M db \<Longrightarrow> job_of db k = Some j \<Longrightarrow> j_attempts_started j \<le> M"
  by (simp add: in_budget_def)

lemma in_budget_same_jobs: "jobs db' = jobs db \<Longrightarrow> in_budget M db' = in_budget M db"
  by (simp add: in_budget_def)

lemma in_budget_update_jobs:
  assumes "in_budget M db" and "keeps_key j_job_id f"
    and "\<And>k j. job_of db k = Some j \<Longrightarrow> p j \<Longrightarrow> j_attempts_started (f j) \<le> M
      \<and> (j_state (f j) = PENDING \<longrightarrow> j_attempts_started (f j) < M)"
  shows "in_budget M (update_jobs p f db)"
  using assms by (auto simp: in_budget_def frame_simps table_simps split: if_splits)

lemma work_in_budget:
  assumes "work db db'" and "in_budget M db"
  shows "in_budget M db'"
  using assms(1)
proof cases
  case (cancel rid)
  then show ?thesis
    unfolding cancel fail_pending_def
    by (intro in_budget_update_jobs [OF assms(2)]) (use assms(2) in \<open>auto simp: in_budget_def\<close>)
next
  case (claim k row aid token w e now_ms)
  let ?upd = "update_jobs (\<lambda>j. j_job_id j = j_job_id row \<and> j_state j = PENDING)
    (claimed_row aid (j_fence row + 1) token w e (j_attempts_started row + 1)) db"
  have "j_attempts_started row < M"
    using assms(2) claim(2,3) by (simp add: in_budget_def)
  then have "in_budget M ?upd"
    by (intro in_budget_update_jobs [OF assms(2)]) (auto simp: claimed_row_def)
  moreover have "in_budget M db' = in_budget M ?upd"
    by (rule in_budget_same_jobs) (simp add: claim(1) claim_move_def frame_simps)
  ultimately show ?thesis by simp
next
  case (running k row)
  then show ?thesis
    unfolding running(1)
    by (intro in_budget_update_jobs [OF assms(2)]) (use assms(2) in \<open>auto simp: in_budget_def\<close>)
next
  case (renew k row e)
  then show ?thesis
    unfolding renew(1)
    by (intro in_budget_update_jobs [OF assms(2)]) (use assms(2) in \<open>auto simp: in_budget_def\<close>)
next
  case (commit k row att now_ms db1)
  have "jobs db1 = jobs db"
    using update_attempts_InrD(1) [OF commit(5)] by simp
  then have "in_budget M db1" by (rule iffD2 [OF in_budget_same_jobs assms(2)])
  then show ?thesis
    unfolding commit(1)
    by (intro in_budget_update_jobs)
      (auto simp: settled_row_def terminal_state_of_def dest: in_budgetD)
qed (auto simp: frame_simps dest!: update_attempts_InrD(1)
    intro!: iffD2 [OF in_budget_same_jobs assms(2)])

interpretation work_budget: invariant_system work "in_budget M"
  by unfold_locales (rule work_in_budget)

lemma reap_in_budget:
  assumes inv: "db_inv db" and "in_budget M db" and "limits_within M db"
    and "\<And>xs. set (order xs) = set xs" and "opt_all (\<lambda>x. x \<le> M) m"
  shows "in_budget M (snd (reap_expired order db now_ms m))"
proof -
  have "j_attempts_started (reaped m db j) \<le> M
      \<and> (j_state (reaped m db j) = PENDING \<longrightarrow> j_attempts_started (reaped m db j) < M)"
    if "job_of db k = Some j" for k j
  proof -
    have "reap_limit m db (j_run_id j) \<le> M"
      using assms(3,5) that by (cases m) (auto simp: reap_limit_def limits_within_def dest: lookup_row_SomeD)
    then show ?thesis
      using assms(2) that by (auto simp: in_budget_def reaped_def reaped_row_def)
  qed
  then have "in_budget M (update_jobs (\<lambda>j. j_job_id j \<in> j_job_id ` set (expired_jobs db now_ms))
      (reaped m db) db)"
    by (intro in_budget_update_jobs [OF assms(2)]) auto
  then show ?thesis
    unfolding reap_expired_effect [OF inv assms(4)] Let_def
    by (rule subst [OF in_budget_same_jobs, rotated]) (simp add: reap_effect_def frame_simps)
qed

lemma limits_within_static:
  assumes "static db' = static db"
  shows "limits_within M db' = limits_within M db"
proof -
  have "limits_within M d \<longleftrightarrow> (\<forall>rid \<in> (snd \<circ> fst) ` set (fst (static d)). manifest_limit d rid \<le> M)" for d
    by (simp add: limits_within_def static_def job_keys_def)
  then show ?thesis
    by (simp add: assms manifest_limit_static [OF assms])
qed

lemma run_op_static: "db_inv db \<Longrightarrow> static (run_op p db) = static db"
proof -
  assume inv: "db_inv db"
  have "micro\<^sup>*\<^sup>* db db' \<Longrightarrow> static db' = static db" for db'
    by (induction rule: rtranclp_induct) (auto dest: micro_static)
  with run_op_micro [OF inv] show ?thesis by blast
qed

lemma run_op_in_budget:
  assumes "db_inv db" and "in_budget M db" and "limits_within M db" and "grants_at_most M p"
  shows "in_budget M (run_op p db)"
proof (cases "is_reap p")
  case True
  then obtain order now_ms m where p: "p = Op_reap order now_ms m" by (cases p) auto
  then have "\<And>xs. set (order xs) = set xs" and "opt_all (\<lambda>x. x \<le> M) m"
    using assms(4) by (cases m; simp)+
  then show ?thesis
    using reap_in_budget [OF assms(1-3)] by (simp add: p)
next
  case False
  then show ?thesis
    using work_budget.moves_inv [OF run_op_work [OF assms(1)] assms(2)] by simp
qed

lemma fold_run_op_in_budget:
  assumes "db_inv db" and "in_budget M db" and "limits_within M db" and "list_all (grants_at_most M) ps"
  shows "in_budget M (fold run_op ps db) \<and> db_inv (fold run_op ps db)"
  using assms
proof (induction ps arbitrary: db)
  case (Cons p ps)
  then show ?case
    using run_op_in_budget [of db M p] run_op_preserve(1) [of db p] run_op_static [of db p]
      limits_within_static [of "run_op p db" db M] by simp
qed simp

text \<open>The attempts of a job carry different fences between 1 and the fence of the job.\<close>

lemma attempts_of_job_bound:
  assumes inv: "db_inv db" and j: "job_of db k = Some j"
  shows "length (filter (\<lambda>r. ar_job_id r = k) (attempts db)) \<le> nat (j_attempts_started j)"
proof -
  let ?rs = "filter (\<lambda>r. ar_job_id r = k) (attempts db)"
  have mem: "attempt_of db (ar_attempt_id r) = Some r" "ar_job_id r = k" if "r \<in> set ?rs" for r
    using that db_keysD(2) [OF db_invD(1) [OF inv]] by auto
  have "inj_on ar_fence (set ?rs)"
  proof (rule inj_onI)
    fix r q
    assume r: "r \<in> set ?rs" and q: "q \<in> set ?rs" and "ar_fence r = ar_fence q"
    then have "ar_attempt_id r = ar_attempt_id q"
      using db_invD(4) [OF inv] mem [OF r] mem [OF q] unfolding fence_unique_def by metis
    with mem(1) [OF r] mem(1) [OF q] show "r = q" by (metis option.inject)
  qed
  moreover have "distinct ?rs"
    using db_invD(1) [OF inv] by (auto simp: db_keys_def distinct_map)
  ultimately have "length ?rs = card (ar_fence ` set ?rs)"
    using distinct_card [of ?rs] by (simp only: card_image)
  also have "ar_fence ` set ?rs \<subseteq> {1..j_fence j}"
  proof
    fix f
    assume "f \<in> ar_fence ` set ?rs"
    then obtain r where r: "r \<in> set ?rs" and f: "f = ar_fence r" by blast
    from db_invD(3) [OF inv mem(1) [OF r]] mem(2) [OF r] j f show "f \<in> {1..j_fence j}"
      by (auto simp: row_inv_def attempt_check_def)
  qed
  then have "card (ar_fence ` set ?rs) \<le> card {1..j_fence j}"
    by (rule card_mono [rotated]) simp
  also have "\<dots> = nat (j_attempts_started j)"
    using db_invD(2) [OF inv j] by (simp add: job_inv_def)
  finally show ?thesis .
qed

text \<open>
  C6. Bounded retries: when no manifest and no explicit limit of the reaper grants more than
  \<open>M \<ge> 1\<close> attempts, no sequence of operations starts more than \<open>M\<close> attempts of a job, nor
  records more than \<open>M\<close> attempt rows for it, however often workers crash.
\<close>

theorem attempts_bounded_by_manifest:
  assumes "planned_db db" and "1 \<le> M" and "limits_within M db"
    and "list_all (grants_at_most M) ps" and "job_of (fold run_op ps db) k = Some j"
  shows "j_attempts_started j \<le> M
    \<and> int (length (filter (\<lambda>r. ar_job_id r = k) (attempts (fold run_op ps db)))) \<le> M"
proof -
  have "in_budget M db"
    using assms(1,2)
    by (auto simp: in_budget_def planned_db_def planned_job_def list_all_iff dest!: lookup_row_SomeD)
  note * = fold_run_op_in_budget [OF planned_db_inv [OF assms(1)] this assms(3,4)]
  then have "j_attempts_started j \<le> M"
    using assms(5) by (simp add: in_budget_def)
  moreover have "0 \<le> j_attempts_started j"
    using db_invD(2) [OF conjunct2 [OF *] assms(5)] by (simp add: job_inv_def)
  ultimately show ?thesis
    using attempts_of_job_bound [OF conjunct2 [OF *] assms(5)] by linarith
qed

definition ex_crashes :: "queue_op list" where
  "ex_crashes = [Op_claim ''w'' 100 None 50 (\<lambda>n. (''u1'', ''t1'')), Op_reap id 200 None,
     Op_claim ''w'' 300 None 50 (\<lambda>n. (''u2'', ''t2'')), Op_reap id 400 None]"

theorem attempts_bounded_by_manifest_witness:
  "\<exists>j. job_of (fold run_op ex_crashes ex_db) ''a'' = Some j \<and> j_state j = FAILED
     \<and> j_attempts_started j \<le> 2"
proof -
  obtain j where j: "job_of (fold run_op ex_crashes ex_db) ''a'' = Some j" "j_state j = FAILED"
  proof -
    have "case job_of (fold run_op ex_crashes ex_db) ''a'' of None \<Rightarrow> False
      | Some j \<Rightarrow> j_state j = FAILED" by code_simp
    then show thesis using that by (auto split: option.splits)
  qed
  have "limits_within 2 ex_db" by code_simp
  moreover have "list_all (grants_at_most 2) ex_crashes" by (simp add: ex_crashes_def)
  ultimately show ?thesis
    using attempts_bounded_by_manifest [OF ex_planned _ _ _ j(1), of 2] j by auto
qed

section \<open>Finished runs\<close>

text \<open>
  C9. The state of a finished run is the truth about its jobs, in every reachable database: a
  \<open>COMPLETE\<close> run has only \<open>DONE\<close> jobs, each with one authoritative attempt that is not an
  error; a \<open>FAILED\<close> run has only finished jobs, one of them failed; a \<open>CANCELLED\<close> run was
  cancelled on request.
\<close>

theorem finished_run_reports_its_jobs:
  assumes "planned_db db" and "queue_steps db db'" and "run_of db' rid = Some u"
  shows "(r_state u = Run_COMPLETE \<longrightarrow> (\<forall>k j. job_of db' k = Some j \<longrightarrow> j_run_id j = rid \<longrightarrow>
            j_state j = DONE \<and> (\<exists>aid r. j_selected_attempt_id j = Some aid
              \<and> attempt_of db' aid = Some r \<and> ar_disposition r = Authoritative
              \<and> ar_job_id r = k \<and> ar_outcome r \<noteq> Some Error)))
       \<and> (r_state u = Run_FAILED \<longrightarrow>
            (\<forall>k j. job_of db' k = Some j \<longrightarrow> j_run_id j = rid \<longrightarrow> j_state j \<in> {DONE, FAILED})
            \<and> (\<exists>k j. job_of db' k = Some j \<and> j_run_id j = rid \<and> j_state j = FAILED))
       \<and> (r_state u = Run_CANCELLED \<longrightarrow> r_cancel_requested u
            \<and> (\<forall>k j. job_of db' k = Some j \<longrightarrow> j_run_id j = rid \<longrightarrow> j_state j \<in> {DONE, FAILED}))"
proof -
  have inv: "db_inv db'"
    by (rule queue_steps_preserve(1) [OF assms(2) planned_db_inv [OF assms(1)]])
  have rid: "r_run_id u = rid" by (rule run_table.look_key [OF assms(3)])
  note ri = db_invD(5) [OF inv assms(3), unfolded run_inv_def rid run_terminal_def]
  have sel: "\<exists>aid r. j_selected_attempt_id j = Some aid \<and> attempt_of db' aid = Some r
      \<and> ar_disposition r = Authoritative \<and> ar_job_id r = k \<and> ar_outcome r \<noteq> Some Error"
    if "job_of db' k = Some j" "j_state j = DONE" for k j
    using db_invD(2) [OF inv that(1)] that(2) job_of_id [OF that(1)]
    by (auto simp: job_inv_def)
  show ?thesis
    using ri sel by simp
qed

definition ex_finished :: "queue_op list" where
  "ex_finished = [Op_claim ''w'' 100 None 50 ex_fresh, Op_complete ex_handle ex_attempt 120,
     Op_cancel ''run'' 130]"

lemma fold_run_op_steps: "queue_steps db (fold run_op ps db)"
proof (induction ps rule: rev_induct)
  case Nil
  show ?case by (simp add: queue_steps.start)
next
  case (snoc p ps)
  then show ?case by (simp add: queue_steps.step queue_step.op)
qed

theorem finished_run_reports_its_jobs_witness:
  "\<exists>u. run_of (fold run_op ex_finished ex_db) ''run'' = Some u \<and> r_state u = Run_CANCELLED
     \<and> r_cancel_requested u"
proof -
  have "case run_of (fold run_op ex_finished ex_db) ''run'' of None \<Rightarrow> False
    | Some u \<Rightarrow> r_state u = Run_CANCELLED" by code_simp
  then obtain u where "run_of (fold run_op ex_finished ex_db) ''run'' = Some u"
    "r_state u = Run_CANCELLED" by (auto split: option.splits)
  then show ?thesis
    using finished_run_reports_its_jobs [OF ex_planned fold_run_op_steps] by blast
qed

end
