(* ===== verification/Py_Text.thy ===== *)
theory Py_Text
  imports Prelude "HOL-Library.Sublist"
begin

text \<open>
  What the code uses of Python's strings and bytes. A \<open>str\<close> is the list of bytes of its UTF-8
  encoding, so the methods below that look at code points read one to three bytes at a time.
\<close>

section \<open>White space\<close>

text \<open>\<open>bytes.strip\<close> knows the six ASCII white-space bytes only.\<close>

definition bytes_space :: "char \<Rightarrow> bool" where
  "bytes_space c \<longleftrightarrow> of_char c \<in> {9, 10, 11, 12, 13, 32 :: nat}"

definition bytes_blank :: "string \<Rightarrow> bool" where
  "bytes_blank s \<longleftrightarrow> list_all bytes_space s"

text \<open>
  \<open>str.isspace\<close>: the number of bytes of the white-space character at the front, 0 if there is
  none. Beyond ASCII these are U+0085, U+00A0, U+1680, U+2000 to U+200A, U+2028, U+2029,
  U+202F, U+205F and U+3000.
\<close>

fun space_width :: "nat list \<Rightarrow> nat" where
  "space_width [] = 0"
| "space_width (a # cs) =
    (if (9 \<le> a \<and> a \<le> 13) \<or> (28 \<le> a \<and> a \<le> 32) then 1
     else case cs of [] \<Rightarrow> 0
       | b # cs' \<Rightarrow>
         if a = 194 \<and> (b = 133 \<or> b = 160) then 2
         else case cs' of [] \<Rightarrow> 0
           | c # _ \<Rightarrow>
             if (a = 225 \<and> b = 154 \<and> c = 128)
               \<or> (a = 226 \<and> b = 128 \<and> ((128 \<le> c \<and> c \<le> 138) \<or> c = 168 \<or> c = 169 \<or> c = 175))
               \<or> (a = 226 \<and> b = 129 \<and> c = 159)
               \<or> (a = 227 \<and> b = 128 \<and> c = 128)
             then 3 else 0)"

definition utf8_codes :: "string \<Rightarrow> nat list" where
  "utf8_codes s = map of_char s"

text \<open>\<open>str.lstrip\<close>\<close>

function lstrip :: "string \<Rightarrow> string" where
  "lstrip s = (if space_width (utf8_codes s) = 0 then s else lstrip (drop (space_width (utf8_codes s)) s))"
  by pat_completeness auto
termination
proof (relation "measure length")
  fix s
  assume *: "space_width (utf8_codes s) \<noteq> 0"
  then have "s \<noteq> []" by (auto simp: utf8_codes_def)
  with * show "(drop (space_width (utf8_codes s)) s, s) \<in> measure length" by simp
qed simp

declare lstrip.simps [simp del]

lemma lstrip_Nil [simp]: "lstrip [] = []"
  by (simp add: lstrip.simps utf8_codes_def)

text \<open>\<open>not s.strip()\<close>: nothing but white space.\<close>

definition blank :: "string \<Rightarrow> bool" where
  "blank s \<longleftrightarrow> lstrip s = []"

section \<open>Case\<close>

definition ascii_lower :: "char \<Rightarrow> char" where
  "ascii_lower c = (let n = of_char c :: nat in if 65 \<le> n \<and> n \<le> 90 then char_of (n + 32) else c)"

text \<open>
  \<open>str.lower\<close> as far as a comparison with an ASCII word can see it: the only code points beyond
  ASCII that become an ASCII letter used in such a word is the Kelvin sign U+212A, which
  becomes \<open>k\<close>. Other code points beyond ASCII are left as they are.
\<close>

fun lower :: "string \<Rightarrow> string" where
  "lower (a # b # c # cs) =
    (if of_char a = (226 :: nat) \<and> of_char b = (132 :: nat) \<and> of_char c = (170 :: nat)
     then CHR ''k'' # lower cs else ascii_lower a # lower (b # c # cs))"
| "lower [a, b] = [ascii_lower a, ascii_lower b]"
| "lower [a] = [ascii_lower a]"
| "lower [] = []"

section \<open>Searching\<close>

text \<open>\<open>sub in s\<close>\<close>

definition contains :: "string \<Rightarrow> string \<Rightarrow> bool" where
  "contains sub s \<longleftrightarrow> list_ex (prefix sub) (suffixes s)"

lemma contains_iff: "contains sub s \<longleftrightarrow> sublist sub s"
proof -
  have "contains sub s \<longleftrightarrow> (\<exists>t. suffix t s \<and> prefix sub t)"
    by (auto simp: contains_def list_ex_iff)
  also have "\<dots> \<longleftrightarrow> sublist sub s"
    by (auto simp: sublist_def prefix_def suffix_def)
  finally show ?thesis .
qed

section \<open>Decimal numbers\<close>

fun digits :: "nat \<Rightarrow> string" where
  "digits n = (if n < 10 then [char_of (48 + n)] else digits (n div 10) @ [char_of (48 + n mod 10)])"

declare digits.simps [simp del]

text \<open>\<open>str(n)\<close> of an \<open>int\<close>\<close>

definition str_of_int :: "int \<Rightarrow> string" where
  "str_of_int n = (if n < 0 then CHR ''-'' # digits (nat (- n)) else digits (nat n))"

definition digit_char :: "char \<Rightarrow> bool" where
  "digit_char c \<longleftrightarrow> 48 \<le> (of_char c :: nat) \<and> of_char c \<le> (57 :: nat)"

definition digits_value :: "string \<Rightarrow> nat" where
  "digits_value s = foldl (\<lambda>v c. 10 * v + (of_char c - 48)) 0 s"

lemma of_char_digit: "n < 10 \<Longrightarrow> of_char (char_of (48 + n) :: char) = (48 + n :: nat)"
  by simp

lemma digits_digit: "list_all digit_char (digits n)"
proof (induction n rule: digits.induct)
  case (1 n)
  have "digit_char (char_of (48 + m))" if "m < 10" for m :: nat
    using that by (simp add: digit_char_def)
  then show ?case
    using 1 by (subst digits.simps) auto
qed

lemma digits_not_Nil [simp]: "digits n \<noteq> []"
  by (subst digits.simps) simp

lemma digits_value_digits: "digits_value (digits n) = n"
proof (induction n rule: digits.induct)
  case (1 n)
  show ?case
  proof (cases "n < 10")
    case True
    then show ?thesis by (subst digits.simps) (simp add: digits_value_def)
  next
    case False
    from 1 [OF False] have "foldl (\<lambda>v c. 10 * v + (of_char c - 48)) 0 (digits (n div 10)) = n div 10"
      by (simp add: digits_value_def)
    with False show ?thesis
      by (subst digits.simps) (simp add: digits_value_def)
  qed
qed

lemma digits_inj: "digits m = digits n \<Longrightarrow> m = n"
  by (metis digits_value_digits)

lemma digits_hd: "digits n \<noteq> CHR ''-'' # s"
proof
  assume "digits n = CHR ''-'' # s"
  with digits_digit [of n] show False by (simp add: digit_char_def)
qed

lemma str_of_int_inj: "str_of_int m = str_of_int n \<Longrightarrow> m = n"
proof -
  assume eq: "str_of_int m = str_of_int n"
  have "m < 0 \<longleftrightarrow> n < 0"
    using eq digits_hd [of "nat m"] digits_hd [of "nat n"]
    by (auto simp: str_of_int_def split: if_splits) (metis digits_hd)+
  with eq show "m = n"
    by (auto simp: str_of_int_def split: if_splits dest!: digits_inj)
qed

end
