(* ===== verification/Canonical_Json.thy ===== *)
theory Canonical_Json
  imports Models Py_Text
begin

text \<open>
  Canonical JSON: \<open>canonical_repr\<close> and \<open>canonical_bytes\<close> of \<open>src/src/verifierci/models/task.py\<close>
  with the fragment of \<open>json.dumps\<close> they use, and the proof that the bytes determine the value
  up to the order of keys. The shortest decimal of a float (\<open>float.__repr__\<close>) is a parameter.
\<close>

section \<open>Values\<close>

datatype json =
    J_null
  | J_bool bool
  | J_int int
  | J_float pyfloat
  | J_str string
  | J_arr "json list"
  | J_obj "(string \<times> json) list"

text \<open>
  The Python values \<open>canonical_repr\<close> distinguishes. A mapping is the list of its items with the
  keys already passed through \<open>str\<close>; \<open>V_naive\<close> is a \<open>datetime\<close> without timezone, \<open>V_other\<close> an
  object of any other type.
\<close>

datatype pyval =
    V_none
  | V_bool bool
  | V_int int
  | V_float pyfloat
  | V_str string
  | V_datetime datetime
  | V_naive
  | V_dataclass "(string \<times> pyval) list"
  | V_mapping "(string \<times> pyval) list"
  | V_seq "pyval list"
  | V_other

section \<open>RFC 3339\<close>

text \<open>Year, month and day of a day number since 1970-01-01 (Gregorian).\<close>

definition civil :: "int \<Rightarrow> int \<times> int \<times> int" where
  "civil days = (let z = days + 719468; era = z div 146097; doe = z mod 146097;
     yoe = (doe - doe div 1460 + doe div 36524 - doe div 146096) div 365;
     doy = doe - (365 * yoe + yoe div 4 - yoe div 100);
     mp = (5 * doy + 2) div 153;
     d = doy - (153 * mp + 2) div 5 + 1;
     m = (if mp < 10 then mp + 3 else mp - 9)
   in (yoe + era * 400 + (if m \<le> 2 then 1 else 0), m, d))"

definition padded :: "nat \<Rightarrow> int \<Rightarrow> string" where
  "padded w n = (let s = str_of_int n in replicate (w - length s) (CHR ''0'') @ s)"

text \<open>
  \<open>strftime\<close> of the UTC instant, with microseconds only when there are any. \<open>%Y\<close> is padded to
  four digits (years from 1000 on print the same on every platform).
\<close>

definition rfc3339 :: "datetime \<Rightarrow> string" where
  "rfc3339 t = (let us = t mod 1000000; secs = t div 1000000; day = secs div 86400;
     sod = secs mod 86400; (y, m, d) = civil day
   in padded 4 y @ ''-'' @ padded 2 m @ ''-'' @ padded 2 d @ ''T'' @ padded 2 (sod div 3600) @ '':''
      @ padded 2 (sod mod 3600 div 60) @ '':'' @ padded 2 (sod mod 60)
      @ (if us \<noteq> 0 then ''.'' @ padded 6 us else []) @ ''Z'')"

section \<open>canonical\_repr\<close>

fun canonical_repr :: "pyval \<Rightarrow> json res"
  and canonical_items :: "(string \<times> pyval) list \<Rightarrow> (string \<times> json) list res"
  and canonical_seq :: "pyval list \<Rightarrow> json list res" where
  "canonical_repr V_none = Inr J_null"
| "canonical_repr (V_bool b) = Inr (J_bool b)"
| "canonical_repr (V_int n) = Inr (J_int n)"
| "canonical_repr (V_str s) = Inr (J_str s)"
| "canonical_repr (V_float f) =
    (if is_finite f then Inr (J_float f) else Inl (make_error ValidationError None))"
| "canonical_repr (V_datetime t) = Inr (J_str (rfc3339 t))"
| "canonical_repr V_naive = Inl (make_error ValidationError None)"
| "canonical_repr (V_dataclass fs) = bind_res (canonical_items fs) (\<lambda>js. Inr (J_obj js))"
| "canonical_repr (V_mapping kvs) = bind_res (canonical_items kvs) (\<lambda>js. Inr (J_obj js))"
| "canonical_repr (V_seq vs) = bind_res (canonical_seq vs) (\<lambda>js. Inr (J_arr js))"
| "canonical_repr V_other = Inl (make_error ValidationError None)"
| "canonical_items [] = Inr []"
| "canonical_items ((k, v) # kvs) =
    bind_res (canonical_repr v) (\<lambda>j. bind_res (canonical_items kvs) (\<lambda>js. Inr ((k, j) # js)))"
| "canonical_seq [] = Inr []"
| "canonical_seq (v # vs) =
    bind_res (canonical_repr v) (\<lambda>j. bind_res (canonical_seq vs) (\<lambda>js. Inr (j # js)))"

section \<open>json.dumps\<close>

definition hex_digit :: "nat \<Rightarrow> char" where
  "hex_digit d = (if d < 10 then char_of (48 + d) else char_of (87 + d))"

abbreviation backslash :: char where "backslash \<equiv> CHR 0x5C"

text \<open>One character of a string literal, with \<open>ensure_ascii=False\<close>.\<close>

definition esc :: "char \<Rightarrow> string" where
  "esc c = (let n = of_char c :: nat in
     if n = 34 then [backslash, CHR 0x22]
     else if n = 92 then [backslash, backslash]
     else if n = 10 then [backslash, CHR ''n'']
     else if n = 13 then [backslash, CHR ''r'']
     else if n = 9 then [backslash, CHR ''t'']
     else if n = 12 then [backslash, CHR ''f'']
     else if n = 8 then [backslash, CHR ''b'']
     else if n < 32 then
       [backslash, CHR ''u'', CHR ''0'', CHR ''0'', hex_digit (n div 16), hex_digit (n mod 16)]
     else [c])"

fun quoted :: "string \<Rightarrow> string" where
  "quoted [] = [CHR 0x22]"
| "quoted (c # cs) = esc c @ quoted cs"

definition quote :: "string \<Rightarrow> string" where
  "quote s = CHR 0x22 # quoted s"

text \<open>\<open>sort_keys=True\<close>, in every object.\<close>

fun sorted_keys :: "json \<Rightarrow> json"
  and sorted_items :: "(string \<times> json) list \<Rightarrow> (string \<times> json) list"
  and sorted_seq :: "json list \<Rightarrow> json list" where
  "sorted_keys (J_obj kvs) = J_obj (sort_key fst (sorted_items kvs))"
| "sorted_keys (J_arr vs) = J_arr (sorted_seq vs)"
| "sorted_keys J_null = J_null"
| "sorted_keys (J_bool b) = J_bool b"
| "sorted_keys (J_int n) = J_int n"
| "sorted_keys (J_float f) = J_float f"
| "sorted_keys (J_str s) = J_str s"
| "sorted_items [] = []"
| "sorted_items ((k, v) # kvs) = (k, sorted_keys v) # sorted_items kvs"
| "sorted_seq [] = []"
| "sorted_seq (v # vs) = sorted_keys v # sorted_seq vs"

text \<open>The text with the separators \<open>','\<close> and \<open>':'\<close>, items in the order given.\<close>

fun render :: "(pyfloat \<Rightarrow> string) \<Rightarrow> json \<Rightarrow> string"
  and arr_tail :: "(pyfloat \<Rightarrow> string) \<Rightarrow> json list \<Rightarrow> string"
  and obj_tail :: "(pyfloat \<Rightarrow> string) \<Rightarrow> (string \<times> json) list \<Rightarrow> string" where
  "render fr J_null = ''null''"
| "render fr (J_bool b) = (if b then ''true'' else ''false'')"
| "render fr (J_int n) = str_of_int n"
| "render fr (J_float f) = fr f"
| "render fr (J_str s) = quote s"
| "render fr (J_arr []) = ''[]''"
| "render fr (J_arr (v # vs)) = ''['' @ render fr v @ arr_tail fr vs"
| "render fr (J_obj []) = ''{}''"
| "render fr (J_obj ((k, v) # kvs)) = ''{'' @ quote k @ '':'' @ render fr v @ obj_tail fr kvs"
| "arr_tail fr [] = '']''"
| "arr_tail fr (v # vs) = '','' @ render fr v @ arr_tail fr vs"
| "obj_tail fr [] = ''}''"
| "obj_tail fr ((k, v) # kvs) = '','' @ quote k @ '':'' @ render fr v @ obj_tail fr kvs"

definition canonical_bytes :: "(pyfloat \<Rightarrow> string) \<Rightarrow> pyval \<Rightarrow> string res" where
  "canonical_bytes fr v = bind_res (canonical_repr v) (\<lambda>j. Inr (render fr (sorted_keys j)))"

section \<open>Errors\<close>

lemma canonical_repr_errors:
  "canonical_repr v = Inl e \<Longrightarrow> e = make_error ValidationError None"
  "canonical_items kvs = Inl e \<Longrightarrow> e = make_error ValidationError None"
  "canonical_seq vs = Inl e \<Longrightarrow> e = make_error ValidationError None"
  by (induction v and kvs and vs rule: canonical_repr_canonical_items_canonical_seq.induct)
    (auto simp: bind_res_def split: sum.splits if_splits)

section \<open>The text determines the value\<close>

text \<open>
  Documented behaviour of \<open>float.__repr__\<close>: the text is a number token with a point or an
  exponent, and different floats have different texts.
\<close>

definition num_char :: "char \<Rightarrow> bool" where
  "num_char c \<longleftrightarrow> digit_char c \<or> c \<in> {CHR ''-'', CHR ''+'', CHR ''.'', CHR ''e''}"

definition float_text :: "(pyfloat \<Rightarrow> string) \<Rightarrow> bool" where
  "float_text fr \<longleftrightarrow> (\<forall>f. is_finite f \<longrightarrow> list_all num_char (fr f)
     \<and> (CHR ''.'' \<in> set (fr f) \<or> CHR ''e'' \<in> set (fr f)))
   \<and> inj_on fr {f. is_finite f}"

fun finite_floats :: "json \<Rightarrow> bool"
  and finite_items :: "(string \<times> json) list \<Rightarrow> bool"
  and finite_seq :: "json list \<Rightarrow> bool" where
  "finite_floats (J_float f) = is_finite f"
| "finite_floats (J_arr vs) = finite_seq vs"
| "finite_floats (J_obj kvs) = finite_items kvs"
| "finite_floats J_null = True"
| "finite_floats (J_bool b) = True"
| "finite_floats (J_int n) = True"
| "finite_floats (J_str s) = True"
| "finite_items [] = True"
| "finite_items ((k, v) # kvs) = (finite_floats v \<and> finite_items kvs)"
| "finite_seq [] = True"
| "finite_seq (v # vs) = (finite_floats v \<and> finite_seq vs)"

text \<open>The first character of the body of a string literal and what follows it.\<close>

definition hex_value :: "char \<Rightarrow> nat" where
  "hex_value c = (if digit_char c then of_char c - 48 else of_char c - 87)"

definition unesc :: "string \<Rightarrow> (char \<times> string) option" where
  "unesc s = (case s of
     [] \<Rightarrow> None
   | c # r \<Rightarrow>
     if c = CHR 0x22 then None
     else if c \<noteq> backslash then Some (c, r)
     else (case r of
         [] \<Rightarrow> None
       | x # r' \<Rightarrow>
         if x = CHR 0x22 \<or> x = backslash then Some (x, r')
         else if x = CHR ''n'' then Some (char_of (10 :: nat), r')
         else if x = CHR ''r'' then Some (char_of (13 :: nat), r')
         else if x = CHR ''t'' then Some (char_of (9 :: nat), r')
         else if x = CHR ''f'' then Some (char_of (12 :: nat), r')
         else if x = CHR ''b'' then Some (char_of (8 :: nat), r')
         else (case r' of z # y # h # l # r'' \<Rightarrow>
             Some (char_of (16 * hex_value h + hex_value l), r'') | _ \<Rightarrow> None)))"

lemma hex_value_digit: "d < 16 \<Longrightarrow> hex_value (hex_digit d) = d"
  by (auto simp: hex_value_def hex_digit_def digit_char_def)

lemma of_char_eqD: "of_char c = (n :: nat) \<Longrightarrow> c = char_of n"
  by (metis char_of_char)

lemma of_char_quote: "of_char c = (34 :: nat) \<Longrightarrow> c = CHR 0x22"
  and of_char_backslash: "of_char c = (92 :: nat) \<Longrightarrow> c = backslash"
proof -
  assume "of_char c = (34 :: nat)"
  then have "of_char c = (of_char (CHR 0x22) :: nat)" by simp
  then show "c = CHR 0x22" by (simp only: of_char_eq_iff)
next
  assume "of_char c = (92 :: nat)"
  then have "of_char c = (of_char backslash :: nat)" by simp
  then show "c = backslash" by (simp only: of_char_eq_iff)
qed

lemma unesc_esc: "unesc (esc c @ r) = Some (c, r)"
proof (cases "(of_char c :: nat) \<in> {34, 92, 10, 13, 9, 12, 8}")
  case True
  then show ?thesis
    by (auto simp: esc_def unesc_def Let_def dest: of_char_quote of_char_backslash of_char_eqD)
next
  case no: False
  then have ne: "c \<noteq> CHR 0x22" "c \<noteq> backslash" by (auto dest: of_char_eqD)
  show ?thesis
  proof (cases "(of_char c :: nat) < 32")
    case True
    with no have "esc c = [backslash, CHR ''u'', CHR ''0'', CHR ''0'', hex_digit (of_char c div 16),
        hex_digit (of_char c mod 16)]"
      by (simp add: esc_def Let_def)
    moreover have "16 * (of_char c div 16) + of_char c mod 16 = (of_char c :: nat)"
      by simp
    ultimately show ?thesis
      using True by (simp add: unesc_def hex_value_digit)
  next
    case False
    with no have "esc c = [c]" by (simp add: esc_def Let_def)
    with ne show ?thesis by (simp add: unesc_def)
  qed
qed

lemma quoted_inj: "quoted s @ r = quoted t @ r' \<Longrightarrow> s = t \<and> r = r'"
proof (induction s arbitrary: t)
  case Nil
  show ?case
  proof (cases t)
    case Nil
    with Nil.prems show ?thesis by simp
  next
    case (Cons d ds)
    have "unesc (quoted [] @ r) = None" by (simp add: unesc_def)
    with Nil.prems Cons show ?thesis by (simp add: unesc_esc)
  qed
next
  case (Cons c cs)
  show ?case
  proof (cases t)
    case Nil
    have "unesc (quoted [] @ r') = None" by (simp add: unesc_def)
    with Cons.prems Nil show ?thesis by (metis append.assoc option.distinct(1) quoted.simps(2) unesc_esc)
  next
    case (Cons d ds)
    from Cons.prems Cons have "esc c @ quoted cs @ r = esc d @ quoted ds @ r'" by simp
    then have "c = d \<and> quoted cs @ r = quoted ds @ r'"
      by (metis option.inject prod.inject unesc_esc)
    with Cons.IH Cons show ?thesis by simp
  qed
qed

text \<open>A number token ends at the first character that cannot belong to it.\<close>

definition delim :: "string \<Rightarrow> bool" where
  "delim r \<longleftrightarrow> r = [] \<or> hd r \<in> {CHR '','', CHR '']'', CHR ''}''}"

lemma num_char_delim: "delim r \<Longrightarrow> takeWhile num_char r = []"
  by (cases r) (auto simp: delim_def num_char_def digit_char_def)

lemma number_token:
  assumes "list_all num_char s" and "list_all num_char t" and "delim r" and "delim r'"
    and "s @ r = t @ r'"
  shows "s = t \<and> r = r'"
proof -
  have "takeWhile num_char (s @ r) = s" "takeWhile num_char (t @ r') = t"
    using assms(1-4) num_char_delim by (auto simp: takeWhile_append list_all_iff)
  with assms(5) have "s = t" by simp
  with assms(5) show ?thesis by simp
qed

lemma str_of_int_num: "list_all num_char (str_of_int n)" "str_of_int n \<noteq> []"
  "CHR ''.'' \<notin> set (str_of_int n)" "CHR ''e'' \<notin> set (str_of_int n)"
proof -
  have d: "list_all digit_char (digits k)" for k by (rule digits_digit)
  then show "list_all num_char (str_of_int n)"
    by (auto simp: str_of_int_def num_char_def list_all_iff)
  show "str_of_int n \<noteq> []" by (simp add: str_of_int_def)
  have "\<not> digit_char (CHR ''.'')" "\<not> digit_char (CHR ''e'')"
    by (simp_all add: digit_char_def)
  with d show "CHR ''.'' \<notin> set (str_of_int n)" "CHR ''e'' \<notin> set (str_of_int n)"
    by (auto simp: str_of_int_def list_all_iff)
qed

text \<open>The shape of a value is visible in the first character of its text.\<close>

datatype shape = S_null | S_true | S_false | S_num | S_str | S_arr | S_obj

fun shape_of :: "json \<Rightarrow> shape" where
  "shape_of J_null = S_null"
| "shape_of (J_bool b) = (if b then S_true else S_false)"
| "shape_of (J_int n) = S_num"
| "shape_of (J_float f) = S_num"
| "shape_of (J_str s) = S_str"
| "shape_of (J_arr vs) = S_arr"
| "shape_of (J_obj kvs) = S_obj"

definition shape_of_char :: "char \<Rightarrow> shape" where
  "shape_of_char c = (if c = CHR ''n'' then S_null else if c = CHR ''t'' then S_true
     else if c = CHR ''f'' then S_false else if c = CHR 0x22 then S_str
     else if c = CHR ''['' then S_arr else if c = CHR ''{'' then S_obj else S_num)"

lemma shape_of_num_char: "num_char c \<Longrightarrow> shape_of_char c = S_num"
proof -
  assume "num_char c"
  then have "c \<notin> {CHR ''n'', CHR ''t'', CHR ''f'', CHR 0x22, CHR ''['', CHR ''{''}"
    by (auto simp: num_char_def digit_char_def)
  then show ?thesis by (simp add: shape_of_char_def)
qed

lemma render_shape:
  assumes "float_text fr" and "finite_floats v"
  shows "\<exists>c cs. render fr v = c # cs \<and> shape_of_char c = shape_of v"
proof (cases v)
  case (J_int n)
  with str_of_int_num [of n] show ?thesis
    by (cases "str_of_int n") (auto simp: shape_of_num_char)
next
  case (J_float f)
  with assms have "list_all num_char (fr f)" "fr f \<noteq> []"
    by (auto simp: float_text_def)
  with J_float show ?thesis
    by (cases "fr f") (auto simp: shape_of_num_char)
next
  case (J_arr vs)
  then show ?thesis by (cases vs) (simp_all add: shape_of_char_def)
next
  case (J_obj kvs)
  then show ?thesis by (cases kvs) (auto simp: shape_of_char_def)
qed (simp_all add: shape_of_char_def quote_def)

lemma tails_delim: "delim (arr_tail fr vs @ r)" "delim (obj_tail fr kvs @ r)"
  by (cases vs; simp add: delim_def) (cases kvs; auto simp: delim_def)

lemma same_shape:
  assumes "float_text fr" and "finite_floats v" and "finite_floats w"
    and "render fr v @ r = render fr w @ r'"
  shows "shape_of w = shape_of v"
proof -
  obtain c cs where "render fr v = c # cs" "shape_of_char c = shape_of v"
    using render_shape [OF assms(1,2)] by blast
  moreover obtain d ds where "render fr w = d # ds" "shape_of_char d = shape_of w"
    using render_shape [OF assms(1,3)] by blast
  ultimately show ?thesis using assms(4) by simp
qed

lemma shape_of_iff:
  "shape_of w = S_null \<longleftrightarrow> w = J_null"
  "shape_of w = S_true \<longleftrightarrow> w = J_bool True"
  "shape_of w = S_false \<longleftrightarrow> w = J_bool False"
  "shape_of w = S_num \<longleftrightarrow> (\<exists>n. w = J_int n) \<or> (\<exists>f. w = J_float f)"
  "shape_of w = S_str \<longleftrightarrow> (\<exists>s. w = J_str s)"
  "shape_of w = S_arr \<longleftrightarrow> (\<exists>vs. w = J_arr vs)"
  "shape_of w = S_obj \<longleftrightarrow> (\<exists>kvs. w = J_obj kvs)"
  by (cases w; auto)+

text \<open>Two number tokens followed by delimiters are the same number.\<close>

lemma render_num:
  assumes "float_text fr" and "finite_floats v" and "shape_of v = S_num"
  shows "list_all num_char (render fr v)"
  using assms by (auto simp: shape_of_iff float_text_def intro: str_of_int_num)

lemma render_num_inj:
  assumes "float_text fr" and "finite_floats v" and "finite_floats w"
    and "shape_of v = S_num" and "shape_of w = S_num" and "render fr v = render fr w"
  shows "v = w"
proof -
  have ne: "str_of_int n \<noteq> fr f" if "is_finite f" for n f
    using assms(1) that str_of_int_num(3,4) [of n] unfolding float_text_def by metis
  have "f = g" if "fr f = fr g" "is_finite f" "is_finite g" for f g
    using assms(1) that by (auto simp: float_text_def inj_on_def)
  then show ?thesis
    using assms(2-6) ne ne [symmetric]
    by (auto simp: shape_of_iff dest: str_of_int_inj)
qed

lemma render_inj:
  "float_text fr \<Longrightarrow> finite_floats v \<Longrightarrow> finite_floats w \<Longrightarrow> delim r \<Longrightarrow> delim r' \<Longrightarrow>
    render fr v @ r = render fr w @ r' \<Longrightarrow> v = w \<and> r = r'"
  "float_text fr \<Longrightarrow> finite_seq vs \<Longrightarrow> finite_seq ws \<Longrightarrow>
    arr_tail fr vs @ r = arr_tail fr ws @ r' \<Longrightarrow> vs = ws \<and> r = r'"
  "float_text fr \<Longrightarrow> finite_items kvs \<Longrightarrow> finite_items kws \<Longrightarrow>
    obj_tail fr kvs @ r = obj_tail fr kws @ r' \<Longrightarrow> kvs = kws \<and> r = r'"
proof (induction fr v and fr vs and fr kvs arbitrary: w r r' and ws r r' and kws r r'
    rule: render_arr_tail_obj_tail.induct)
  case (1 fr)
  from same_shape [OF 1(1-3) 1(6)] 1 show ?case by (auto simp: shape_of_iff)
next
  case (2 fr b)
  from same_shape [OF 2(1-3) 2(6)] 2 show ?case by (auto simp: shape_of_iff split: if_splits)
next
  case (3 fr n)
  have w: "shape_of w = S_num" using same_shape [OF 3(1-3) 3(6)] by simp
  have "render fr (J_int n) = render fr w \<and> r = r'"
    by (rule number_token [OF render_num render_num 3(4,5)]) (use 3 w in simp_all)
  then show ?case using render_num_inj [OF 3(1-3) _ w] by simp
next
  case (4 fr f)
  have w: "shape_of w = S_num" using same_shape [OF 4(1-3) 4(6)] by simp
  have "render fr (J_float f) = render fr w \<and> r = r'"
    by (rule number_token [OF render_num render_num 4(4,5)]) (use 4 w in simp_all)
  then show ?case using render_num_inj [OF 4(1-3) _ w] by simp
next
  case (5 fr s)
  from same_shape [OF 5(1-3) 5(6)] obtain t where w: "w = J_str t"
    by (auto simp: shape_of_iff)
  with 5(6) show ?case by (auto simp: quote_def dest: quoted_inj)
next
  case (6 fr)
  from same_shape [OF 6(1-3) 6(6)] obtain ws where w: "w = J_arr ws"
    by (auto simp: shape_of_iff)
  show ?case
  proof (cases ws)
    case Nil
    with 6(6) w show ?thesis by simp
  next
    case (Cons x xs)
    obtain c cs where c: "render fr x = c # cs" "shape_of_char c = shape_of x"
      using render_shape [OF 6(1), of x] 6(3) w Cons by auto
    with 6(6) w Cons have "c = CHR '']''" by simp
    with c(2) have "shape_of x = S_num" by (simp add: shape_of_char_def)
    from render_num [OF 6(1) _ this] 6(3) w Cons c(1) \<open>c = _\<close> show ?thesis
      by (simp add: num_char_def digit_char_def)
  qed
next
  case (7 fr v vs)
  from same_shape [OF 7(3-5) 7(8)] obtain ws where w: "w = J_arr ws"
    by (auto simp: shape_of_iff)
  show ?case
  proof (cases ws)
    case Nil
    obtain c cs where c: "render fr v = c # cs" "shape_of_char c = shape_of v"
      using render_shape [OF 7(3), of v] 7(4) by auto
    with 7(8) w Nil have "c = CHR '']''" by simp
    with c(2) have "shape_of v = S_num" by (simp add: shape_of_char_def)
    from render_num [OF 7(3) _ this] 7(4) c(1) \<open>c = _\<close> show ?thesis
      by (simp add: num_char_def digit_char_def)
  next
    case (Cons x xs)
    with 7(8) w have eq: "render fr v @ arr_tail fr vs @ r = render fr x @ arr_tail fr xs @ r'" by simp
    from 7(1) [OF 7(3) _ _ tails_delim(1) tails_delim(1) eq] 7(4,5) w Cons
    have "v = x" and tl: "arr_tail fr vs @ r = arr_tail fr xs @ r'" by auto
    with 7(2) [OF 7(3) _ _ tl] 7(4,5) w Cons show ?thesis by simp
  qed
next
  case (8 fr)
  from same_shape [OF 8(1-3) 8(6)] obtain kws where w: "w = J_obj kws"
    by (auto simp: shape_of_iff)
  with 8(6) show ?case by (cases kws) (auto simp: quote_def)
next
  case (9 fr k v kvs)
  from same_shape [OF 9(3-5) 9(8)] obtain kws where w: "w = J_obj kws"
    by (auto simp: shape_of_iff)
  show ?case
  proof (cases kws)
    case Nil
    with 9(8) w show ?thesis by (simp add: quote_def)
  next
    case (Cons kx xs)
    obtain k' x where kx: "kx = (k', x)" by (cases kx)
    with 9(8) w Cons have "quoted k @ '':'' @ render fr v @ obj_tail fr kvs @ r
        = quoted k' @ '':'' @ render fr x @ obj_tail fr xs @ r'" by (simp add: quote_def)
    from quoted_inj [OF this] have "k = k'"
      and eq: "render fr v @ obj_tail fr kvs @ r = render fr x @ obj_tail fr xs @ r'" by auto
    from 9(1) [OF 9(3) _ _ tails_delim(2) tails_delim(2) eq] 9(4,5) w Cons kx
    have "v = x" and tl: "obj_tail fr kvs @ r = obj_tail fr xs @ r'" by auto
    with 9(2) [OF 9(3) _ _ tl] 9(4,5) w Cons kx \<open>k = k'\<close> show ?thesis by simp
  qed
next
  case (10 fr)
  then show ?case by (cases ws) auto
next
  case (11 fr v vs)
  show ?case
  proof (cases ws)
    case Nil
    with 11(6) show ?thesis by simp
  next
    case (Cons x xs)
    with 11(6) have eq: "render fr v @ arr_tail fr vs @ r = render fr x @ arr_tail fr xs @ r'" by simp
    from 11(1) [OF 11(3) _ _ tails_delim(1) tails_delim(1) eq] 11(4,5) Cons
    have "v = x" and tl: "arr_tail fr vs @ r = arr_tail fr xs @ r'" by auto
    with 11(2) [OF 11(3) _ _ tl] 11(4,5) Cons show ?thesis by simp
  qed
next
  case (12 fr)
  then show ?case by (cases kws) auto
next
  case (13 fr k v kvs)
  show ?case
  proof (cases kws)
    case Nil
    with 13(6) show ?thesis by simp
  next
    case (Cons kx xs)
    obtain k' x where kx: "kx = (k', x)" by (cases kx)
    with 13(6) Cons have "quoted k @ '':'' @ render fr v @ obj_tail fr kvs @ r
        = quoted k' @ '':'' @ render fr x @ obj_tail fr xs @ r'" by (simp add: quote_def)
    from quoted_inj [OF this] have "k = k'"
      and eq: "render fr v @ obj_tail fr kvs @ r = render fr x @ obj_tail fr xs @ r'" by auto
    from 13(1) [OF 13(3) _ _ tails_delim(2) tails_delim(2) eq] 13(4,5) Cons kx
    have "v = x" and tl: "obj_tail fr kvs @ r = obj_tail fr xs @ r'" by auto
    with 13(2) [OF 13(3) _ _ tl] 13(4,5) Cons kx \<open>k = k'\<close> show ?thesis by simp
  qed
qed

lemma finite_items_iff: "finite_items kvs \<longleftrightarrow> (\<forall>kv \<in> set kvs. finite_floats (snd kv))"
  by (induction kvs) auto

lemma finite_sorted:
  "finite_floats (sorted_keys j) = finite_floats j"
  "finite_items (sorted_items kvs) = finite_items kvs"
  "finite_seq (sorted_seq vs) = finite_seq vs"
  by (induction j and kvs and vs rule: sorted_keys_sorted_items_sorted_seq.induct)
    (auto simp: finite_items_iff)

lemma canonical_finite:
  "canonical_repr v = Inr j \<Longrightarrow> finite_floats j"
  "canonical_items kvs = Inr js \<Longrightarrow> finite_items js"
  "canonical_seq vs = Inr xs \<Longrightarrow> finite_seq xs"
  by (induction v and kvs and vs arbitrary: j and js and xs
      rule: canonical_repr_canonical_items_canonical_seq.induct)
    (auto simp: bind_res_Inr_iff split: if_splits)

lemma canonical_items_Inr_iff:
  "canonical_items kvs = Inr js \<longleftrightarrow>
    list_all2 (\<lambda>kv kj. fst kj = fst kv \<and> canonical_repr (snd kv) = Inr (snd kj)) kvs js"
  by (induction kvs arbitrary: js)
    (auto simp: bind_res_Inr_iff list_all2_Cons1 split: prod.splits)

lemma sorted_items_map: "sorted_items js = map (\<lambda>(k, j). (k, sorted_keys j)) js"
  by (induction js) auto

text \<open>The items of a mapping in another order.\<close>

lemma canonical_items_perm:
  assumes "mset kvs = mset kws" and "canonical_items kvs = Inr js"
  obtains js' where "canonical_items kws = Inr js'" and "mset js = mset js'"
proof -
  let ?f = "\<lambda>kv. (fst kv, projr (canonical_repr (snd kv)))"
  have ok: "canonical_items xs = Inr (map ?f xs)"
    if "\<forall>kv \<in> set xs. \<exists>j. canonical_repr (snd kv) = Inr j" for xs
    using that by (auto simp: canonical_items_Inr_iff list_all2_conv_all_nth)
      (metis nth_mem snd_conv sum.sel(2))
  have all: "\<forall>kv \<in> set kvs. \<exists>j. canonical_repr (snd kv) = Inr j"
    using assms(2)
    by (auto simp: canonical_items_Inr_iff list_all2_conv_all_nth in_set_conv_nth) (metis snd_conv)
  with assms(1) have all': "\<forall>kv \<in> set kws. \<exists>j. canonical_repr (snd kv) = Inr j"
    by (metis mset_eq_setD)
  have "js = map ?f kvs" using ok [OF all] assms(2) by simp
  then have "mset js = mset (map ?f kws)" using assms(1) by simp
  with ok [OF all'] that show thesis by blast
qed

lemma sort_items_perm:
  assumes "mset js = mset js'" and "distinct (map fst js)"
  shows "sort_key fst (sorted_items js) = sort_key fst (sorted_items js')"
proof (rule sort_key_perm_eq)
  show "mset (sorted_items js) = mset (sorted_items js')"
    using assms(1) by (simp add: sorted_items_map)
  have "distinct (map fst (sorted_items js))"
    using assms(2) by (simp add: sorted_items_map comp_def case_prod_beta)
  then show "inj_on fst (set (sorted_items js))"
    by (simp add: distinct_map)
qed

lemma canonical_bytes_inj:
  assumes "float_text fr" and "canonical_repr v = Inr j" and "canonical_repr w = Inr j'"
    and "canonical_bytes fr v = canonical_bytes fr w"
  shows "sorted_keys j = sorted_keys j'"
proof -
  have "render fr (sorted_keys j) @ [] = render fr (sorted_keys j') @ []"
    using assms(2-4) by (simp add: canonical_bytes_def)
  with render_inj(1) [OF assms(1), of "sorted_keys j" "sorted_keys j'" "[]" "[]"]
  show ?thesis
    using assms(2,3) by (simp add: finite_sorted canonical_finite(1) delim_def)
qed

section \<open>Properties\<close>

text \<open>A text for floats that keeps what \<open>float.__repr__\<close> promises, for the witnesses.\<close>

definition ex_float_text :: "pyfloat \<Rightarrow> string" where
  "ex_float_text f = (case f of PFin q \<Rightarrow> (let (n, d) = quotient_of q in
     str_of_int n @ ''e'' @ str_of_int d) | _ \<Rightarrow> ''nan'')"

lemma ex_float_text: "float_text ex_float_text"
proof -
  have num: "list_all num_char (str_of_int n)" for n by (rule str_of_int_num)
  have inj: "q = q'" if "str_of_int (fst (quotient_of q)) @ ''e'' @ str_of_int (snd (quotient_of q))
      = str_of_int (fst (quotient_of q')) @ ''e'' @ str_of_int (snd (quotient_of q'))" for q q'
  proof -
    have tw: "takeWhile (\<lambda>c. c \<noteq> CHR ''e'') (str_of_int n @ CHR ''e'' # s) = str_of_int n" for n s
      using str_of_int_num(4) [of n] by (subst takeWhile_append2) auto
    from arg_cong [OF that, of "takeWhile (\<lambda>c. c \<noteq> CHR ''e'')"]
    have "str_of_int (fst (quotient_of q)) = str_of_int (fst (quotient_of q'))" by (simp add: tw)
    with that have "fst (quotient_of q) = fst (quotient_of q')"
      and "snd (quotient_of q) = snd (quotient_of q')" by (auto dest: str_of_int_inj)
    then show ?thesis by (metis prod.collapse quotient_of_inject_eq)
  qed
  have chars: "list_all num_char (ex_float_text (PFin q)) \<and> CHR ''e'' \<in> set (ex_float_text (PFin q))" for q
    using num by (simp add: ex_float_text_def case_prod_beta num_char_def)
  have "f = g" if "is_finite f" "is_finite g" "ex_float_text f = ex_float_text g" for f g
    using that inj by (cases f; cases g) (auto simp: ex_float_text_def case_prod_beta)
  then show ?thesis
    unfolding float_text_def inj_on_def
    using chars by (auto elim!: is_finite.elims)
qed

text \<open>
  Canonical bytes identify a value: two serialisable values have the same canonical bytes
  exactly when they are the same JSON value up to the order of the keys of its objects.
\<close>

lemma canonical_bytes_identify:
  assumes "float_text fr" and "canonical_repr v = Inr j" and "canonical_repr w = Inr j'"
  shows "canonical_bytes fr v = canonical_bytes fr w \<longleftrightarrow> sorted_keys j = sorted_keys j'"
  using canonical_bytes_inj [OF assms] assms(2,3) by (auto simp: canonical_bytes_def)

lemma canonical_bytes_identify_witness:
  "canonical_bytes ex_float_text (V_seq [V_str ''a,b'']) \<noteq>
   canonical_bytes ex_float_text (V_seq [V_str ''a'', V_str ''b''])"
  using canonical_bytes_identify [OF ex_float_text, of "V_seq [V_str ''a,b'']" "J_arr [J_str ''a,b'']"
      "V_seq [V_str ''a'', V_str ''b'']" "J_arr [J_str ''a'', J_str ''b'']"]
  by simp

text \<open>
  The order in which a mapping or a dataclass lists its keys does not matter for its
  canonical bytes, nor does it matter for whether it is refused.
\<close>

lemma canonical_bytes_ignore_key_order:
  assumes "mset kvs = mset kws" and "distinct (map fst kvs)"
  shows "canonical_bytes fr (V_mapping kvs) = canonical_bytes fr (V_mapping kws)"
proof (cases "canonical_items kvs")
  case (Inl e)
  show ?thesis
  proof (cases "canonical_items kws")
    case (Inl e')
    with canonical_repr_errors(2) [OF \<open>canonical_items kvs = Inl e\<close>]
      canonical_repr_errors(2) [OF Inl] \<open>canonical_items kvs = Inl e\<close>
    show ?thesis by (simp add: canonical_bytes_def)
  next
    case (Inr js)
    from canonical_items_perm [OF assms(1) [symmetric] Inr] \<open>canonical_items kvs = Inl e\<close>
    show ?thesis by simp
  qed
next
  case (Inr js)
  from canonical_items_perm [OF assms(1) Inr] obtain js' where
    js': "canonical_items kws = Inr js'" "mset js = mset js'" by blast
  have "map fst js = map fst kvs"
    using Inr by (auto simp: canonical_items_Inr_iff list_all2_conv_all_nth intro: nth_equalityI)
  with sort_items_perm [OF js'(2)] assms(2) show ?thesis
    by (simp add: canonical_bytes_def Inr js'(1))
qed

lemma canonical_bytes_ignore_key_order_witness:
  "canonical_bytes ex_float_text (V_mapping [(''b'', V_int 1), (''a'', V_none)])
     = canonical_bytes ex_float_text (V_mapping [(''a'', V_none), (''b'', V_int 1)])"
  by (rule canonical_bytes_ignore_key_order) (simp_all add: add_mset_commute)

end
