(* ===== verification/Outcomes.thy ===== *)
theory Outcomes
  imports Canonical_Json
begin

text \<open>
  Classification of an execution: the report parser of
  \<open>src/src/verifierci/evaluators/pytest_report.py\<close> and the precedence of
  \<open>src/src/verifierci/execution/outcomes.py\<close>.

  \<open>loads\<close> stands for \<open>json.loads(report_bytes.decode("utf-8"))\<close>: it answers the decoded value,
  in which an object lists its keys once, or the exception. \<open>float_str\<close> is \<open>float(s)\<close> of a
  string, \<open>None\<close> for \<open>ValueError\<close>. Every theorem holds for all of them.
\<close>

section \<open>Python's conversions\<close>

definition value_error :: "exn \<Rightarrow> bool" where
  "value_error e = (case e of
     PyExc c _ \<Rightarrow> c \<in> {''ValueError'', ''json.JSONDecodeError'', ''UnicodeDecodeError''}
   | _ \<Rightarrow> False)"

definition type_or_value_error :: "exn \<Rightarrow> bool" where
  "type_or_value_error e \<longleftrightarrow> value_error e \<or> (case e of PyExc c _ \<Rightarrow> c = ''TypeError'' | _ \<Rightarrow> False)"

text \<open>
  The nearest double of an integer, ties to even: 53 significant bits. \<open>float(n)\<close> raises
  \<open>OverflowError\<close> from half a unit beyond the largest double on.
\<close>

definition float_limit :: int where
  "float_limit = 2 ^ 1024 - 2 ^ 970"

fun bit_len :: "nat \<Rightarrow> nat" where
  "bit_len n = (if n = 0 then 0 else Suc (bit_len (n div 2)))"

declare bit_len.simps [simp del]

definition round_nat :: "nat \<Rightarrow> nat" where
  "round_nat n = (let e = bit_len n - 53; q = n div 2 ^ e; r = n mod 2 ^ e; half = 2 ^ (e - 1)
     in if e = 0 then n
        else if r > half \<or> (r = half \<and> odd q) then (q + 1) * 2 ^ e else q * 2 ^ e)"

definition float_of_int :: "int \<Rightarrow> pyfloat res" where
  "float_of_int n =
    (if \<bar>n\<bar> \<ge> float_limit then Inl (PyExc ''OverflowError'' ''int too large to convert to float'')
     else Inr (PFin (of_int (sgn n * int (round_nat (nat \<bar>n\<bar>))))))"

fun float_of_json :: "(string \<Rightarrow> pyfloat option) \<Rightarrow> json \<Rightarrow> pyfloat res" where
  "float_of_json float_str (J_bool b) = Inr (PFin (if b then 1 else 0))"
| "float_of_json float_str (J_int n) = float_of_int n"
| "float_of_json float_str (J_float f) = Inr f"
| "float_of_json float_str (J_str s) = (case float_str s of
     Some f \<Rightarrow> Inr f | None \<Rightarrow> Inl (PyExc ''ValueError'' ''could not convert string to float''))"
| "float_of_json float_str _ =
     Inl (PyExc ''TypeError'' ''float() argument must be a string or a real number'')"

section \<open>PytestReportParser.parse\<close>

definition PARSER_ID :: string where "PARSER_ID = ''pytest-report-v1''"

definition invalid_outcome :: "string \<Rightarrow> TestReport option \<Rightarrow> string list \<Rightarrow> ParsedOutcome" where
  "invalid_outcome code report digests = \<lparr>po_outcome = Invalid_evaluation,
     po_evaluation_validity = Invalid, po_error_code = Some code, po_report = report,
     po_evidence_digests = digests\<rparr>"

text \<open>The variables of the loop over the test items.\<close>

record parse_state =
  ps_collected :: "string list"
  ps_results :: "TestResult list"
  ps_passed :: nat
  ps_failed :: nat
  ps_error :: bool

text \<open>
  \<open>str(t.get("outcome", "failed")).lower()\<close> mapped to a status. The \<open>str\<close> of a value that is
  not a string is never one of the two words.
\<close>

definition status_of :: "json option \<Rightarrow> test_status" where
  "status_of v = (case v of
     Some (J_str s) \<Rightarrow> if lower s = ''passed'' then T_passed
       else if lower s = ''skipped'' then T_skipped else T_failed
   | _ \<Rightarrow> T_failed)"

text \<open>The duration of an item and whether reading it set \<open>parser_error\<close>.\<close>

definition read_duration ::
    "(string \<Rightarrow> pyfloat option) \<Rightarrow> (string \<times> json) list \<Rightarrow> (pyfloat option \<times> bool) res" where
  "read_duration float_str t = (case map_of t ''duration'' of
     None \<Rightarrow> Inr (None, False)
   | Some J_null \<Rightarrow> Inr (None, False)
   | Some v \<Rightarrow> (case float_of_json float_str v of
       Inr f \<Rightarrow> Inr (Some f, False)
     | Inl e \<Rightarrow> if type_or_value_error e then Inr (None, True) else Inl e))"

text \<open>The loop; \<open>None\<close> is its early return of a \<open>PARSER_ERROR\<close>.\<close>

fun parse_tests ::
    "(string \<Rightarrow> pyfloat option) \<Rightarrow> json list \<Rightarrow> parse_state \<Rightarrow> parse_state option res" where
  "parse_tests float_str [] st = Inr (Some st)"
| "parse_tests float_str (t # ts) st = (case t of
     J_obj kvs \<Rightarrow> (case map_of kvs ''nodeid'' of
       Some (J_str nodeid) \<Rightarrow>
         if blank nodeid then Inr None
         else bind_res (read_duration float_str kvs) (\<lambda>(duration, bad).
           let status = status_of (map_of kvs ''outcome'') in
           parse_tests float_str ts \<lparr>
             ps_collected = ps_collected st @ [nodeid],
             ps_results = ps_results st @ [\<lparr>tr_test_id = nodeid, tr_status = status,
               tr_duration = duration, tr_failure_digest = None\<rparr>],
             ps_passed = (if status = T_passed then ps_passed st + 1 else ps_passed st),
             ps_failed = (if status = T_failed then ps_failed st + 1 else ps_failed st),
             ps_error = (ps_error st \<or> bad)\<rparr>)
     | _ \<Rightarrow> Inr None)
   | _ \<Rightarrow> Inr None)"

definition report_of :: "parse_state \<Rightarrow> TestReport" where
  "report_of st = \<lparr>rep_schema_version = ''1.0.0'', rep_collected_ids = ps_collected st,
     rep_results = ps_results st, rep_completed = True, rep_runner_error = None\<rparr>"

text \<open>\<open>results_map.get(req_id)\<close>: the last result of an identifier wins.\<close>

definition result_status :: "TestResult list \<Rightarrow> string \<Rightarrow> test_status option" where
  "result_status results req = map_of (rev (map (\<lambda>tr. (tr_test_id tr, tr_status tr)) results)) req"

text \<open>The classification after the loop.\<close>

definition classify :: "parse_state \<Rightarrow> VerifierManifest \<Rightarrow> ExecutionCapture \<Rightarrow> ParsedOutcome" where
  "classify st manifest capture =
    (let report = Some (report_of st); collected = ps_collected st;
         expected = vm_expected_collection manifest in
     if ps_error st then invalid_outcome (ec_value EC_PARSER_ERROR) report []
     else if collected = [] then invalid_outcome (ec_value EC_EMPTY_COLLECTION) report []
     else if expected \<noteq> [] \<and> set expected \<noteq> set collected
       then invalid_outcome (ec_value EC_COLLECTION_MISMATCH) report []
     else if expected \<noteq> [] \<and> sort expected \<noteq> sort collected
       then invalid_outcome (ec_value EC_COLLECTION_MISMATCH) report []
     else if list_ex (\<lambda>tr. tr_status tr = T_skipped
          \<and> tr_test_id tr \<notin> set (vm_permitted_skips manifest)) (ps_results st)
       then invalid_outcome (ec_value EC_COLLECTION_MISMATCH) report []
     else
       let all_required_passed = list_all (\<lambda>req. result_status (ps_results st) req = Some T_passed)
             (vm_required_pass_ids manifest);
           has_failures = (ps_failed st > 0 \<or> \<not> all_required_passed)
       in if \<not> has_failures \<and> c_exit_code capture \<noteq> None \<and> c_exit_code capture \<noteq> Some 0
          then invalid_outcome ''EXIT_REPORT_MISMATCH'' report []
          else if has_failures
          then \<lparr>po_outcome = Reject, po_evaluation_validity = Valid,
                po_error_code = (if c_exit_code capture = Some 0
                  then Some ''EXIT_REPORT_MISMATCH'' else None),
                po_report = report, po_evidence_digests = []\<rparr>
          else \<lparr>po_outcome = Accept, po_evaluation_validity = Valid, po_error_code = None,
                po_report = report, po_evidence_digests = []\<rparr>)"

definition empty_state :: parse_state where
  "empty_state = \<lparr>ps_collected = [], ps_results = [], ps_passed = 0, ps_failed = 0,
     ps_error = False\<rparr>"

definition parse ::
    "(string \<Rightarrow> json res) \<Rightarrow> (string \<Rightarrow> pyfloat option) \<Rightarrow> string option \<Rightarrow> VerifierManifest
     \<Rightarrow> ExecutionCapture \<Rightarrow> ParsedOutcome res" where
  "parse loads float_str report_bytes manifest capture =
    (let parser_error = Inr (invalid_outcome (ec_value EC_PARSER_ERROR) None []) in
     case report_bytes of
       None \<Rightarrow> Inr (invalid_outcome (ec_value EC_EMPTY_COLLECTION) None [])
     | Some bytes \<Rightarrow>
       if bytes_blank bytes then Inr (invalid_outcome (ec_value EC_EMPTY_COLLECTION) None [])
       else (case loads bytes of
         Inl e \<Rightarrow> if value_error e then parser_error else Inl e
       | Inr (J_obj data) \<Rightarrow>
           (case (case map_of data ''tests'' of None \<Rightarrow> J_arr [] | Some v \<Rightarrow> v) of
              J_arr raw_tests \<Rightarrow>
                bind_res (parse_tests float_str raw_tests empty_state) (\<lambda>st.
                  case st of None \<Rightarrow> parser_error
                  | Some st \<Rightarrow> Inr (classify st manifest capture))
            | _ \<Rightarrow> parser_error)
       | Inr _ \<Rightarrow> parser_error))"

section \<open>parse\_capture\<close>

definition capture_digests :: "ExecutionCapture \<Rightarrow> string list" where
  "capture_digests capture = map the (filter (\<lambda>h. h \<noteq> None)
     [c_stdout_hash capture, c_stderr_hash capture, c_report_digest capture])"

text \<open>A runtime error that names the patch rather than the infrastructure.\<close>

definition patch_error :: "string \<Rightarrow> bool" where
  "patch_error code \<longleftrightarrow>
     code \<in> {ec_value EC_PATCH_ERROR, ec_value EC_PROTECTION_ERROR, ec_value EC_VALIDATION_ERROR}
   \<or> contains ''patch'' (lower code)"

definition parse_capture ::
    "(string \<Rightarrow> json res) \<Rightarrow> (string \<Rightarrow> pyfloat option) \<Rightarrow> ExecutionCapture \<Rightarrow> VerifierManifest
     \<Rightarrow> string option \<Rightarrow> ParsedOutcome res" where
  "parse_capture loads float_str capture manifest report_bytes =
    (let digests = capture_digests capture;
         invalid = (\<lambda>code. Inr (invalid_outcome (ec_value code) None digests)) in
     if c_runtime_error capture \<notin> {None, Some []} then
       (let err = the (c_runtime_error capture) in
        if patch_error err then invalid EC_PATCH_ERROR
        else Inr \<lparr>po_outcome = Error, po_evaluation_validity = Invalid, po_error_code = Some err,
                  po_report = None, po_evidence_digests = digests\<rparr>)
     else if c_build_exit_code capture \<noteq> None \<and> c_build_exit_code capture \<noteq> Some 0
       then invalid EC_BUILD_ERROR
     else if c_cancelled capture then invalid EC_CANCELLED
     else if c_timed_out capture then invalid EC_TIMEOUT
     else if c_oom_killed capture = Some True then invalid EC_RESOURCE_EXHAUSTED
     else if c_truncated capture then invalid EC_ARTIFACT_LIMIT
     else if vm_parser_id manifest = PARSER_ID then
       bind_res (parse loads float_str report_bytes manifest capture) (\<lambda>result.
         if po_evidence_digests result = [] \<and> digests \<noteq> []
         then Inr (result\<lparr>po_evidence_digests := digests\<rparr>) else Inr result)
     else invalid EC_PARSER_ERROR)"

end
