(* ===== verification/Outcome_Properties.thy ===== *)
theory Outcome_Properties
  imports Outcomes
begin

text \<open>
  What an accepted report says, which fault of an execution decides its classification, and when the
  parser raises instead of answering. \<open>faults\<close> lists what is wrong with an execution in the documented order.
\<close>

section \<open>The loop over the test items\<close>

text \<open>\<open>t\<close> is a well-formed test item with the result \<open>tr\<close>.\<close>

definition item_ok :: "(string \<Rightarrow> pyfloat option) \<Rightarrow> json \<Rightarrow> TestResult \<Rightarrow> bool" where
  "item_ok float_str t tr \<longleftrightarrow> (\<exists>kvs. t = J_obj kvs
     \<and> map_of kvs ''nodeid'' = Some (J_str (tr_test_id tr)) \<and> \<not> blank (tr_test_id tr)
     \<and> tr_status tr = status_of (map_of kvs ''outcome'')
     \<and> read_duration float_str kvs = Inr (tr_duration tr, False)
     \<and> tr_failure_digest tr = None)"

definition with_status :: "test_status \<Rightarrow> TestResult list \<Rightarrow> nat" where
  "with_status s rs = length (filter (\<lambda>tr. tr_status tr = s) rs)"

definition advance :: "parse_state \<Rightarrow> TestResult list \<Rightarrow> parse_state" where
  "advance st rs = \<lparr>ps_collected = ps_collected st @ map tr_test_id rs,
     ps_results = ps_results st @ rs,
     ps_passed = ps_passed st + with_status T_passed rs,
     ps_failed = ps_failed st + with_status T_failed rs, ps_error = ps_error st\<rparr>"

lemma advance_Nil [simp]: "advance st [] = st"
  by (simp add: advance_def with_status_def)

lemma advance_Cons: "advance (advance st [tr]) rs = advance st (tr # rs)"
  by (simp add: advance_def with_status_def)

lemma parse_tests_clean:
  assumes "list_all2 (item_ok float_str) ts rs"
  shows "parse_tests float_str ts st = Inr (Some (advance st rs))"
  using assms
proof (induction ts rs arbitrary: st rule: list_all2_induct)
  case Nil
  show ?case by simp
next
  case (Cons t ts tr rs)
  from Cons.hyps(1) obtain kvs where kvs: "t = J_obj kvs"
    "map_of kvs ''nodeid'' = Some (J_str (tr_test_id tr))" "\<not> blank (tr_test_id tr)"
    "tr_status tr = status_of (map_of kvs ''outcome'')"
    "read_duration float_str kvs = Inr (tr_duration tr, False)" "tr_failure_digest tr = None"
    by (auto simp: item_ok_def)
  then have "parse_tests float_str (t # ts) st = parse_tests float_str ts (advance st [tr])"
    by (cases tr) (auto simp: advance_def with_status_def Let_def)
  with Cons.IH show ?case by (simp add: advance_Cons)
qed

lemma parse_tests_error_sticky:
  "parse_tests float_str ts st = Inr (Some st') \<Longrightarrow> ps_error st \<Longrightarrow> ps_error st'"
  by (induction ts arbitrary: st)
    (fastforce simp: bind_res_Inr_iff Let_def split: json.splits option.splits if_splits)+

lemma parse_tests_cleanD:
  assumes "parse_tests float_str ts st = Inr (Some st')" and "\<not> ps_error st'"
  shows "\<exists>rs. list_all2 (item_ok float_str) ts rs \<and> st' = advance st rs"
  using assms
proof (induction ts arbitrary: st)
  case Nil
  then show ?case by (intro exI [of _ "[]"]) simp
next
  case (Cons t ts)
  from Cons.prems(1) obtain kvs nodeid d bad where kvs: "t = J_obj kvs"
    "map_of kvs ''nodeid'' = Some (J_str nodeid)" "\<not> blank nodeid"
    "read_duration float_str kvs = Inr (d, bad)"
    by (auto simp: bind_res_Inr_iff split: json.splits option.splits if_splits)
  define tr where "tr = \<lparr>tr_test_id = nodeid, tr_status = status_of (map_of kvs ''outcome''),
    tr_duration = d, tr_failure_digest = None\<rparr>"
  let ?st = "(advance st [tr])\<lparr>ps_error := ps_error st \<or> bad\<rparr>"
  have step: "parse_tests float_str (t # ts) st = parse_tests float_str ts ?st"
    using kvs by (auto simp: advance_def with_status_def tr_def Let_def)
  with Cons.prems parse_tests_error_sticky [of float_str ts ?st st'] have "\<not> bad" by auto
  then have "?st = advance st [tr]" by (simp add: advance_def)
  with step Cons obtain rs where rs: "list_all2 (item_ok float_str) ts rs"
    "st' = advance (advance st [tr]) rs" by metis
  moreover have "item_ok float_str t tr"
    using kvs \<open>\<not> bad\<close> by (simp add: item_ok_def tr_def)
  ultimately show ?case
    by (intro exI [of _ "tr # rs"]) (simp add: advance_Cons)
qed

section \<open>Acceptance\<close>

text \<open>The report a test run must have delivered for \<open>accept\<close>.\<close>

definition accepted_report ::
    "TestResult list \<Rightarrow> VerifierManifest \<Rightarrow> ExecutionCapture \<Rightarrow> bool" where
  "accepted_report rs manifest capture \<longleftrightarrow> rs \<noteq> []
     \<and> (vm_expected_collection manifest = []
        \<or> mset (vm_expected_collection manifest) = mset (map tr_test_id rs))
     \<and> (\<forall>tr \<in> set rs. tr_status tr = T_passed
        \<or> tr_status tr = T_skipped \<and> tr_test_id tr \<in> set (vm_permitted_skips manifest))
     \<and> (\<forall>req \<in> set (vm_required_pass_ids manifest). \<exists>before tr after. rs = before @ tr # after
          \<and> tr_test_id tr = req \<and> tr_status tr = T_passed \<and> req \<notin> tr_test_id ` set after)
     \<and> c_exit_code capture \<in> {None, Some 0}"

text \<open>The bytes hold a report with the test items \<open>tests\<close>.\<close>

definition holds_tests :: "(string \<Rightarrow> json res) \<Rightarrow> string option \<Rightarrow> json list \<Rightarrow> bool" where
  "holds_tests loads report_bytes tests \<longleftrightarrow> (\<exists>bytes data. report_bytes = Some bytes
     \<and> \<not> bytes_blank bytes \<and> loads bytes = Inr (J_obj data)
     \<and> (map_of data ''tests'' = Some (J_arr tests) \<or> map_of data ''tests'' = None \<and> tests = []))"

lemma result_status_last:
  "result_status rs req = Some s \<longleftrightarrow> (\<exists>before tr after. rs = before @ tr # after
     \<and> tr_test_id tr = req \<and> tr_status tr = s \<and> req \<notin> tr_test_id ` set after)"
proof (induction rs rule: rev_induct)
  case Nil
  show ?case by (simp add: result_status_def)
next
  case (snoc x xs)
  have step: "result_status (xs @ [x]) req
      = (if tr_test_id x = req then Some (tr_status x) else result_status xs req)"
    by (simp add: result_status_def)
  show ?case
  proof (cases "tr_test_id x = req")
    case True
    have "(\<exists>before tr after. xs @ [x] = before @ tr # after \<and> tr_test_id tr = req
        \<and> tr_status tr = s \<and> req \<notin> tr_test_id ` set after) \<longleftrightarrow> tr_status x = s"
    proof
      assume "\<exists>before tr after. xs @ [x] = before @ tr # after \<and> tr_test_id tr = req
        \<and> tr_status tr = s \<and> req \<notin> tr_test_id ` set after"
      then obtain before tr after where *: "xs @ [x] = before @ tr # after" "tr_status tr = s"
        "req \<notin> tr_test_id ` set after" by blast
      have "after = []"
      proof (rule ccontr)
        assume "after \<noteq> []"
        then have "x = last after" using arg_cong [OF *(1), of last] by simp
        with \<open>after \<noteq> []\<close> True *(3) show False by auto
      qed
      with * show "tr_status x = s" by simp
    next
      assume "tr_status x = s"
      with True show "\<exists>before tr after. xs @ [x] = before @ tr # after \<and> tr_test_id tr = req
        \<and> tr_status tr = s \<and> req \<notin> tr_test_id ` set after" by fastforce
    qed
    with step True show ?thesis by simp
  next
    case False
    have "(\<exists>before tr after. xs @ [x] = before @ tr # after \<and> tr_test_id tr = req
        \<and> tr_status tr = s \<and> req \<notin> tr_test_id ` set after)
      \<longleftrightarrow> (\<exists>before tr after. xs = before @ tr # after \<and> tr_test_id tr = req
        \<and> tr_status tr = s \<and> req \<notin> tr_test_id ` set after)" (is "?L = ?R")
    proof
      assume ?L
      then obtain before tr after where *: "xs @ [x] = before @ tr # after" "tr_test_id tr = req"
        "tr_status tr = s" "req \<notin> tr_test_id ` set after" by blast
      then have "after \<noteq> []" using False by auto
      then obtain after' where "after = after' @ [x]" "xs = before @ tr # after'"
        using *(1) by (metis append_butlast_last_id butlast.simps(2) butlast_append butlast_snoc
            last.simps last_append last_snoc list.distinct(1))
      with * show ?R by auto
    next
      assume ?R
      then obtain before tr after where "xs = before @ tr # after" "tr_test_id tr = req"
        "tr_status tr = s" "req \<notin> tr_test_id ` set after" by blast
      with False show ?L by (intro exI [of _ before] exI [of _ tr] exI [of _ "after @ [x]"]) auto
    qed
    with step False snoc.IH show ?thesis by simp
  qed
qed

lemma status_of_cases: "status_of v \<in> {T_passed, T_skipped, T_failed}"
  by (auto simp: status_of_def split: option.splits json.splits)

lemma classify_accept_iff:
  assumes "\<forall>tr \<in> set rs. tr_status tr \<in> {T_passed, T_skipped, T_failed}"
  shows "po_outcome (classify (advance empty_state rs) manifest capture) = Accept
    \<longleftrightarrow> accepted_report rs manifest capture"
proof -
  let ?exp = "vm_expected_collection manifest" and ?ids = "map tr_test_id rs"
  have failed: "0 < with_status T_failed rs \<longleftrightarrow> (\<exists>tr \<in> set rs. tr_status tr = T_failed)"
    by (auto simp: with_status_def filter_empty_conv)
  have coll: "\<not> (?exp \<noteq> [] \<and> set ?exp \<noteq> set ?ids) \<and> \<not> (?exp \<noteq> [] \<and> sort ?exp \<noteq> sort ?ids)
      \<longleftrightarrow> ?exp = [] \<or> mset ?exp = mset ?ids"
    unfolding sort_eq_iff using mset_eq_setD [of ?exp ?ids] by blast
  have req: "list_all (\<lambda>req. result_status rs req = Some T_passed) (vm_required_pass_ids manifest)
    \<longleftrightarrow> (\<forall>req \<in> set (vm_required_pass_ids manifest). \<exists>before tr after. rs = before @ tr # after
          \<and> tr_test_id tr = req \<and> tr_status tr = T_passed \<and> req \<notin> tr_test_id ` set after)"
    by (simp add: list_all_iff result_status_last)
  have stat: "\<not> list_ex (\<lambda>tr. tr_status tr = T_skipped \<and> tr_test_id tr \<notin> set (vm_permitted_skips manifest)) rs
      \<and> \<not> 0 < with_status T_failed rs
    \<longleftrightarrow> (\<forall>tr \<in> set rs. tr_status tr = T_passed
        \<or> tr_status tr = T_skipped \<and> tr_test_id tr \<in> set (vm_permitted_skips manifest))"
    unfolding failed list_ex_iff using assms by auto
  have adv: "ps_error (advance empty_state rs) = False"
    "ps_collected (advance empty_state rs) = ?ids" "ps_results (advance empty_state rs) = rs"
    "ps_failed (advance empty_state rs) = with_status T_failed rs"
    by (simp_all add: advance_def empty_state_def)
  have "po_outcome (classify (advance empty_state rs) manifest capture) = Accept \<longleftrightarrow>
      rs \<noteq> [] \<and> (\<not> (?exp \<noteq> [] \<and> set ?exp \<noteq> set ?ids) \<and> \<not> (?exp \<noteq> [] \<and> sort ?exp \<noteq> sort ?ids))
      \<and> (\<not> list_ex (\<lambda>tr. tr_status tr = T_skipped \<and> tr_test_id tr \<notin> set (vm_permitted_skips manifest)) rs
          \<and> \<not> 0 < with_status T_failed rs)
      \<and> list_all (\<lambda>req. result_status rs req = Some T_passed) (vm_required_pass_ids manifest)
      \<and> c_exit_code capture \<in> {None, Some 0}"
    unfolding classify_def Let_def adv by (simp add: invalid_outcome_def)
  then show ?thesis
    unfolding coll req stat accepted_report_def by blast
qed

lemma parse_eq:
  assumes "holds_tests loads report_bytes tests"
  shows "parse loads float_str report_bytes manifest capture =
    bind_res (parse_tests float_str tests empty_state) (\<lambda>st. case st of
      None \<Rightarrow> Inr (invalid_outcome (ec_value EC_PARSER_ERROR) None [])
    | Some st \<Rightarrow> Inr (classify st manifest capture))"
  using assms
  by (cases "parse_tests float_str tests empty_state")
    (auto simp: holds_tests_def parse_def Let_def split: option.split)

lemma parse_no_tests:
  assumes "\<And>tests. \<not> holds_tests loads report_bytes tests"
  shows "parse loads float_str report_bytes manifest capture
      = Inr (invalid_outcome (ec_value EC_EMPTY_COLLECTION) None [])
    \<or> parse loads float_str report_bytes manifest capture
      = Inr (invalid_outcome (ec_value EC_PARSER_ERROR) None [])
    \<or> (\<exists>bytes e. report_bytes = Some bytes \<and> loads bytes = Inl e \<and> \<not> value_error e
        \<and> parse loads float_str report_bytes manifest capture = Inl e)"
proof (cases report_bytes)
  case None
  then show ?thesis by (simp add: parse_def)
next
  case (Some bytes)
  show ?thesis
  proof (cases "bytes_blank bytes")
    case True
    with Some show ?thesis by (simp add: parse_def)
  next
    case False
    have refuse: "parse loads float_str report_bytes manifest capture = Inr (invalid_outcome (ec_value EC_PARSER_ERROR) None [])"
      if "loads bytes = Inr (J_obj data)" for data
      using assms Some False that
      by (cases "map_of data ''tests''"; cases "the (map_of data ''tests'')") (auto simp: parse_def holds_tests_def)
    show ?thesis
    proof (cases "loads bytes")
      case (Inl e)
      with Some False show ?thesis by (cases "value_error e") (simp_all add: parse_def)
    next
      case (Inr v)
      with Some False refuse show ?thesis by (cases v) (simp_all add: parse_def)
    qed
  qed
qed

lemma classify_parse_error:
  "ps_error st \<Longrightarrow> po_outcome (classify st manifest capture) = Invalid_evaluation"
  by (simp add: classify_def invalid_outcome_def Let_def)

lemma parse_accept_iff:
  "(\<exists>po. parse loads float_str report_bytes manifest capture = Inr po \<and> po_outcome po = Accept)
   \<longleftrightarrow> (\<exists>tests rs. holds_tests loads report_bytes tests \<and> list_all2 (item_ok float_str) tests rs
        \<and> accepted_report rs manifest capture)" (is "?L \<longleftrightarrow> ?R")
proof
  assume ?L
  then obtain po where po: "parse loads float_str report_bytes manifest capture = Inr po"
    "po_outcome po = Accept" by blast
  have "\<exists>tests. holds_tests loads report_bytes tests"
  proof (rule ccontr)
    assume "\<nexists>tests. holds_tests loads report_bytes tests"
    with parse_no_tests [of loads report_bytes float_str manifest capture] po show False
      by (auto simp: invalid_outcome_def)
  qed
  then obtain tests where tests: "holds_tests loads report_bytes tests" by blast
  from po parse_eq [OF tests, of float_str manifest capture] obtain st where
    st: "parse_tests float_str tests empty_state = Inr (Some st)" "po = classify st manifest capture"
    by (auto simp: bind_res_Inr_iff invalid_outcome_def split: option.splits)
  with po(2) classify_parse_error have "\<not> ps_error st" by fastforce
  from parse_tests_cleanD [OF st(1) this] obtain rs where
    rs: "list_all2 (item_ok float_str) tests rs" "st = advance empty_state rs" by blast
  have "\<forall>tr \<in> set rs. tr_status tr \<in> {T_passed, T_skipped, T_failed}"
    using rs(1) status_of_cases
    by (auto simp: list_all2_conv_all_nth in_set_conv_nth item_ok_def) metis+
  from classify_accept_iff [OF this] po(2) st(2) rs tests show ?R by blast
next
  assume ?R
  then obtain tests rs where *: "holds_tests loads report_bytes tests"
    "list_all2 (item_ok float_str) tests rs" "accepted_report rs manifest capture" by blast
  then have "\<forall>tr \<in> set rs. tr_status tr \<in> {T_passed, T_skipped, T_failed}"
    by (auto simp: accepted_report_def)
  from classify_accept_iff [OF this] * show ?L
    by (simp add: parse_eq [OF *(1)] parse_tests_clean [OF *(2)])
qed

text \<open>
  C14. The parser accepts exactly the reports that show acceptance: every item is well formed,
  the collection is not empty and is the expected one as a multiset, every test passed or is a
  permitted skip, the last result of every required test is a pass, and the process did not
  exit with a nonzero status.
\<close>

theorem parse_accepts_exactly_accepted_reports:
  "(\<exists>po. parse loads float_str report_bytes manifest capture = Inr po \<and> po_outcome po = Accept)
   \<longleftrightarrow> (\<exists>tests rs. holds_tests loads report_bytes tests \<and> list_all2 (item_ok float_str) tests rs
        \<and> accepted_report rs manifest capture)"
  by (rule parse_accept_iff)

section \<open>Validity\<close>

text \<open>The pairs of outcome and validity an attempt may be committed with.\<close>

definition classified :: "ParsedOutcome \<Rightarrow> bool" where
  "classified po \<longleftrightarrow> (po_evaluation_validity po = Valid \<and> po_outcome po \<in> {Accept, Reject})
     \<or> (po_evaluation_validity po = Invalid \<and> po_outcome po \<in> {Invalid_evaluation, Error})"

lemma classify_classified: "classified (classify st manifest capture)"
  "po_evidence_digests (classify st manifest capture) = []"
  "po_outcome (classify st manifest capture) \<noteq> Error"
  by (simp_all add: classified_def classify_def invalid_outcome_def Let_def)

lemma parse_classified:
  assumes "parse loads float_str report_bytes manifest capture = Inr po"
  shows "classified po \<and> po_evidence_digests po = [] \<and> po_outcome po \<noteq> Error"
proof (cases "\<exists>tests. holds_tests loads report_bytes tests")
  case True
  then obtain tests where "holds_tests loads report_bytes tests" by blast
  with assms have "po = invalid_outcome (ec_value EC_PARSER_ERROR) None []
      \<or> (\<exists>st. po = classify st manifest capture)"
    by (auto simp: parse_eq bind_res_Inr_iff split: option.splits)
  then show ?thesis
    using classify_classified by (auto simp: classified_def invalid_outcome_def)
next
  case False
  with parse_no_tests [of loads report_bytes float_str manifest capture] assms show ?thesis
    by (auto simp: classified_def invalid_outcome_def)
qed

definition clean_execution :: "ExecutionCapture \<Rightarrow> VerifierManifest \<Rightarrow> bool" where
  "clean_execution capture manifest \<longleftrightarrow> c_runtime_error capture \<in> {None, Some []}
     \<and> c_build_exit_code capture \<in> {None, Some 0} \<and> \<not> c_cancelled capture \<and> \<not> c_timed_out capture
     \<and> c_oom_killed capture \<noteq> Some True \<and> \<not> c_truncated capture
     \<and> vm_parser_id manifest = PARSER_ID"

lemma parse_capture_facts:
  assumes "parse_capture loads float_str capture manifest report_bytes = Inr po"
  shows "classified po \<and> po_evidence_digests po = capture_digests capture
    \<and> (po_evaluation_validity po = Valid \<longrightarrow> clean_execution capture manifest
        \<and> (\<exists>po'. parse loads float_str report_bytes manifest capture = Inr po'
            \<and> po_outcome po' = po_outcome po \<and> po_report po' = po_report po))
    \<and> (po_outcome po = Error \<longleftrightarrow>
        (\<exists>e. c_runtime_error capture = Some e \<and> e \<noteq> [] \<and> \<not> patch_error e))"
proof (cases "c_runtime_error capture \<in> {None, Some []}")
  case rt: False
  then obtain e where e: "c_runtime_error capture = Some e" "e \<noteq> []" by auto
  with assms show ?thesis
    by (cases "patch_error e") (auto simp: parse_capture_def classified_def invalid_outcome_def)
next
  case rt: True
  show ?thesis
  proof (cases "clean_execution capture manifest")
    case True
    then have "parse_capture loads float_str capture manifest report_bytes =
        bind_res (parse loads float_str report_bytes manifest capture) (\<lambda>result.
          if po_evidence_digests result = [] \<and> capture_digests capture \<noteq> []
          then Inr (result\<lparr>po_evidence_digests := capture_digests capture\<rparr>) else Inr result)"
      by (auto simp: parse_capture_def clean_execution_def Let_def)
    with assms obtain po' where po': "parse loads float_str report_bytes manifest capture = Inr po'"
      "(if po_evidence_digests po' = [] \<and> capture_digests capture \<noteq> []
        then Inr (po'\<lparr>po_evidence_digests := capture_digests capture\<rparr>) else Inr po')
        = (Inr po :: ParsedOutcome res)"
      by (auto simp only: bind_res_Inr_iff)
    have po: "po = po'\<lparr>po_evidence_digests := capture_digests capture\<rparr>"
      using parse_classified [OF po'(1)] po'(2) by (cases po') (auto split: if_splits)
    with parse_classified [OF po'(1)] po'(1) rt True show ?thesis
      by (auto simp: classified_def)
  next
    case False
    with assms rt have "\<exists>code. po = invalid_outcome code None (capture_digests capture)"
      by (auto simp: parse_capture_def clean_execution_def Let_def split: if_splits)
    with rt show ?thesis by (auto simp: classified_def invalid_outcome_def)
  qed
qed

text \<open>
  What can be wrong with an execution, apart from its report, in the order of precedence. A runtime error that names the patch
  (\<open>patch_error\<close>) is a fault of the patch and not of the infrastructure.
\<close>

datatype fault =
    F_patch | F_runtime string | F_build | F_cancelled | F_timeout | F_memory | F_truncated | F_parser

definition faults :: "ExecutionCapture \<Rightarrow> VerifierManifest \<Rightarrow> fault list" where
  "faults capture manifest =
    [if patch_error e then F_patch else F_runtime e. e \<leftarrow> (case c_runtime_error capture of Some e \<Rightarrow> [e] | None \<Rightarrow> []), e \<noteq> []]
    @ [F_build. s \<leftarrow> (case c_build_exit_code capture of Some s \<Rightarrow> [s] | None \<Rightarrow> []), s \<noteq> 0]
    @ (if c_cancelled capture then [F_cancelled] else [])
    @ (if c_timed_out capture then [F_timeout] else [])
    @ (if c_oom_killed capture = Some True then [F_memory] else [])
    @ (if c_truncated capture then [F_truncated] else [])
    @ (if vm_parser_id manifest = PARSER_ID then [] else [F_parser])"

text \<open>The outcome and the error code of a fault.\<close>

fun fault_verdict :: "fault \<Rightarrow> outcome \<times> string" where
  "fault_verdict F_patch = (Invalid_evaluation, ''PATCH_ERROR'')"
| "fault_verdict (F_runtime e) = (Error, e)"
| "fault_verdict F_build = (Invalid_evaluation, ''BUILD_ERROR'')"
| "fault_verdict F_cancelled = (Invalid_evaluation, ''CANCELLED'')"
| "fault_verdict F_timeout = (Invalid_evaluation, ''TIMEOUT'')"
| "fault_verdict F_memory = (Invalid_evaluation, ''RESOURCE_EXHAUSTED'')"
| "fault_verdict F_truncated = (Invalid_evaluation, ''ARTIFACT_LIMIT'')"
| "fault_verdict F_parser = (Invalid_evaluation, ''PARSER_ERROR'')"

definition faulty :: "fault \<Rightarrow> string list \<Rightarrow> ParsedOutcome" where
  "faulty f digests = \<lparr>po_outcome = fst (fault_verdict f), po_evaluation_validity = Invalid,
     po_error_code = Some (snd (fault_verdict f)), po_report = None, po_evidence_digests = digests\<rparr>"

lemma faults_Nil: "faults capture manifest = [] \<longleftrightarrow> clean_execution capture manifest"
  by (auto simp: faults_def clean_execution_def split: option.splits)

lemma parse_capture_clean:
  assumes "clean_execution capture manifest"
  shows "parse_capture loads float_str capture manifest report_bytes =
    bind_res (parse loads float_str report_bytes manifest capture)
      (\<lambda>po. Inr (po\<lparr>po_evidence_digests := capture_digests capture\<rparr>))"
proof (cases "parse loads float_str report_bytes manifest capture")
  case (Inl e)
  with assms show ?thesis by (auto simp: parse_capture_def clean_execution_def Let_def)
next
  case (Inr po)
  with assms parse_classified [OF Inr] show ?thesis
    by (cases po) (auto simp: parse_capture_def clean_execution_def Let_def)
qed

lemma parse_capture_faulty:
  assumes "faults capture manifest = f # later"
  shows "parse_capture loads float_str capture manifest report_bytes = Inr (faulty f (capture_digests capture))"
proof (cases "c_runtime_error capture \<in> {None, Some []}")
  case False
  with assms show ?thesis
    by (auto simp: faults_def parse_capture_def faulty_def invalid_outcome_def Let_def)
next
  case True
  then have "faults capture manifest = faults (capture\<lparr>c_runtime_error := None\<rparr>) manifest"
    by (auto simp: faults_def)
  with assms True show ?thesis
    by (auto simp: faults_def parse_capture_def faulty_def invalid_outcome_def Let_def split: if_splits option.splits)
qed

text \<open>
  C15. Precedence of the classification. The first fault in the order runtime error, failed build, cancellation,
  timeout, memory kill, truncation, unknown parser decides outcome and error code, whatever the later ones and the
  report are; a runtime error that names the patch counts as \<open>PATCH_ERROR\<close> with an invalid evaluation, any
  other one as \<open>error\<close> with its own code. Without a fault the answer (or exception) of the report parser stands. In every
  case the digests of the captured bytes are kept. The answer is valid exactly if there is no fault and the
  parser's answer is, and it is \<open>error\<close> exactly for a runtime error that does not name the patch.
\<close>

theorem capture_classification:
  "parse_capture loads float_str capture manifest report_bytes =
      (case faults capture manifest of
         f # later \<Rightarrow> Inr (faulty f (capture_digests capture))
       | [] \<Rightarrow> bind_res (parse loads float_str report_bytes manifest capture)
           (\<lambda>po. Inr (po\<lparr>po_evidence_digests := capture_digests capture\<rparr>)))
    \<and> ((\<exists>po. parse_capture loads float_str capture manifest report_bytes = Inr po \<and> po_evaluation_validity po = Valid)
       \<longleftrightarrow> faults capture manifest = []
         \<and> (\<exists>po. parse loads float_str report_bytes manifest capture = Inr po \<and> po_evaluation_validity po = Valid))
    \<and> ((\<exists>po. parse_capture loads float_str capture manifest report_bytes = Inr po \<and> po_outcome po = Error)
       \<longleftrightarrow> (\<exists>e. c_runtime_error capture = Some e \<and> e \<noteq> [] \<and> \<not> patch_error e))"
proof (cases "faults capture manifest")
  case Nil
  then have clean: "clean_execution capture manifest" by (simp add: faults_Nil)
  then have "\<not> (\<exists>e. c_runtime_error capture = Some e \<and> e \<noteq> [] \<and> \<not> patch_error e)"
    by (auto simp: clean_execution_def)
  with Nil parse_classified [of loads float_str report_bytes manifest capture] show ?thesis
    by (cases "parse loads float_str report_bytes manifest capture") (simp_all add: parse_capture_clean [OF clean])
next
  case (Cons f later)
  note eq = parse_capture_faulty [OF Cons]
  have "po_outcome (faulty f (capture_digests capture)) = Error
      \<longleftrightarrow> (\<exists>e. c_runtime_error capture = Some e \<and> e \<noteq> [] \<and> \<not> patch_error e)"
    using parse_capture_facts [OF eq [of loads float_str report_bytes]] by blast
  with Cons show ?thesis by (simp add: eq) (simp add: faulty_def)
qed

definition ex_usage :: ResourceUsage where
  "ex_usage = \<lparr>ru_duration = Some (PFin 0), ru_allocated_cpu = None, ru_cpu_seconds = None,
     ru_peak_memory = None, ru_model_usage = None, ru_estimated_cost = None,
     ru_pricing_version = None, ru_bytes_written = None\<rparr>"

definition ex_clean_capture :: ExecutionCapture where
  "ex_clean_capture = \<lparr>c_attempt_id = ''a'', c_exit_code = Some 0, c_timed_out = False,
     c_oom_killed = Some False, c_cancelled = False, c_build_exit_code = None,
     c_stdout_hash = Some ''so'', c_stderr_hash = None, c_report_digest = Some ''rd'',
     c_truncated = False, c_resources = ex_usage, c_runtime_error = None\<rparr>"

definition ex_vmanifest :: VerifierManifest where
  "ex_vmanifest = \<lparr>vm_manifest_hash = ''h'', vm_mode = ''compatibility'',
     vm_command = [''pytest''], vm_build_command = [], vm_expected_collection = [''t1'', ''t2''],
     vm_parser_id = PARSER_ID, vm_report_path = ''report.json'', vm_payload_digest = ''p'',
     vm_allowed_edit_paths = [''src/''], vm_required_pass_ids = [''t1''],
     vm_permitted_skips = [''t2''], vm_timeout_seconds = 60\<rparr>"

definition ex_loads :: "string \<Rightarrow> json res" where
  "ex_loads s = Inr (J_obj [(''tests'', J_arr
     [J_obj [(''nodeid'', J_str ''t2''), (''outcome'', J_str ''Skipped'')],
      J_obj [(''nodeid'', J_str ''t1''), (''outcome'', J_str ''passed''),
             (''duration'', J_int 2)]])])"

text \<open>A cancelled execution that also ran out of time and lost output is cancelled.\<close>

lemma ex_cancelled_first:
  "parse_capture loads float_str (ex_clean_capture\<lparr>c_truncated := True, c_timed_out := True, c_cancelled := True\<rparr>) ex_vmanifest report_bytes
    = Inr (faulty F_cancelled [''so'', ''rd''])"
proof -
  have "faults (ex_clean_capture\<lparr>c_truncated := True, c_timed_out := True, c_cancelled := True\<rparr>) ex_vmanifest
      = [F_cancelled, F_timeout, F_truncated]" by code_simp
  from parse_capture_faulty [OF this] show ?thesis
    by (simp add: ex_clean_capture_def capture_digests_def)
qed

section \<open>Exceptions\<close>

lemma read_duration_raises:
  assumes "read_duration float_str kvs = Inl e"
  shows "\<exists>n. map_of kvs ''duration'' = Some (J_int n) \<and> float_limit \<le> \<bar>n\<bar>
    \<and> e = PyExc ''OverflowError'' ''int too large to convert to float''"
  using assms
  by (auto simp: read_duration_def float_of_int_def type_or_value_error_def value_error_def
      split: option.splits json.splits sum.splits if_splits elim!: float_of_json.elims)

lemma parse_tests_raises:
  assumes "parse_tests float_str ts st = Inl e"
  shows "\<exists>kvs n. J_obj kvs \<in> set ts \<and> map_of kvs ''duration'' = Some (J_int n) \<and> float_limit \<le> \<bar>n\<bar>
    \<and> e = PyExc ''OverflowError'' ''int too large to convert to float''"
  using assms
proof (induction ts arbitrary: st)
  case (Cons t ts)
  show ?case
  proof (cases t)
    case (J_obj kvs)
    show ?thesis
    proof (cases "read_duration float_str kvs")
      case (Inl e')
      with Cons.prems J_obj have "e' = e"
        by (auto split: option.splits json.splits if_splits)
      with read_duration_raises [OF Inl] J_obj show ?thesis by fastforce
    next
      case (Inr db)
      with Cons.prems J_obj obtain st' where "parse_tests float_str ts st' = Inl e"
        by (auto simp: Let_def split: option.splits json.splits if_splits prod.splits)
      from Cons.IH [OF this] show ?thesis by auto
    qed
  qed (use Cons.prems in auto)
qed simp

text \<open>
  C16. The parser answers a typed outcome for every report, with two exceptions: an exception of
  the decoder that is not a \<open>ValueError\<close> escapes, and so does the \<open>OverflowError\<close> of a test whose
  duration is an integer beyond the range of a double.
\<close>

theorem parse_raises_only_on_overflow:
  assumes "parse loads float_str report_bytes manifest capture = Inl e"
  shows "(\<exists>bytes. report_bytes = Some bytes \<and> loads bytes = Inl e \<and> \<not> value_error e)
    \<or> (\<exists>tests kvs n. holds_tests loads report_bytes tests \<and> J_obj kvs \<in> set tests
        \<and> map_of kvs ''duration'' = Some (J_int n) \<and> float_limit \<le> \<bar>n\<bar>
        \<and> e = PyExc ''OverflowError'' ''int too large to convert to float'')"
proof (cases "\<exists>tests. holds_tests loads report_bytes tests")
  case True
  then obtain tests where tests: "holds_tests loads report_bytes tests" by blast
  with assms have "parse_tests float_str tests empty_state = Inl e"
    by (auto simp: parse_eq bind_res_def split: sum.splits option.splits)
  from parse_tests_raises [OF this] tests show ?thesis by blast
next
  case False
  with parse_no_tests [of loads report_bytes float_str manifest capture] assms show ?thesis by auto
qed

definition ex_huge_loads :: "string \<Rightarrow> json res" where
  "ex_huge_loads s = Inr (J_obj [(''tests'', J_arr
     [J_obj [(''nodeid'', J_str ''t1''), (''outcome'', J_str ''passed''),
             (''duration'', J_int (10 ^ 400))]])])"

theorem parse_raises_only_on_overflow_witness:
  "\<exists>e. parse ex_huge_loads (\<lambda>_. None) (Some ''{}'') ex_vmanifest ex_clean_capture = Inl e
     \<and> e = PyExc ''OverflowError'' ''int too large to convert to float''"
proof -
  have "case parse ex_huge_loads (\<lambda>_. None) (Some ''{}'') ex_vmanifest ex_clean_capture of
      Inl e \<Rightarrow> True | Inr _ \<Rightarrow> False" by code_simp
  then obtain e where "parse ex_huge_loads (\<lambda>_. None) (Some ''{}'') ex_vmanifest ex_clean_capture = Inl e"
    by (auto split: sum.splits)
  from parse_raises_only_on_overflow [OF this] this show ?thesis
    by (auto simp: ex_huge_loads_def)
qed

end
