(* ===== verification/Matrix.thy ===== *)
theory Matrix
  imports Canonical_Json
begin

text \<open>
  The reduction of attempts to acceptance cells and the assembly of the acceptance matrix:
  \<open>src/src/verifierci/execution/matrix.py\<close>. In \<open>cell_repetition_outcomes\<close> the string
  \<open>"pending"\<close> is \<open>None\<close>. SHA-256 is the parameter \<open>H\<close>, the clock the parameter \<open>now\<close>; a
  mapping whose iteration order matters (the adjudications) is an association list.
\<close>

section \<open>Names of the literals\<close>

fun outcome_name :: "outcome \<Rightarrow> string" where
  "outcome_name Accept = ''accept''"
| "outcome_name Reject = ''reject''"
| "outcome_name Invalid_evaluation = ''invalid_evaluation''"
| "outcome_name Error = ''error''"
| "outcome_name Flaky = ''flaky''"

fun validity_name :: "validity \<Rightarrow> string" where
  "validity_name Pending = ''pending''"
| "validity_name Valid = ''valid''"
| "validity_name Invalid = ''invalid''"

fun disposition_name :: "disposition \<Rightarrow> string" where
  "disposition_name Active = ''active''"
| "disposition_name Authoritative = ''authoritative''"
| "disposition_name Stale = ''stale''"
| "disposition_name Abandoned = ''abandoned''"

section \<open>Cells\<close>

text \<open>\<open>max(xs, key=...)\<close>: the first of the maximal elements.\<close>

fun max_by :: "('a \<Rightarrow> 'k :: linorder) \<Rightarrow> 'a \<Rightarrow> 'a list \<Rightarrow> 'a" where
  "max_by key best [] = best"
| "max_by key best (x # xs) = max_by key (if key best < key x then x else best) xs"

definition attempt_key :: "EvaluationAttempt \<Rightarrow> int \<times> datetime \<times> string" where
  "attempt_key a = (a_fence a, a_started_at a, a_attempt_id a)"

definition latest :: "EvaluationAttempt list \<Rightarrow> EvaluationAttempt" where
  "latest xs = max_by attempt_key (hd xs) (tl xs)"

text \<open>The four lists the loop over the repetitions extends.\<close>

record reduction =
  rd_selected :: "string list"
  rd_excluded :: "string list"
  rd_outcomes :: "outcome option list"
  rd_codes :: "string list"

definition code_of :: "EvaluationAttempt \<Rightarrow> string list" where
  "code_of a = (case a_error_code a of None \<Rightarrow> [] | Some c \<Rightarrow> if c = [] then [] else [c])"

definition select_attempt ::
    "EvaluationAttempt \<Rightarrow> EvaluationAttempt list \<Rightarrow> reduction \<Rightarrow> reduction" where
  "select_attempt selected rep_attempts rd = \<lparr>
     rd_selected = rd_selected rd @ [a_attempt_id selected],
     rd_excluded = rd_excluded rd @ map a_attempt_id
       (filter (\<lambda>a. a_attempt_id a \<noteq> a_attempt_id selected) rep_attempts),
     rd_outcomes = rd_outcomes rd @ [a_outcome selected],
     rd_codes = rd_codes rd @ code_of selected\<rparr>"

definition no_selection :: "EvaluationAttempt list \<Rightarrow> reduction \<Rightarrow> reduction" where
  "no_selection rep_attempts rd = rd\<lparr>
     rd_excluded := rd_excluded rd @ map a_attempt_id rep_attempts,
     rd_outcomes := rd_outcomes rd @ [None]\<rparr>"

text \<open>One repetition.\<close>

definition reduce_repetition :: "EvaluationAttempt list \<Rightarrow> reduction \<Rightarrow> reduction" where
  "reduce_repetition rep_attempts rd =
    (let authoritative = filter (\<lambda>a. a_disposition a = Authoritative) rep_attempts in
     if authoritative \<noteq> [] then select_attempt (latest authoritative) rep_attempts rd
     else if rep_attempts \<noteq> [] then
       (let active_or_done = latest rep_attempts in
        if a_disposition active_or_done \<in> {Stale, Abandoned} then no_selection rep_attempts rd
        else select_attempt active_or_done rep_attempts rd)
     else no_selection [] rd)"

text \<open>The attempts of one repetition, and those of no planned repetition.\<close>

definition repetition_of :: "(string \<Rightarrow> int option) \<Rightarrow> int \<Rightarrow> EvaluationAttempt \<Rightarrow> int option" where
  "repetition_of job_repetition planned a = (case job_repetition (a_job_id a) of
     None \<Rightarrow> None
   | Some rep \<Rightarrow> if rep < 0 \<or> rep \<ge> planned then None else Some rep)"

definition reduce_attempts ::
    "(string \<Rightarrow> int option) \<Rightarrow> int \<Rightarrow> EvaluationAttempt list \<Rightarrow> reduction" where
  "reduce_attempts job_repetition planned attempts =
    foldl (\<lambda>rd r. reduce_repetition
        (filter (\<lambda>a. repetition_of job_repetition planned a = Some r) attempts) rd)
      \<lparr>rd_selected = [],
       rd_excluded = map a_attempt_id
         (filter (\<lambda>a. repetition_of job_repetition planned a = None) attempts),
       rd_outcomes = [], rd_codes = []\<rparr>
      [0..planned - 1]"

text \<open>
  Outcome and validity of a cell, and the diagnostic code the verdict adds. The counts are over
  the completed outcomes.
\<close>

definition cell_verdict :: "int \<Rightarrow> outcome option list \<Rightarrow> outcome \<times> validity \<times> string option" where
  "cell_verdict planned outcomes =
    (let completed = filter (\<lambda>out. out \<noteq> None) outcomes;
         total = length completed;
         accepts = count_list completed (Some Accept);
         rejects = count_list completed (Some Reject);
         invalids = count_list completed (Some Invalid_evaluation);
         errors = count_list completed (Some Error)
     in if int total < planned then (Invalid_evaluation, Invalid, Some ''INCOMPLETE_REPETITIONS'')
        else if accepts = total then (Accept, Valid, None)
        else if rejects = total then (Reject, Valid, None)
        else if accepts > 0 \<and> rejects > 0 \<and> accepts + rejects = total
          then (Flaky, Invalid, Some ''FLAKY'')
        else if invalids = total then (Invalid_evaluation, Invalid, None)
        else if errors = total then (Error, Invalid, None)
        else (Invalid_evaluation, Invalid, Some ''instability_detected''))"

text \<open>Diagnostic codes without repetition, in the order of their first occurrence.\<close>

fun dedup :: "string list \<Rightarrow> string list \<Rightarrow> string list" where
  "dedup seen [] = []"
| "dedup seen (c # cs) = (if c \<in> set seen then dedup seen cs else c # dedup (c # seen) cs)"

definition add_code :: "string option \<Rightarrow> string list \<Rightarrow> string list" where
  "add_code code codes = (case code of None \<Rightarrow> codes
     | Some c \<Rightarrow> if c \<in> set codes then codes else codes @ [c])"

definition aggregate_cell ::
    "string \<Rightarrow> string \<Rightarrow> string \<Rightarrow> string \<Rightarrow> string \<Rightarrow> label \<Rightarrow> role \<Rightarrow> int \<Rightarrow> EvaluationAttempt list
     \<Rightarrow> (string \<Rightarrow> int option) \<Rightarrow> AcceptanceCell" where
  "aggregate_cell task_key repository_id case_id verifier_key adjudication_id label role planned
     attempts job_repetition =
    (let rd = reduce_attempts job_repetition planned attempts;
         (outcome, validity, code) = cell_verdict planned (rd_outcomes rd)
     in \<lparr>cell_task_key = task_key, cell_repository_id = repository_id, cell_case_id = case_id,
         cell_verifier_key = verifier_key, cell_adjudication_id = adjudication_id,
         cell_label = label, cell_role = role, cell_outcome = outcome,
         cell_evaluation_validity = validity, cell_planned_repetitions = planned,
         cell_selected_attempt_ids = rd_selected rd, cell_excluded_attempt_ids = rd_excluded rd,
         cell_repetition_outcomes = rd_outcomes rd,
         cell_diagnostic_codes = dedup [] (add_code code (rd_codes rd))\<rparr>)"

section \<open>The matrix\<close>

definition DEFAULT_REDUCER_VERSION :: string where "DEFAULT_REDUCER_VERSION = ''1.0.0''"

definition cell_key :: "Job \<Rightarrow> string \<times> string \<times> string" where
  "cell_key j = (j_task_key j, j_case_id j, j_verifier_key j)"

definition job_by_id :: "Job list \<Rightarrow> string \<Rightarrow> Job option" where
  "job_by_id jobs = map_of (rev (map (\<lambda>j. (j_job_id j, j)) jobs))"

definition job_repetition_map :: "Job list \<Rightarrow> string \<Rightarrow> int option" where
  "job_repetition_map jobs = map_of (rev (map (\<lambda>j. (j_job_id j, j_repetition j)) jobs))"

definition cell_attempts ::
    "Job list \<Rightarrow> EvaluationAttempt list \<Rightarrow> string \<times> string \<times> string \<Rightarrow> EvaluationAttempt list" where
  "cell_attempts jobs attempts k =
    filter (\<lambda>a. map_option cell_key (job_by_id jobs (a_job_id a)) = Some k) attempts"

text \<open>The adjudication of a case: by key, else the first value that names the case.\<close>

definition adjudication_of :: "(string \<times> Adjudication) list \<Rightarrow> string \<Rightarrow> Adjudication option" where
  "adjudication_of adjudications case_id = (case map_of adjudications case_id of
     Some adj \<Rightarrow> Some adj
   | None \<Rightarrow> find (\<lambda>adj. ad_case_id adj = case_id) (map snd adjudications))"

definition build_cell ::
    "AuditManifest \<Rightarrow> Job list \<Rightarrow> EvaluationAttempt list \<Rightarrow> (string \<times> Adjudication) list
     \<Rightarrow> (string \<Rightarrow> PatchCase option) \<Rightarrow> (string \<Rightarrow> string option)
     \<Rightarrow> string \<times> string \<times> string \<Rightarrow> AcceptanceCell" where
  "build_cell manifest jobs attempts adjudications cases repositories k =
    (let (t_key, c_id, v_key) = k; adj = adjudication_of adjudications c_id
     in aggregate_cell t_key
          (case repositories t_key of None \<Rightarrow> [] | Some r \<Rightarrow> r) c_id v_key
          (case adj of None \<Rightarrow> ''unadjudicated'' | Some a \<Rightarrow> ad_adjudication_id a)
          (case adj of None \<Rightarrow> L_unresolved | Some a \<Rightarrow> ad_label a)
          (case cases c_id of None \<Rightarrow> R_challenge | Some c \<Rightarrow> pc_role c)
          (m_max_repetitions manifest) (cell_attempts jobs attempts k) (job_repetition_map jobs))"

definition matrix_cells ::
    "AuditManifest \<Rightarrow> Job list \<Rightarrow> EvaluationAttempt list \<Rightarrow> (string \<times> Adjudication) list
     \<Rightarrow> (string \<Rightarrow> PatchCase option) \<Rightarrow> (string \<Rightarrow> string option) \<Rightarrow> AcceptanceCell list" where
  "matrix_cells manifest jobs attempts adjudications cases repositories =
    map (build_cell manifest jobs attempts adjudications cases repositories)
      (sort (remdups (map cell_key jobs)))"

definition matrix_complete :: "AuditManifest \<Rightarrow> Job list \<Rightarrow> AcceptanceCell list \<Rightarrow> bool" where
  "matrix_complete manifest jobs cells \<longleftrightarrow>
     list_all (\<lambda>j. j_state j \<in> {DONE, FAILED, ABANDONED}) jobs
   \<and> list_all (\<lambda>c. int (length (cell_selected_attempt_ids c)) = m_max_repetitions manifest) cells"

text \<open>The records hashed into \<open>source_attempts_digest\<close> and into \<open>matrix_id\<close>.\<close>

definition attempt_record :: "EvaluationAttempt \<Rightarrow> pyval" where
  "attempt_record a = V_mapping [
     (''attempt_id'', V_str (a_attempt_id a)),
     (''job_id'', V_str (a_job_id a)),
     (''disposition'', V_str (disposition_name (a_disposition a))),
     (''outcome'', case a_outcome a of None \<Rightarrow> V_none | Some out \<Rightarrow> V_str (outcome_name out)),
     (''validity'', V_str (validity_name (a_evaluation_validity a)))]"

definition cell_record :: "AcceptanceCell \<Rightarrow> pyval" where
  "cell_record c = V_mapping [
     (''task_key'', V_str (cell_task_key c)),
     (''case_id'', V_str (cell_case_id c)),
     (''verifier_key'', V_str (cell_verifier_key c)),
     (''outcome'', V_str (outcome_name (cell_outcome c))),
     (''validity'', V_str (validity_name (cell_evaluation_validity c)))]"

definition attempts_digest ::
    "(string \<Rightarrow> string) \<Rightarrow> (pyfloat \<Rightarrow> string) \<Rightarrow> EvaluationAttempt list \<Rightarrow> string res" where
  "attempts_digest H fr attempts =
    bind_res (canonical_bytes fr (V_seq (map attempt_record (sort_key a_attempt_id attempts))))
      (\<lambda>b. Inr (H b))"

definition matrix_identity ::
    "(string \<Rightarrow> string) \<Rightarrow> (pyfloat \<Rightarrow> string) \<Rightarrow> string \<Rightarrow> string \<Rightarrow> string \<Rightarrow> AcceptanceCell list
     \<Rightarrow> string res" where
  "matrix_identity H fr run_id reducer_version digest cells =
    bind_res (canonical_bytes fr (V_mapping [
        (''run_id'', V_str run_id),
        (''reducer_version'', V_str reducer_version),
        (''source_attempts_digest'', V_str digest),
        (''cells'', V_seq (map cell_record cells))]))
      (\<lambda>b. Inr (H b))"

definition build_matrix ::
    "(string \<Rightarrow> string) \<Rightarrow> (pyfloat \<Rightarrow> string) \<Rightarrow> datetime \<Rightarrow> AuditManifest \<Rightarrow> Job list
     \<Rightarrow> EvaluationAttempt list \<Rightarrow> (string \<times> Adjudication) list \<Rightarrow> (string \<Rightarrow> PatchCase option)
     \<Rightarrow> (string \<Rightarrow> string option) \<Rightarrow> string \<Rightarrow> AcceptanceMatrix res" where
  "build_matrix H fr now manifest jobs attempts adjudications cases repositories reducer_version =
    (if \<not> distinct (map j_job_id jobs) then Inl (make_error IdentityConflict None)
     else if \<not> distinct (map a_attempt_id attempts) then Inl (make_error IdentityConflict None)
     else if list_ex (\<lambda>a. job_by_id jobs (a_job_id a) = None) attempts
     then Inl (make_error IdentityConflict None)
     else
       let cells = matrix_cells manifest jobs attempts adjudications cases repositories;
           complete = matrix_complete manifest jobs cells
       in bind_res (attempts_digest H fr attempts) (\<lambda>digest.
          bind_res (matrix_identity H fr (m_run_id manifest) reducer_version digest cells) (\<lambda>mid.
          let matrix = \<lparr>mx_matrix_id = mid, mx_run_id = m_run_id manifest,
                mx_reducer_version = reducer_version, mx_cells = cells, mx_complete = complete,
                mx_source_attempts_digest = digest, mx_created_at = now\<rparr>
          in bind_res (validate_matrix matrix manifest) (\<lambda>_. Inr matrix))))"

text \<open>\<open>AcceptanceMatrixBuilder\<close>: the manifest, the version and the repositories it stores.\<close>

record matrix_builder =
  mb_manifest :: AuditManifest
  mb_reducer_version :: string
  mb_repositories :: "string \<Rightarrow> string option"

definition builder_build ::
    "(string \<Rightarrow> string) \<Rightarrow> (pyfloat \<Rightarrow> string) \<Rightarrow> datetime \<Rightarrow> matrix_builder \<Rightarrow> Job list
     \<Rightarrow> EvaluationAttempt list \<Rightarrow> (string \<times> Adjudication) list \<Rightarrow> (string \<Rightarrow> PatchCase option)
     \<Rightarrow> AcceptanceMatrix res" where
  "builder_build H fr now builder jobs attempts adjudications cases =
    build_matrix H fr now (mb_manifest builder) jobs attempts adjudications cases
      (mb_repositories builder) (mb_reducer_version builder)"

end
