(* ===== verification/Matrix_Properties.thy ===== *)
theory Matrix_Properties
  imports Matrix
begin

text \<open>
  What a cell says about its repetitions, where every attempt goes, and what of the matrix
  depends on the order of the inputs.
\<close>

section \<open>The verdict\<close>

lemma count_list_length_iff: "count_list xs x = length xs \<longleftrightarrow> (\<forall>y \<in> set xs. y = x)"
proof (induction xs)
  case (Cons y ys)
  have "count_list ys x \<le> length ys" by (rule count_le_length)
  with Cons.IH show ?case by auto
qed simp

lemma count_list_pos_iff: "0 < count_list xs x \<longleftrightarrow> x \<in> set xs"
  using count_list_0_iff [of xs x] by auto

lemma count_two_length_iff:
  "x \<noteq> y \<Longrightarrow> count_list xs x + count_list xs y = length xs \<longleftrightarrow> (\<forall>z \<in> set xs. z = x \<or> z = y)"
proof (induction xs)
  case (Cons z zs)
  have "count_list zs x + count_list zs y \<le> length zs"
    using Cons.prems by (induction zs) auto
  with Cons show ?case by auto
qed simp

lemma completed_less_iff:
  "length (filter (\<lambda>out. out \<noteq> None) outcomes) < length outcomes \<longleftrightarrow> None \<in> set outcomes"
proof (cases "None \<in> set outcomes")
  case True
  then show ?thesis by (auto intro: length_filter_less)
next
  case False
  then have "filter (\<lambda>out. out \<noteq> None) outcomes = outcomes"
    by (intro filter_True ballI) metis
  with False show ?thesis by simp
qed

text \<open>
  The verdict over a complete list of repetitions, without counting: unanimity or nothing.
\<close>

definition unanimous :: "outcome \<Rightarrow> outcome option list \<Rightarrow> bool" where
  "unanimous out outcomes \<longleftrightarrow> (\<forall>x \<in> set outcomes. x = Some out)"

definition mixed_verdicts :: "outcome option list \<Rightarrow> bool" where
  "mixed_verdicts outcomes \<longleftrightarrow> set outcomes = {Some Accept, Some Reject}"

lemma unanimous_unique: "outs \<noteq> [] \<Longrightarrow> unanimous a outs \<Longrightarrow> unanimous b outs \<Longrightarrow> a = b"
  by (cases outs) (auto simp: unanimous_def)

lemma unanimous_not_mixed: "unanimous a outs \<Longrightarrow> \<not> mixed_verdicts outs"
  by (auto simp: unanimous_def mixed_verdicts_def)

lemma cell_verdict_complete:
  assumes "None \<notin> set outcomes" and "int (length outcomes) = planned"
  shows "cell_verdict planned outcomes =
    (if unanimous Accept outcomes then (Accept, Valid, None)
     else if unanimous Reject outcomes then (Reject, Valid, None)
     else if mixed_verdicts outcomes then (Flaky, Invalid, Some ''FLAKY'')
     else if unanimous Invalid_evaluation outcomes then (Invalid_evaluation, Invalid, None)
     else if unanimous Error outcomes then (Error, Invalid, None)
     else (Invalid_evaluation, Invalid, Some ''instability_detected''))"
proof -
  have all: "filter (\<lambda>out. out \<noteq> None) outcomes = outcomes"
    using assms(1) by (intro filter_True ballI) metis
  have mixed: "0 < count_list outcomes (Some Accept) \<and> 0 < count_list outcomes (Some Reject)
      \<and> count_list outcomes (Some Accept) + count_list outcomes (Some Reject) = length outcomes
    \<longleftrightarrow> mixed_verdicts outcomes"
    unfolding count_list_pos_iff count_two_length_iff [of "Some Accept" "Some Reject", simplified]
      mixed_verdicts_def by blast
  show ?thesis
    unfolding cell_verdict_def Let_def all count_list_length_iff mixed unanimous_def
    using assms(2) by simp
qed

lemma cell_verdict_incomplete:
  assumes "None \<in> set outcomes" and "int (length outcomes) = planned"
  shows "cell_verdict planned outcomes = (Invalid_evaluation, Invalid, Some ''INCOMPLETE_REPETITIONS'')"
proof -
  have "int (length (filter (\<lambda>out. out \<noteq> None) outcomes)) < planned"
    using assms completed_less_iff [of outcomes] by simp
  then show ?thesis by (simp add: cell_verdict_def Let_def)
qed

section \<open>The repetitions\<close>

text \<open>The attempt a repetition selects, if any.\<close>

definition chosen :: "EvaluationAttempt list \<Rightarrow> EvaluationAttempt option" where
  "chosen xs = (let auth = filter (\<lambda>a. a_disposition a = Authoritative) xs in
     if auth \<noteq> [] then Some (latest auth)
     else if xs = [] \<or> a_disposition (latest xs) \<in> {Stale, Abandoned} then None
     else Some (latest xs))"

definition rep_excluded :: "EvaluationAttempt list \<Rightarrow> string list" where
  "rep_excluded xs = map a_attempt_id (filter (\<lambda>a. case chosen xs of None \<Rightarrow> True
     | Some s \<Rightarrow> a_attempt_id a \<noteq> a_attempt_id s) xs)"

definition ids_of :: "EvaluationAttempt option \<Rightarrow> string list" where
  "ids_of s = (case s of None \<Rightarrow> [] | Some a \<Rightarrow> [a_attempt_id a])"

lemma reduce_repetition_chosen:
  "reduce_repetition xs rd = \<lparr>rd_selected = rd_selected rd @ ids_of (chosen xs),
     rd_excluded = rd_excluded rd @ rep_excluded xs,
     rd_outcomes = rd_outcomes rd @ [Option.bind (chosen xs) a_outcome],
     rd_codes = rd_codes rd @ (case chosen xs of None \<Rightarrow> [] | Some s \<Rightarrow> code_of s)\<rparr>"
  by (auto simp: reduce_repetition_def chosen_def Let_def select_attempt_def no_selection_def
      ids_of_def rep_excluded_def)

definition repetition_attempts ::
    "(string \<Rightarrow> int option) \<Rightarrow> int \<Rightarrow> EvaluationAttempt list \<Rightarrow> int \<Rightarrow> EvaluationAttempt list" where
  "repetition_attempts jr planned xs r = filter (\<lambda>a. repetition_of jr planned a = Some r) xs"

lemma foldl_reduce:
  "foldl (\<lambda>rd r. reduce_repetition (g r) rd) rd rs = \<lparr>
     rd_selected = rd_selected rd @ concat (map (\<lambda>r. ids_of (chosen (g r))) rs),
     rd_excluded = rd_excluded rd @ concat (map (\<lambda>r. rep_excluded (g r)) rs),
     rd_outcomes = rd_outcomes rd @ map (\<lambda>r. Option.bind (chosen (g r)) a_outcome) rs,
     rd_codes = rd_codes rd @ concat (map (\<lambda>r. case chosen (g r) of None \<Rightarrow> [] | Some s \<Rightarrow> code_of s) rs)\<rparr>"
  by (induction rs arbitrary: rd) (simp_all add: reduce_repetition_chosen)

lemma reduce_attempts_eq:
  "reduce_attempts jr planned xs = \<lparr>
     rd_selected = concat (map (\<lambda>r. ids_of (chosen (repetition_attempts jr planned xs r))) [0..planned - 1]),
     rd_excluded = map a_attempt_id (filter (\<lambda>a. repetition_of jr planned a = None) xs)
       @ concat (map (\<lambda>r. rep_excluded (repetition_attempts jr planned xs r)) [0..planned - 1]),
     rd_outcomes = map (\<lambda>r. Option.bind (chosen (repetition_attempts jr planned xs r)) a_outcome)
       [0..planned - 1],
     rd_codes = concat (map (\<lambda>r. case chosen (repetition_attempts jr planned xs r) of
       None \<Rightarrow> [] | Some s \<Rightarrow> code_of s) [0..planned - 1])\<rparr>"
  unfolding reduce_attempts_def repetition_attempts_def
  by (subst foldl_reduce) simp

lemma max_by_mem: "max_by key best xs \<in> insert best (set xs)"
  by (induction xs arbitrary: best) (auto split: if_splits)

lemma max_by_ge: "x \<in> insert best (set xs) \<Longrightarrow> key x \<le> key (max_by key best xs)"
proof (induction xs arbitrary: best x)
  case (Cons y ys)
  let ?b = "if key best < key y then y else best"
  have "key best \<le> key ?b" "key y \<le> key ?b" by auto
  moreover have "key z \<le> key (max_by key ?b ys)" if "z \<in> insert ?b (set ys)" for z
    using Cons.IH that by blast
  ultimately show ?case
    using Cons.prems by (auto intro: order_trans)
qed simp

lemma latest_mem: "xs \<noteq> [] \<Longrightarrow> latest xs \<in> set xs"
  using max_by_mem [of attempt_key "hd xs" "tl xs"] by (cases xs) (auto simp: latest_def)

lemma latest_ge: "x \<in> set xs \<Longrightarrow> attempt_key x \<le> attempt_key (latest xs)"
  using max_by_ge [of x "hd xs" "tl xs" attempt_key] by (cases xs) (auto simp: latest_def)

lemma latest_eqI:
  assumes "distinct (map a_attempt_id xs)" and "a \<in> set xs"
    and "\<And>x. x \<in> set xs \<Longrightarrow> attempt_key x \<le> attempt_key a"
  shows "latest xs = a"
proof -
  have mem: "latest xs \<in> set xs" using assms(2) by (intro latest_mem) auto
  have "attempt_key (latest xs) = attempt_key a"
    by (rule antisym [OF assms(3) [OF mem] latest_ge [OF assms(2)]])
  then have "a_attempt_id (latest xs) = a_attempt_id a" by (simp add: attempt_key_def)
  with mem show ?thesis
    using assms(1,2) by (auto simp: distinct_map dest: inj_onD)
qed

lemma latest_perm:
  assumes "mset xs = mset ys" and "distinct (map a_attempt_id xs)" and "xs \<noteq> []"
  shows "latest xs = latest ys"
proof -
  have set: "set xs = set ys" by (rule mset_eq_setD [OF assms(1)])
  then have "ys \<noteq> []" using assms(3) by auto
  show ?thesis
    by (rule latest_eqI [OF assms(2)])
      (use set latest_mem [OF \<open>ys \<noteq> []\<close>] latest_ge [of _ ys] in auto)
qed

lemma distinct_filter_map: "distinct (map f xs) \<Longrightarrow> distinct (map f (filter P xs))"
  by (simp add: distinct_map_filter)

lemma chosen_perm:
  assumes "mset xs = mset ys" and "distinct (map a_attempt_id xs)"
  shows "chosen xs = chosen ys"
proof -
  let ?P = "\<lambda>a. a_disposition a = Authoritative"
  have auth: "mset (filter ?P xs) = mset (filter ?P ys)" using assms(1) by simp
  then have "filter ?P xs = [] \<longleftrightarrow> filter ?P ys = []" by (metis mset_zero_iff)
  moreover have "xs = [] \<longleftrightarrow> ys = []" using assms(1) by (metis mset_zero_iff)
  ultimately show ?thesis
    using latest_perm [OF auth distinct_filter_map [OF assms(2)]] latest_perm [OF assms]
    by (auto simp: chosen_def Let_def)
qed

lemma chosen_mem: "chosen xs = Some s \<Longrightarrow> s \<in> set xs"
  using latest_mem [of "filter (\<lambda>a. a_disposition a = Authoritative) xs"] latest_mem [of xs]
  by (auto simp: chosen_def Let_def split: if_splits)

lemma chosen_authoritative:
  assumes "a \<in> set xs" and "a_disposition a = Authoritative"
  shows "\<exists>s. chosen xs = Some s \<and> a_disposition s = Authoritative \<and> s \<in> set xs
    \<and> (\<forall>b \<in> set xs. a_disposition b = Authoritative \<longrightarrow> attempt_key b \<le> attempt_key s)"
proof -
  let ?auth = "filter (\<lambda>a. a_disposition a = Authoritative) xs"
  have "?auth \<noteq> []" using assms by (auto simp: filter_empty_conv)
  with latest_mem [of ?auth] latest_ge [of _ ?auth] show ?thesis
    by (auto simp: chosen_def Let_def)
qed

lemma distinct_upto: "distinct [i..j]"
  by (induction i j rule: upto.induct) (subst upto.simps, auto)

lemma repetition_of_range: "repetition_of jr planned a = Some r \<Longrightarrow> r \<in> set [0..planned - 1]"
  by (auto simp: repetition_of_def split: option.splits if_splits)

section \<open>Cells\<close>

lemma aggregate_cell_simps:
  "cell_repetition_outcomes (aggregate_cell t rep ca v adj label role planned xs jr) =
     map (\<lambda>r. Option.bind (chosen (repetition_attempts jr planned xs r)) a_outcome) [0..planned - 1]"
  "cell_selected_attempt_ids (aggregate_cell t rep ca v adj label role planned xs jr) =
     concat (map (\<lambda>r. ids_of (chosen (repetition_attempts jr planned xs r))) [0..planned - 1])"
  "cell_excluded_attempt_ids (aggregate_cell t rep ca v adj label role planned xs jr) =
     map a_attempt_id (filter (\<lambda>a. repetition_of jr planned a = None) xs)
     @ concat (map (\<lambda>r. rep_excluded (repetition_attempts jr planned xs r)) [0..planned - 1])"
  "(cell_outcome (aggregate_cell t rep ca v adj label role planned xs jr),
    cell_evaluation_validity (aggregate_cell t rep ca v adj label role planned xs jr))
   = (let (out, val, code) = cell_verdict planned
        (cell_repetition_outcomes (aggregate_cell t rep ca v adj label role planned xs jr)) in (out, val))"
  by (simp_all add: aggregate_cell_def Let_def case_prod_beta reduce_attempts_eq)

text \<open>
  C12. No majority voting: for a positive number of planned repetitions a cell records one
  outcome per repetition; it accepts (rejects) exactly when every repetition accepted
  (rejected), and only then is it valid; it is flaky exactly when accept and reject both occur
  and nothing else; it is an error exactly when every repetition is.
\<close>

theorem cell_needs_unanimity:
  assumes "0 < planned"
    and c_def: "c = aggregate_cell t rep ca v adj label role planned xs jr"
  shows "int (length (cell_repetition_outcomes c)) = planned
    \<and> (cell_outcome c = Accept \<longleftrightarrow> unanimous Accept (cell_repetition_outcomes c))
    \<and> (cell_outcome c = Reject \<longleftrightarrow> unanimous Reject (cell_repetition_outcomes c))
    \<and> (cell_outcome c = Flaky \<longleftrightarrow> mixed_verdicts (cell_repetition_outcomes c))
    \<and> (cell_outcome c = Error \<longleftrightarrow> unanimous Error (cell_repetition_outcomes c))
    \<and> (cell_evaluation_validity c = (if cell_outcome c \<in> {Accept, Reject} then Valid else Invalid))"
proof -
  let ?outs = "cell_repetition_outcomes c"
  have len: "int (length ?outs) = planned"
    using assms(1) by (simp add: c_def aggregate_cell_simps(1) del: prod.case_distrib)
  with assms(1) have ne: "?outs \<noteq> []" by auto
  note v = aggregate_cell_simps(4) [of t rep ca v adj label role planned xs jr, folded c_def]
  show ?thesis
  proof (cases "None \<in> set ?outs")
    case True
    from v cell_verdict_incomplete [OF True len] have
      "cell_outcome c = Invalid_evaluation" "cell_evaluation_validity c = Invalid" by simp_all
    moreover have "\<not> unanimous x ?outs" "\<not> mixed_verdicts ?outs" for x
      using True by (auto simp: unanimous_def mixed_verdicts_def)
    ultimately show ?thesis using len by simp
  next
    case False
    from v cell_verdict_complete [OF False len] show ?thesis
      using len
      by (auto split: if_splits dest: unanimous_unique [OF ne] unanimous_not_mixed)
  qed
qed

lemma mset_map_split:
  "mset (map f xs) = mset (map f (filter P xs)) + mset (map f (filter (\<lambda>x. \<not> P x) xs))"
  by (induction xs) auto

lemma chosen_or_excluded:
  assumes "distinct (map a_attempt_id ys)"
  shows "mset (ids_of (chosen ys) @ rep_excluded ys) = mset (map a_attempt_id ys)"
proof (cases "chosen ys")
  case None
  then show ?thesis by (simp add: ids_of_def rep_excluded_def)
next
  case (Some s)
  have "filter (\<lambda>a. a_attempt_id a = a_attempt_id s) ys = [s]"
    using chosen_mem [OF Some] assms
    by (induction ys) (auto simp: filter_empty_conv, metis image_eqI)
  with mset_map_split [of a_attempt_id ys "\<lambda>a. a_attempt_id a = a_attempt_id s"]
  have "mset (map a_attempt_id ys) = {#a_attempt_id s#}
      + mset (map a_attempt_id (filter (\<lambda>a. a_attempt_id a \<noteq> a_attempt_id s) ys))" by simp
  with Some show ?thesis by (simp add: ids_of_def rep_excluded_def)
qed

lemma chosen_or_excluded_all:
  assumes "\<And>r. distinct (map a_attempt_id (g r))"
  shows "mset (concat (map (\<lambda>r. ids_of (chosen (g r))) rs)) + mset (concat (map (\<lambda>r. rep_excluded (g r)) rs))
    = mset (concat (map (\<lambda>r. map a_attempt_id (g r)) rs))"
proof (induction rs)
  case (Cons r rs)
  from chosen_or_excluded [OF assms, of r] Cons.IH show ?case by (simp add: ac_simps)
qed simp

lemma concat_by_key:
  "distinct rs \<Longrightarrow> mset (concat (map (\<lambda>r. map g (filter (\<lambda>a. f a = Some r) ys)) rs))
    = mset (map g (filter (\<lambda>a. f a \<in> Some ` set rs) ys))"
proof (induction rs)
  case (Cons r rs)
  have "mset (map g (filter (\<lambda>a. f a = Some r) ys)) + mset (map g (filter (\<lambda>a. f a \<in> Some ` set rs) ys))
      = mset (map g (filter (\<lambda>a. f a \<in> Some ` set (r # rs)) ys))"
    using Cons.prems by (induction ys) auto
  with Cons show ?case by simp
qed simp

lemma repetitions_partition:
  "mset (map g (filter (\<lambda>a. repetition_of jr planned a = None) xs))
    + mset (concat (map (\<lambda>r. map g (repetition_attempts jr planned xs r)) [0..planned - 1]))
   = mset (map g xs)"
proof -
  have "filter (\<lambda>a. repetition_of jr planned a \<in> Some ` set [0..planned - 1]) xs
      = filter (\<lambda>a. repetition_of jr planned a \<noteq> None) xs"
    by (rule filter_cong [OF refl]) (use repetition_of_range in blast)
  with concat_by_key [where f = "repetition_of jr planned" and ys = xs and g = g,
      OF distinct_upto [of 0 "planned - 1"]]
  have "mset (concat (map (\<lambda>r. map g (repetition_attempts jr planned xs r)) [0..planned - 1]))
      = mset (map g (filter (\<lambda>a. repetition_of jr planned a \<noteq> None) xs))"
    by (simp only: repetition_attempts_def)
  with mset_map_split [of g xs "\<lambda>a. repetition_of jr planned a = None"] show ?thesis by simp
qed

lemma repetition_selects_authoritative:
  assumes "a \<in> set xs" and "a_disposition a = Authoritative" and r: "repetition_of jr planned a = Some r"
  shows "\<exists>s \<in> set xs. a_attempt_id s \<in> set (concat (map (\<lambda>r. ids_of (chosen
      (repetition_attempts jr planned xs r))) [0..planned - 1]))
    \<and> a_disposition s = Authoritative \<and> a_fence a \<le> a_fence s \<and> repetition_of jr planned s = Some r"
proof -
  have a: "a \<in> set (repetition_attempts jr planned xs r)"
    using assms by (simp add: repetition_attempts_def)
  from chosen_authoritative [OF a assms(2)] a assms(2) obtain s where
    s: "chosen (repetition_attempts jr planned xs r) = Some s" "a_disposition s = Authoritative"
      "s \<in> set (repetition_attempts jr planned xs r)" "attempt_key a \<le> attempt_key s"
    by blast
  have "a_fence a \<le> a_fence s"
    using s(4) by (auto simp: attempt_key_def less_eq_prod_def)
  moreover have "a_attempt_id s \<in> set (concat (map (\<lambda>r. ids_of (chosen
      (repetition_attempts jr planned xs r))) [0..planned - 1]))"
    using s(1) repetition_of_range [OF r] by (auto simp: ids_of_def intro!: bexI [of _ r])
  ultimately show ?thesis using s(2,3) by (auto simp: repetition_attempts_def)
qed

text \<open>
  C13. Where the attempts go: with distinct identifiers every attempt of a cell is listed exactly
  once, as selected or as excluded; each repetition selects at most one attempt, and when it
  has authoritative attempts, the one of them with the greatest fence.
\<close>

theorem cell_attempts_partition:
  assumes "distinct (map a_attempt_id xs)"
    and c_def: "c = aggregate_cell t rep ca v adj label role planned xs jr"
  shows "mset (cell_selected_attempt_ids c @ cell_excluded_attempt_ids c) = mset (map a_attempt_id xs)
    \<and> (\<forall>a \<in> set xs. a_disposition a = Authoritative \<longrightarrow> repetition_of jr planned a \<noteq> None \<longrightarrow>
        (\<exists>s \<in> set xs. a_attempt_id s \<in> set (cell_selected_attempt_ids c)
          \<and> a_disposition s = Authoritative \<and> a_fence a \<le> a_fence s
          \<and> repetition_of jr planned s = repetition_of jr planned a))"
proof
  have "distinct (map a_attempt_id (repetition_attempts jr planned xs r))" for r
    unfolding repetition_attempts_def by (rule distinct_filter_map [OF assms(1)])
  from chosen_or_excluded_all [OF this, where rs = "[0..planned - 1]"]
    repetitions_partition [where g = a_attempt_id and jr = jr and planned = planned and xs = xs]
  show "mset (cell_selected_attempt_ids c @ cell_excluded_attempt_ids c) = mset (map a_attempt_id xs)"
    unfolding c_def mset_append aggregate_cell_simps(2,3) by (simp add: ac_simps)
qed (auto simp only: c_def aggregate_cell_simps(2) dest: repetition_selects_authoritative)

definition ex_att :: "string \<Rightarrow> string \<Rightarrow> int \<Rightarrow> outcome \<Rightarrow> disposition \<Rightarrow> EvaluationAttempt" where
  "ex_att aid jid fence out disp = \<lparr>a_attempt_id = aid, a_job_id = jid, a_fence = fence,
     a_outcome = Some out, a_evaluation_validity = Valid, a_error_code = None, a_disposition = disp,
     a_started_at = 0, a_finished_at = Some 1, a_exit_code = None, a_stdout_hash = None,
     a_stderr_hash = None, a_report_digest = None, a_test_collection = [], a_tests_passed = None,
     a_tests_failed = None, a_resources = \<lparr>ru_duration = None, ru_allocated_cpu = None,
       ru_cpu_seconds = None, ru_peak_memory = None, ru_model_usage = None, ru_estimated_cost = None,
       ru_pricing_version = None, ru_bytes_written = None\<rparr>,
     a_artifact_digests = [], a_capture_truncated = False\<rparr>"

definition ex_reps :: "string \<Rightarrow> int option" where
  "ex_reps = map_of [(''j0'', 0), (''j1'', 1), (''j2'', 2)]"

definition ex_votes :: "EvaluationAttempt list" where
  "ex_votes = [ex_att ''a0'' ''j0'' 1 Accept Authoritative, ex_att ''a1'' ''j1'' 1 Accept Authoritative,
     ex_att ''a2'' ''j2'' 1 Accept Abandoned, ex_att ''a3'' ''j2'' 2 Reject Authoritative]"

theorem cell_needs_unanimity_witness:
  "cell_outcome (aggregate_cell ''t'' ''r'' ''c'' ''v'' ''adj'' L_valid R_challenge 3 ex_votes ex_reps) \<noteq> Accept"
proof -
  let ?c = "aggregate_cell ''t'' ''r'' ''c'' ''v'' ''adj'' L_valid R_challenge 3 ex_votes ex_reps"
  have "\<not> unanimous Accept (cell_repetition_outcomes ?c)" by code_simp
  with cell_needs_unanimity [of 3 ?c, OF _ refl] show ?thesis by simp
qed

theorem cell_attempts_partition_witness:
  "mset (cell_selected_attempt_ids (aggregate_cell ''t'' ''r'' ''c'' ''v'' ''adj'' L_valid R_challenge 3
      ex_votes ex_reps) @ cell_excluded_attempt_ids (aggregate_cell ''t'' ''r'' ''c'' ''v'' ''adj''
      L_valid R_challenge 3 ex_votes ex_reps)) = {#''a0'', ''a1'', ''a2'', ''a3''#}"
proof -
  have "distinct (map a_attempt_id ex_votes)" by (simp add: ex_votes_def ex_att_def)
  from cell_attempts_partition [OF this refl] show ?thesis
    by (simp add: ex_votes_def ex_att_def)
qed

section \<open>The matrix\<close>

lemma canonical_ok:
  "canonical_items kvs = Inr js \<Longrightarrow> canonical_bytes fr (V_mapping kvs) = Inr (render fr (sorted_keys (J_obj js)))"
  "canonical_seq vs = Inr xs \<Longrightarrow> canonical_bytes fr (V_seq vs) = Inr (render fr (sorted_keys (J_arr xs)))"
  by (simp_all add: canonical_bytes_def)

lemma canonical_seq_ok:
  "(\<And>v. v \<in> set vs \<Longrightarrow> \<exists>j. canonical_repr v = Inr j) \<Longrightarrow> \<exists>js. canonical_seq vs = Inr js"
proof (induction vs)
  case (Cons v vs)
  from Cons.prems [of v] obtain j where "canonical_repr v = Inr j" by auto
  moreover from Cons obtain js where "canonical_seq vs = Inr js" by fastforce
  ultimately show ?case by simp
qed simp

lemma records_ok:
  "\<exists>j. canonical_repr (attempt_record a) = Inr j" "\<exists>j. canonical_repr (cell_record c) = Inr j"
  by (cases "a_outcome a"; simp add: attempt_record_def) (simp add: cell_record_def)

lemma attempts_digest_ok: "\<exists>d. attempts_digest H fr attempts = Inr d"
proof -
  obtain js where "canonical_seq (map attempt_record (sort_key a_attempt_id attempts)) = Inr js"
    using canonical_seq_ok [of "map attempt_record (sort_key a_attempt_id attempts)"] records_ok(1)
    by auto
  then show ?thesis by (simp add: attempts_digest_def canonical_ok)
qed

lemma matrix_identity_ok: "\<exists>d. matrix_identity H fr run_id version digest cells = Inr d"
proof -
  obtain js where "canonical_seq (map cell_record cells) = Inr js"
    using canonical_seq_ok [of "map cell_record cells"] records_ok(2) by auto
  then show ?thesis by (simp add: matrix_identity_def canonical_bytes_def)
qed

lemma job_by_id_None_iff: "job_by_id jobs k = None \<longleftrightarrow> k \<notin> j_job_id ` set jobs"
  by (auto simp: job_by_id_def map_of_eq_None_iff image_iff)

definition matrix_inputs_ok :: "Job list \<Rightarrow> EvaluationAttempt list \<Rightarrow> bool" where
  "matrix_inputs_ok jobs attempts \<longleftrightarrow> distinct (map j_job_id jobs) \<and> distinct (map a_attempt_id attempts)
     \<and> (\<forall>a \<in> set attempts. a_job_id a \<in> j_job_id ` set jobs)"

lemma build_matrix_eq:
  assumes "matrix_inputs_ok jobs attempts"
    and cells_def: "cells = matrix_cells manifest jobs attempts adjs cases repos"
  shows "build_matrix H fr now manifest jobs attempts adjs cases repos version =
    bind_res (attempts_digest H fr attempts) (\<lambda>digest.
      bind_res (matrix_identity H fr (m_run_id manifest) version digest cells) (\<lambda>mid.
        Inr \<lparr>mx_matrix_id = mid, mx_run_id = m_run_id manifest, mx_reducer_version = version,
          mx_cells = cells, mx_complete = matrix_complete manifest jobs cells,
          mx_source_attempts_digest = digest, mx_created_at = now\<rparr>))"
proof -
  have "\<not> list_ex (\<lambda>a. job_by_id jobs (a_job_id a) = None) attempts"
    using assms(1) by (auto simp: matrix_inputs_ok_def list_ex_iff job_by_id_None_iff)
  with assms show ?thesis
    by (simp add: build_matrix_def matrix_inputs_ok_def Let_def validate_matrix_def)
qed

lemma build_matrix_ok:
  assumes "matrix_inputs_ok jobs attempts"
  obtains mid digest where
    "attempts_digest H fr attempts = Inr digest"
    "matrix_identity H fr (m_run_id manifest) version digest
      (matrix_cells manifest jobs attempts adjs cases repos) = Inr mid"
    "build_matrix H fr now manifest jobs attempts adjs cases repos version = Inr \<lparr>mx_matrix_id = mid,
       mx_run_id = m_run_id manifest, mx_reducer_version = version,
       mx_cells = matrix_cells manifest jobs attempts adjs cases repos,
       mx_complete = matrix_complete manifest jobs (matrix_cells manifest jobs attempts adjs cases repos),
       mx_source_attempts_digest = digest, mx_created_at = now\<rparr>"
proof -
  obtain digest where d: "attempts_digest H fr attempts = Inr digest"
    using attempts_digest_ok by blast
  obtain mid where m: "matrix_identity H fr (m_run_id manifest) version digest
      (matrix_cells manifest jobs attempts adjs cases repos) = Inr mid"
    using matrix_identity_ok by blast
  show thesis
    by (rule that [OF d m]) (simp add: build_matrix_eq [OF assms refl] d m)
qed

lemma cell_coordinates:
  "(cell_task_key (build_cell manifest jobs attempts adjs cases repos k),
    cell_case_id (build_cell manifest jobs attempts adjs cases repos k),
    cell_verifier_key (build_cell manifest jobs attempts adjs cases repos k)) = k"
  by (simp add: build_cell_def aggregate_cell_def Let_def case_prod_beta)

lemma cells_in_order:
  "map (\<lambda>c. (cell_task_key c, cell_case_id c, cell_verifier_key c))
    (matrix_cells manifest jobs attempts adjs cases repos) = sorted_list_of_set (cell_key ` set jobs)"
  unfolding matrix_cells_def list.map_comp comp_def cell_coordinates
  by (simp add: sorted_list_of_set_sort_remdups [of "map cell_key jobs", simplified])

lemma build_matrix_result:
  "case build_matrix H fr now manifest jobs attempts adjs cases repos version of
     Inl e \<Rightarrow> e = make_error IdentityConflict None \<and> \<not> matrix_inputs_ok jobs attempts
   | Inr m \<Rightarrow> matrix_inputs_ok jobs attempts \<and> mx_run_id m = m_run_id manifest
       \<and> mx_cells m = matrix_cells manifest jobs attempts adjs cases repos"
proof (cases "matrix_inputs_ok jobs attempts")
  case True
  show ?thesis
    by (rule build_matrix_ok [OF True, where H = H and fr = fr and now = now
        and manifest = manifest and adjs = adjs and cases = cases and repos = repos
        and version = version])
      (simp add: True)
next
  case False
  then have "build_matrix H fr now manifest jobs attempts adjs cases repos version
      = Inl (make_error IdentityConflict None)"
    by (auto simp: build_matrix_def matrix_inputs_ok_def list_ex_iff job_by_id_None_iff)
  with False show ?thesis by simp
qed

text \<open>
  A matrix is built exactly from consistent inputs: job identifiers and attempt identifiers
  are distinct and every attempt belongs to a given job; anything else is an
  \<open>IdentityConflict\<close>. It then has one cell per coordinate of the jobs, in ascending order.
\<close>

lemma build_matrix_checks_identities:
  "(case build_matrix H fr now manifest jobs attempts adjs cases repos version of
      Inl e \<Rightarrow> e = make_error IdentityConflict None \<and> \<not> matrix_inputs_ok jobs attempts
    | Inr m \<Rightarrow> matrix_inputs_ok jobs attempts \<and> mx_run_id m = m_run_id manifest
        \<and> map (\<lambda>c. (cell_task_key c, cell_case_id c, cell_verifier_key c)) (mx_cells m)
            = sorted_list_of_set (cell_key ` set jobs))"
  using build_matrix_result [where H = H and fr = fr and now = now and manifest = manifest
      and jobs = jobs and attempts = attempts and adjs = adjs and cases = cases and repos = repos
      and version = version]
  by (auto simp: cells_in_order split: sum.splits)

section \<open>The order of the inputs\<close>

definition same_cell :: "AcceptanceCell \<Rightarrow> AcceptanceCell \<Rightarrow> bool" where
  "same_cell c c' \<longleftrightarrow> c' = c\<lparr>cell_excluded_attempt_ids := cell_excluded_attempt_ids c'\<rparr>
     \<and> mset (cell_excluded_attempt_ids c') = mset (cell_excluded_attempt_ids c)"

lemma map_of_perm:
  assumes "mset xs = mset ys" and "distinct (map fst xs)"
  shows "map_of xs = map_of ys"
proof -
  have "distinct (map fst ys)"
    using assms by (metis mset_eq_imp_distinct_iff mset_map)
  with assms show ?thesis
    by (metis map_of_inject_set mset_eq_setD)
qed

lemma rep_excluded_perm:
  assumes "mset xs = mset ys" and "distinct (map a_attempt_id xs)"
  shows "mset (rep_excluded xs) = mset (rep_excluded ys)"
  using assms by (simp add: rep_excluded_def chosen_perm [OF assms])

lemma aggregate_cell_perm:
  assumes "mset xs = mset ys" and "distinct (map a_attempt_id xs)"
  shows "same_cell (aggregate_cell t rep ca v adj label role planned xs jr)
    (aggregate_cell t rep ca v adj label role planned ys jr)"
proof -
  let ?g = "repetition_attempts jr planned"
  have g: "mset (?g xs r) = mset (?g ys r)" "distinct (map a_attempt_id (?g xs r))" for r
    using assms by (simp_all add: repetition_attempts_def distinct_filter_map)
  have ch: "chosen (?g xs r) = chosen (?g ys r)" for r
    by (rule chosen_perm [OF g])
  have "mset (concat (map (\<lambda>r. rep_excluded (?g xs r)) rs)) = mset (concat (map (\<lambda>r. rep_excluded (?g ys r)) rs))"
    for rs by (induction rs) (simp_all add: rep_excluded_perm [OF g])
  moreover have "mset (map a_attempt_id (filter (\<lambda>a. repetition_of jr planned a = None) xs))
      = mset (map a_attempt_id (filter (\<lambda>a. repetition_of jr planned a = None) ys))"
    using assms(1) by simp
  ultimately show ?thesis
    by (simp add: same_cell_def aggregate_cell_def Let_def case_prod_beta reduce_attempts_eq ch
        del: mset_map mset_filter)
qed

lemma job_by_id_perm:
  assumes "mset jobs = mset jobs'" and "distinct (map j_job_id jobs)"
  shows "job_by_id jobs = job_by_id jobs'" and "job_repetition_map jobs = job_repetition_map jobs'"
proof -
  have "mset (rev (map (\<lambda>j. (j_job_id j, j)) jobs)) = mset (rev (map (\<lambda>j. (j_job_id j, j)) jobs'))"
    and "mset (rev (map (\<lambda>j. (j_job_id j, j_repetition j)) jobs))
       = mset (rev (map (\<lambda>j. (j_job_id j, j_repetition j)) jobs'))"
    using assms(1) by simp_all
  then show "job_by_id jobs = job_by_id jobs'" "job_repetition_map jobs = job_repetition_map jobs'"
    unfolding job_by_id_def job_repetition_map_def
    using assms(2) by (auto intro!: map_of_perm simp: comp_def simp flip: rev_map)
qed

lemma cell_attempts_perm:
  assumes "mset jobs = mset jobs'" and "distinct (map j_job_id jobs)" and "mset xs = mset ys"
  shows "mset (cell_attempts jobs xs k) = mset (cell_attempts jobs' ys k)"
  using assms by (simp add: cell_attempts_def job_by_id_perm [OF assms(1,2)])

lemma build_cell_perm:
  assumes "mset jobs = mset jobs'" and "distinct (map j_job_id jobs)"
    and "mset xs = mset ys" and "distinct (map a_attempt_id xs)"
  shows "same_cell (build_cell manifest jobs xs adjs cases repos k)
    (build_cell manifest jobs' ys adjs cases repos k)"
proof -
  have "distinct (map a_attempt_id (cell_attempts jobs xs k))"
    using assms(4) by (simp add: cell_attempts_def distinct_filter_map)
  from aggregate_cell_perm [OF cell_attempts_perm [OF assms(1-3)] this]
  show ?thesis
    by (simp add: build_cell_def case_prod_beta Let_def job_by_id_perm [OF assms(1,2)])
qed

lemma sorted_keys_perm:
  fixes xs :: "'a :: linorder list"
  assumes "mset xs = mset ys" shows "sort (remdups xs) = sort (remdups ys)"
proof -
  have "set xs = set ys" by (rule mset_eq_setD [OF assms])
  then show ?thesis
    using sorted_list_of_set_sort_remdups [of xs] sorted_list_of_set_sort_remdups [of ys] by simp
qed

lemma same_cell_facts:
  assumes "same_cell c c'"
  shows "cell_record c' = cell_record c"
    and "cell_selected_attempt_ids c' = cell_selected_attempt_ids c"
proof -
  obtain xs where "c' = c\<lparr>cell_excluded_attempt_ids := xs\<rparr>"
    using assms unfolding same_cell_def by blast
  then show "cell_record c' = cell_record c" "cell_selected_attempt_ids c' = cell_selected_attempt_ids c"
    by (simp_all add: cell_record_def)
qed

lemma matrix_cells_perm:
  assumes "mset jobs = mset jobs'" and "distinct (map j_job_id jobs)"
    and "mset xs = mset ys" and "distinct (map a_attempt_id xs)"
  shows "list_all2 same_cell (matrix_cells manifest jobs xs adjs cases repos)
    (matrix_cells manifest jobs' ys adjs cases repos)"
proof -
  have "sort (remdups (map cell_key jobs)) = sort (remdups (map cell_key jobs'))"
    using assms(1) by (intro sorted_keys_perm) simp
  then show ?thesis
    unfolding matrix_cells_def
    by (simp add: list_all2_map1 list_all2_map2 list.rel_refl build_cell_perm [OF assms])
qed

lemma same_cells_facts:
  assumes "list_all2 same_cell cs cs'"
  shows "map cell_record cs' = map cell_record cs"
    and "map cell_selected_attempt_ids cs' = map cell_selected_attempt_ids cs"
  using assms by (induction rule: list_all2_induct) (simp_all add: same_cell_facts)

lemma matrix_complete_perm:
  assumes "mset jobs = mset jobs'" and "list_all2 same_cell cs cs'"
  shows "matrix_complete manifest jobs cs = matrix_complete manifest jobs' cs'"
proof -
  have jobs: "set jobs = set jobs'" by (rule mset_eq_setD [OF assms(1)])
  have "list_all P (map cell_selected_attempt_ids cs') = list_all P (map cell_selected_attempt_ids cs)" for P
    by (simp add: same_cells_facts(2) [OF assms(2)])
  from this [of "\<lambda>ids. int (length ids) = m_max_repetitions manifest"]
  show ?thesis
    by (simp add: matrix_complete_def list_all_iff jobs comp_def)
qed

lemma attempts_digest_perm:
  assumes "mset xs = mset ys" and "distinct (map a_attempt_id xs)"
  shows "attempts_digest H fr xs = attempts_digest H fr ys"
proof -
  have "sort_key a_attempt_id xs = sort_key a_attempt_id ys"
    using assms by (intro sort_key_perm_eq) (auto simp: distinct_map)
  then show ?thesis by (simp add: attempts_digest_def)
qed

text \<open>
  C17. The matrix does not depend on the order of the database rows: permuting the jobs and the
  attempts gives the same identifier, the same attempts digest, the same completeness flag and
  the same cells, up to the order in which a cell lists the attempts it excludes.
\<close>

theorem matrix_order_irrelevant:
  assumes perm: "mset jobs = mset jobs'" "mset xs = mset ys"
    and ok: "build_matrix H fr now manifest jobs xs adjs cases repos version = Inr m"
  shows "\<exists>m'. build_matrix H fr now manifest jobs' ys adjs cases repos version = Inr m'
    \<and> mx_matrix_id m' = mx_matrix_id m
    \<and> mx_source_attempts_digest m' = mx_source_attempts_digest m
    \<and> mx_complete m' = mx_complete m
    \<and> list_all2 same_cell (mx_cells m) (mx_cells m')"
proof -
  have inputs: "matrix_inputs_ok jobs xs"
    using build_matrix_result [where H = H and fr = fr and now = now and manifest = manifest
        and jobs = jobs and attempts = xs and adjs = adjs and cases = cases and repos = repos
        and version = version] ok by simp
  then have inputs': "matrix_inputs_ok jobs' ys"
    using perm by (metis matrix_inputs_ok_def mset_eq_setD mset_eq_imp_distinct_iff mset_map)
  have cells: "list_all2 same_cell (matrix_cells manifest jobs xs adjs cases repos)
      (matrix_cells manifest jobs' ys adjs cases repos)"
    using inputs by (intro matrix_cells_perm perm) (simp_all add: matrix_inputs_ok_def)
  have "attempts_digest H fr xs = attempts_digest H fr ys"
    using inputs by (intro attempts_digest_perm perm) (simp add: matrix_inputs_ok_def)
  moreover have "matrix_identity H fr run version d (matrix_cells manifest jobs xs adjs cases repos)
      = matrix_identity H fr run version d (matrix_cells manifest jobs' ys adjs cases repos)" for run d
    by (simp add: matrix_identity_def same_cells_facts(1) [OF cells])
  ultimately show ?thesis
    using ok cells
    by (auto simp: build_matrix_eq [OF inputs refl] build_matrix_eq [OF inputs' refl]
        matrix_complete_perm [OF perm(1) cells] bind_res_def split: sum.splits)
qed

definition ex_coord :: "string \<Rightarrow> int \<Rightarrow> Job" where
  "ex_coord jid rep = \<lparr>j_job_id = jid, j_run_id = ''run'', j_task_key = ''t'', j_case_id = ''c'',
     j_verifier_key = ''v'', j_repetition = rep, j_state = DONE, j_fence = 1, j_attempt_id = None,
     j_lease_token = None, j_worker_id = None, j_lease_expires_ms = None, j_attempts_started = 1,
     j_selected_attempt_id = None, j_terminal_reason = None\<rparr>"

definition ex_coords :: "Job list" where
  "ex_coords = [ex_coord ''j0'' 0, ex_coord ''j1'' 1, ex_coord ''j2'' 2]"

definition ex_manifest :: AuditManifest where
  "ex_manifest = \<lparr>m_manifest_hash = ''h'', m_run_id = ''run'', m_benchmark_version = ''b'',
     m_task_pins = [], m_panel_key = ''p'', m_adjudication_version = ''adj'',
     m_evaluation_harness_version = ''e'', m_config_hash = ''c'', m_policy_hash = ''p'',
     m_analysis_plan_hash = None, m_timestamp = 0, m_host_fingerprint = ''f'', m_seed = None,
     m_agent_version = None, m_model_identifier = None, m_max_repetitions = 3,
     m_max_attempts_per_job = 3, m_timeout_seconds = 60, m_resource_policy = ''r'',
     m_expansion_digest = ''x'', m_parent_run_id = None\<rparr>"

theorem matrix_order_irrelevant_witness:
  "\<exists>m m'. build_matrix id (\<lambda>_. ''0.0'') 0 ex_manifest ex_coords ex_votes [] (\<lambda>_. None) (\<lambda>_. None) ''1.0.0'' = Inr m
    \<and> build_matrix id (\<lambda>_. ''0.0'') 0 ex_manifest (rev ex_coords) (rev ex_votes) [] (\<lambda>_. None) (\<lambda>_. None) ''1.0.0'' = Inr m'
    \<and> mx_matrix_id m' = mx_matrix_id m"
proof -
  have "matrix_inputs_ok ex_coords ex_votes"
    by (simp add: matrix_inputs_ok_def ex_coords_def ex_coord_def ex_votes_def ex_att_def)
  then obtain m where m: "build_matrix id (\<lambda>_. ''0.0'') 0 ex_manifest ex_coords ex_votes [] (\<lambda>_. None) (\<lambda>_. None)
      ''1.0.0'' = Inr m"
    by (rule build_matrix_ok)
  from matrix_order_irrelevant [OF _ _ m, of "rev ex_coords" "rev ex_votes"] m show ?thesis
    by auto
qed

end
