(* ===== verification/Canonical_Records.thy ===== *)
theory Canonical_Records
  imports Canonical_Json
begin

text \<open>
  Canonical bytes of records: when two objects with the same keys have the same canonical
  bytes, their values agree key by key; a collision-free hash of the bytes then binds them.
\<close>

definition opt_str :: "string option \<Rightarrow> pyval" where
  "opt_str x = (case x of None \<Rightarrow> V_none | Some s \<Rightarrow> V_str s)"

definition opt_int :: "int option \<Rightarrow> pyval" where
  "opt_int x = (case x of None \<Rightarrow> V_none | Some n \<Rightarrow> V_int n)"

text \<open>\<open>hashlib.sha256(canonical_bytes(value)).hexdigest()\<close>\<close>

definition canonical_hash :: "(string \<Rightarrow> string) \<Rightarrow> (pyfloat \<Rightarrow> string) \<Rightarrow> pyval \<Rightarrow> string res" where
  "canonical_hash H fr v = bind_res (canonical_bytes fr v) (\<lambda>b. Inr (H b))"

lemma map_str_ok: "canonical_seq (map V_str ss) = Inr (map J_str ss)"
  by (induction ss) simp_all

definition opt_json :: "('a \<Rightarrow> json) \<Rightarrow> 'a option \<Rightarrow> json" where
  "opt_json f x = (case x of None \<Rightarrow> J_null | Some y \<Rightarrow> f y)"

lemma opt_repr:
  "canonical_repr (opt_str x) = Inr (opt_json J_str x)"
  "canonical_repr (opt_int n) = Inr (opt_json J_int n)"
  by (simp_all add: opt_str_def opt_int_def opt_json_def split: option.split)

lemma same_keys_eq:
  assumes "mset xs = mset ys" and "map fst xs = map fst ys" and "distinct (map fst xs)"
  shows "xs = ys"
proof (rule nth_equalityI)
  show len: "length xs = length ys" using assms(2) by (metis length_map)
  fix i assume i: "i < length xs"
  have "set xs = set ys" by (rule mset_eq_setD [OF assms(1)])
  with i have "xs ! i \<in> set ys" by (metis nth_mem)
  moreover have "ys ! i \<in> set ys" using i len by (metis nth_mem)
  moreover have "fst (xs ! i) = fst (ys ! i)" using assms(2) i len by (metis nth_map)
  ultimately show "xs ! i = ys ! i"
    using assms(2,3) by (auto simp: distinct_map dest: inj_onD)
qed

lemma sorted_obj_eqD:
  assumes "sorted_keys (J_obj xs) = sorted_keys (J_obj ys)"
    and "map fst xs = map fst ys" and "distinct (map fst xs)"
  shows "sorted_items xs = sorted_items ys"
proof (rule same_keys_eq)
  have fst: "map fst (sorted_items zs) = map fst zs" for zs
    by (simp add: sorted_items_map comp_def case_prod_beta)
  show "map fst (sorted_items xs) = map fst (sorted_items ys)" "distinct (map fst (sorted_items xs))"
    using assms(2,3) by (simp_all add: fst)
  from assms(1) have "sort_key fst (sorted_items xs) = sort_key fst (sorted_items ys)" by simp
  then show "mset (sorted_items xs) = mset (sorted_items ys)" by (metis mset_sort)
qed

lemma sorted_atoms [simp]:
  "sorted_keys (opt_json J_str x) = opt_json J_str x" "sorted_keys (opt_json J_int n) = opt_json J_int n"
  "sorted_seq (map J_str ss) = map J_str ss"
  by (simp_all add: opt_json_def split: option.split) (induction ss; simp)

lemma opt_json_inj [simp]:
  "opt_json J_str x = opt_json J_str y \<longleftrightarrow> x = y" "opt_json J_int n = opt_json J_int k \<longleftrightarrow> n = k"
  by (auto simp: opt_json_def split: option.splits)

lemma map_J_str_inj [simp]: "map J_str xs = map J_str ys \<longleftrightarrow> xs = ys"
  by (rule inj_map_eq_map) (simp add: inj_def)

text \<open>The hash does not collide on the canonical bytes of two values.\<close>

definition no_collision ::
    "(string \<Rightarrow> string) \<Rightarrow> (pyfloat \<Rightarrow> string) \<Rightarrow> pyval \<Rightarrow> pyval \<Rightarrow> bool" where
  "no_collision H fr v w \<longleftrightarrow> (\<forall>b b'. canonical_bytes fr v = Inr b \<longrightarrow> canonical_bytes fr w = Inr b'
     \<longrightarrow> H b = H b' \<longrightarrow> b = b')"

lemma no_collision_inj: "inj H \<Longrightarrow> no_collision H fr v w"
  by (auto simp: no_collision_def dest: injD)

lemma canonical_hash_obj:
  assumes "canonical_repr v = Inr (J_obj xs)"
  shows "canonical_hash H fr v = Inr (H (render fr (sorted_keys (J_obj xs))))"
  using assms by (simp add: canonical_hash_def canonical_bytes_def)

lemma canonical_hash_eq_iff:
  assumes "float_text fr" and "no_collision H fr v w"
    and v: "canonical_repr v = Inr (J_obj xs)" and w: "canonical_repr w = Inr (J_obj ys)"
    and "map fst xs = map fst ys" and "distinct (map fst xs)"
  shows "canonical_hash H fr v = canonical_hash H fr w \<longleftrightarrow> sorted_items xs = sorted_items ys"
proof
  have bytes: "canonical_bytes fr v = Inr (render fr (sorted_keys (J_obj xs)))"
    "canonical_bytes fr w = Inr (render fr (sorted_keys (J_obj ys)))"
    using v w by (simp_all only: canonical_bytes_def bind_res_simps)
  assume "canonical_hash H fr v = canonical_hash H fr w"
  then have "H (render fr (sorted_keys (J_obj xs))) = H (render fr (sorted_keys (J_obj ys)))"
    by (simp only: canonical_hash_obj [OF v] canonical_hash_obj [OF w] sum.inject)
  with assms(2) bytes have "render fr (sorted_keys (J_obj xs)) = render fr (sorted_keys (J_obj ys))"
    unfolding no_collision_def by blast
  then have "canonical_bytes fr v = canonical_bytes fr w" by (simp only: bytes)
  from canonical_bytes_inj [OF assms(1) v w this] show "sorted_items xs = sorted_items ys"
    by (rule sorted_obj_eqD [OF _ assms(5,6)])
qed (simp add: canonical_hash_obj [OF v] canonical_hash_obj [OF w])

end
