(* ===== verification/Py_Strings.thy ===== *)
theory Py_Strings
  imports Py_Text
begin

text \<open>
  More of Python's strings: decoding with replacement, line splitting, stripping, code points
  and the shell patterns of \<open>fnmatch\<close>. A \<open>str\<close> is the list of its UTF-8 bytes.
\<close>

section \<open>UTF-8\<close>

text \<open>The code points of a UTF-8 text.\<close>

fun code_points :: "nat list \<Rightarrow> nat list" where
  "code_points [] = []"
| "code_points [a] = [a]"
| "code_points [a, b] = (if a < 128 then a # code_points [b] else [(a - 192) * 64 + (b - 128)])"
| "code_points [a, b, c] =
    (if a < 128 then a # code_points [b, c]
     else if a < 224 then ((a - 192) * 64 + (b - 128)) # code_points [c]
     else [(a - 224) * 4096 + (b - 128) * 64 + (c - 128)])"
| "code_points (a # b # c # d # cs) =
    (if a < 128 then a # code_points (b # c # d # cs)
     else if a < 224 then ((a - 192) * 64 + (b - 128)) # code_points (c # d # cs)
     else if a < 240 then ((a - 224) * 4096 + (b - 128) * 64 + (c - 128)) # code_points (d # cs)
     else ((a - 240) * 262144 + (b - 128) * 4096 + (c - 128) * 64 + (d - 128)) # code_points cs)"

text \<open>
  \<open>bytes.decode("utf-8", errors="replace")\<close>: the number of bytes of the character at the front
  or, if it is not well formed, of its longest well-formed start, which becomes U+FFFD.
\<close>

fun cont_run :: "nat \<Rightarrow> nat \<Rightarrow> nat \<Rightarrow> nat list \<Rightarrow> nat" where
  "cont_run (Suc n) lo hi (b # bs) = (if lo \<le> b \<and> b \<le> hi then Suc (cont_run n 128 191 bs) else 0)"
| "cont_run n lo hi bs = 0"

definition utf8_step :: "nat \<Rightarrow> nat list \<Rightarrow> nat \<times> bool" where
  "utf8_step a bs =
    (if a < 128 then (1, True)
     else if a < 194 \<or> 244 < a then (1, False)
     else let need = (if a < 224 then 1 else if a < 240 then 2 else 3);
              lo = (if a = 224 then 160 else if a = 240 then 144 else 128);
              hi = (if a = 237 then 159 else if a = 244 then 143 else 191);
              k = cont_run need lo hi bs
          in (Suc k, k = need))"

lemma utf8_step_pos: "0 < fst (utf8_step a bs)"
  by (simp add: utf8_step_def Let_def)

function decode_replace :: "string \<Rightarrow> string" where
  "decode_replace [] = []"
| "decode_replace (c # cs) =
    (let (n, ok) = utf8_step (of_char c) (map of_char cs)
     in (if ok then take n (c # cs) else [CHR 0xEF, CHR 0xBF, CHR 0xBD]) @ decode_replace (drop n (c # cs)))"
  by pat_completeness auto
termination
proof (relation "measure length", goal_cases)
  case (2 c cs x n ok)
  with utf8_step_pos [of "of_char c" "map of_char cs"] show ?case by (metis fst_conv in_measure
      length_drop length_greater_0_conv diff_less list.discI)
qed simp

section \<open>Stripping and splitting\<close>

text \<open>\<open>str.rstrip\<close>: no byte inside a character looks like white space.\<close>

fun rstrip :: "string \<Rightarrow> string" where
  "rstrip [] = []"
| "rstrip (c # cs) = (if blank (c # cs) then [] else c # rstrip cs)"

definition strip :: "string \<Rightarrow> string" where
  "strip s = rstrip (lstrip s)"

text \<open>\<open>s.rstrip(chars)\<close> for one character\<close>

definition rstrip_char :: "char \<Rightarrow> string \<Rightarrow> string" where
  "rstrip_char c s = rev (dropWhile (\<lambda>x. x = c) (rev s))"

text \<open>The number of bytes of the line boundary at the front, 0 if there is none.\<close>

fun break_width :: "nat list \<Rightarrow> nat" where
  "break_width [] = 0"
| "break_width (a # cs) =
    (if a = 13 \<and> cs \<noteq> [] \<and> hd cs = 10 then 2
     else if a \<in> {10, 11, 12, 13, 28, 29, 30} then 1
     else if a = 194 \<and> cs \<noteq> [] \<and> hd cs = 133 then 2
     else if a = 226 \<and> take 1 cs = [128] \<and> (take 1 (tl cs) = [168] \<or> take 1 (tl cs) = [169]) then 3
     else 0)"

text \<open>\<open>str.splitlines\<close>; \<open>line\<close> is the line read so far, reversed.\<close>

function split_lines :: "string \<Rightarrow> string \<Rightarrow> string list" where
  "split_lines line [] = (if line = [] then [] else [rev line])"
| "split_lines line (c # cs) =
    (let w = break_width (map of_char (c # cs))
     in if w = 0 then split_lines (c # line) cs else rev line # split_lines [] (drop w (c # cs)))"
  by pat_completeness auto
termination
  by (relation "measure (length \<circ> snd)") auto

definition splitlines :: "string \<Rightarrow> string list" where
  "splitlines s = split_lines [] s"

text \<open>\<open>s.split(c)\<close> for one character\<close>

fun split_on :: "char \<Rightarrow> string \<Rightarrow> string list" where
  "split_on c [] = [[]]"
| "split_on c (x # xs) =
    (if x = c then [] # split_on c xs else (x # hd (split_on c xs)) # tl (split_on c xs))"

lemma split_on_not_Nil [simp]: "split_on c s \<noteq> []"
  by (cases s) auto

text \<open>For evaluation: one recursive call.\<close>

lemma split_on_code [code]:
  "split_on c [] = [[]]"
  "split_on c (x # xs) = (case split_on c xs of
     [] \<Rightarrow> [] | w # ws \<Rightarrow> if x = c then [] # w # ws else (x # w) # ws)"
  by (simp, cases "split_on c xs") simp_all

lemma split_on_no_sep: "w \<in> set (split_on c s) \<Longrightarrow> c \<notin> set w"
proof (induction s arbitrary: w)
  case (Cons x xs)
  have "hd (split_on c xs) \<in> set (split_on c xs)" by simp
  with Cons show ?case by (auto split: if_splits dest: list.set_sel(2) [OF split_on_not_Nil])
qed simp

lemma split_on_append: "split_on c (xs @ c # ys) = split_on c xs @ split_on c ys"
  by (induction xs) (auto simp: hd_append tl_append split: list.splits)

section \<open>fnmatch\<close>

datatype glob = Star | Any_char | Lit nat | Class bool "(nat \<times> nat) list"

text \<open>The members of a bracket expression, as ranges.\<close>

fun class_items :: "nat list \<Rightarrow> (nat \<times> nat) list" where
  "class_items (x # y # z # r) = (if y = 45 then (x, z) # class_items r else (x, x) # class_items (y # z # r))"
| "class_items [x, y] = [(x, x), (y, y)]"
| "class_items [x] = [(x, x)]"
| "class_items [] = []"

text \<open>
  The text between the brackets and what follows, if the bracket is closed; a \<open>!\<close> and then a
  \<open>]\<close> directly after the opening bracket do not close it.
\<close>

definition bracket :: "nat list \<Rightarrow> (nat list \<times> nat list) option" where
  "bracket r =
    (let neg = (if take 1 r = [33] then [33] else []); r1 = drop (length neg) r;
         lead = (if take 1 r1 = [93] then [93] else []); r2 = drop (length lead) r1;
         body = takeWhile (\<lambda>x. x \<noteq> 93) r2; rest = dropWhile (\<lambda>x. x \<noteq> 93) r2
     in if rest = [] then None else Some (neg @ lead @ body, tl rest))"

definition class_of :: "nat list \<Rightarrow> glob" where
  "class_of stuff = (if take 1 stuff = [33] then Class True (class_items (tl stuff))
     else Class False (class_items stuff))"

lemma bracket_shorter:
  assumes "bracket r = Some (stuff, rest)" shows "length rest < Suc (length r)"
proof -
  let ?r1 = "drop (length (if take 1 r = [33] then [33 :: nat] else [])) r"
  let ?r2 = "drop (length (if take 1 ?r1 = [93] then [93 :: nat] else [])) ?r1"
  have "rest = tl (dropWhile (\<lambda>x. x \<noteq> 93) ?r2)"
    using assms unfolding bracket_def Let_def by (metis option.distinct(1) option.inject prod.inject)
  moreover have "length ?r2 \<le> length r" by simp
  ultimately show ?thesis
    using length_dropWhile_le [of "\<lambda>x. x \<noteq> 93" ?r2] by simp
qed

function parse_glob :: "nat list \<Rightarrow> glob list" where
  "parse_glob [] = []"
| "parse_glob (c # cs) =
    (if c = 42 then Star # parse_glob cs
     else if c = 63 then Any_char # parse_glob cs
     else if c = 91 then (case bracket cs of
         None \<Rightarrow> Lit 91 # parse_glob cs
       | Some (stuff, rest) \<Rightarrow> class_of stuff # parse_glob rest)
     else Lit c # parse_glob cs)"
  by pat_completeness auto
termination
  by (relation "measure length") (auto dest: bracket_shorter)

fun glob_char :: "glob \<Rightarrow> nat \<Rightarrow> bool" where
  "glob_char (Lit x) c = (c = x)"
| "glob_char (Class neg items) c = (list_ex (\<lambda>(lo, hi). lo \<le> c \<and> c \<le> hi) items \<noteq> neg)"
| "glob_char _ c = True"

fun glob_match :: "glob list \<Rightarrow> nat list \<Rightarrow> bool" where
  "glob_match [] [] = True"
| "glob_match [] (c # cs) = False"
| "glob_match (g # gs) [] = (g = Star \<and> glob_match gs [])"
| "glob_match (g # gs) (c # cs) =
    (if g = Star then glob_match gs (c # cs) \<or> glob_match (g # gs) cs
     else glob_char g c \<and> glob_match gs cs)"

definition fnmatch :: "string \<Rightarrow> string \<Rightarrow> bool" where
  "fnmatch name pattern =
    glob_match (parse_glob (code_points (map of_char pattern))) (code_points (map of_char name))"

end
