(* ===== verification/Planner.thy ===== *)
theory Planner
  imports Canonical_Records Py_Strings
begin

text \<open>
  Expansion of an audit into its jobs and construction of the hashed manifest:
  \<open>src/src/verifierci/execution/planner.py\<close>. \<open>H\<close> is \<open>hashlib.sha256(...).hexdigest()\<close>, \<open>fr\<close> the
  text of a float; the fresh UUID and the clock are arguments.
\<close>

section \<open>job\_id\<close>

definition coord_value :: "string \<Rightarrow> string \<Rightarrow> string \<Rightarrow> string \<Rightarrow> int \<Rightarrow> pyval" where
  "coord_value run_id task_key case_id verifier_key repetition =
    V_seq [V_str run_id, V_str task_key, V_str case_id, V_str verifier_key, V_int repetition]"

definition job_id ::
    "(string \<Rightarrow> string) \<Rightarrow> (pyfloat \<Rightarrow> string) \<Rightarrow> string \<Rightarrow> string \<Rightarrow> string \<Rightarrow> string \<Rightarrow> int
     \<Rightarrow> string res" where
  "job_id H fr run_id task_key case_id verifier_key repetition =
    bind_res (canonical_bytes fr (coord_value run_id task_key case_id verifier_key repetition))
      (\<lambda>coord_bytes. Inr (H coord_bytes))"

section \<open>compute\_expansion\_digest\<close>

definition hex4 :: "nat \<Rightarrow> string" where
  "hex4 n = [backslash, CHR ''u'', hex_digit (n div 4096 mod 16), hex_digit (n div 256 mod 16),
     hex_digit (n div 16 mod 16), hex_digit (n mod 16)]"

text \<open>One code point of a string literal of \<open>json.dumps\<close> with \<open>ensure_ascii=True\<close>.\<close>

definition ascii_esc :: "nat \<Rightarrow> string" where
  "ascii_esc n =
    (if 32 \<le> n \<and> n \<le> 126 \<or> n = 10 \<or> n = 13 \<or> n = 9 \<or> n = 12 \<or> n = 8 then esc (char_of n)
     else if n < 65536 then hex4 n
     else hex4 (55296 + (n - 65536) div 1024) @ hex4 (56320 + (n - 65536) mod 1024))"

definition ascii_quote :: "string \<Rightarrow> string" where
  "ascii_quote s = CHR 0x22 # concat (map ascii_esc (code_points (map of_char s))) @ [CHR 0x22]"

text \<open>\<open>json.dumps\<close> of a list of strings with its default separators.\<close>

fun dumps_tail :: "string list \<Rightarrow> string" where
  "dumps_tail [] = '']''"
| "dumps_tail (s # ss) = '', '' @ ascii_quote s @ dumps_tail ss"

definition dumps_strs :: "string list \<Rightarrow> string" where
  "dumps_strs ss = (case ss of [] \<Rightarrow> ''[]'' | s # ss' \<Rightarrow> ''['' @ ascii_quote s @ dumps_tail ss')"

text \<open>An element of the argument: a \<open>Job\<close>, or the string that names one.\<close>

datatype job_ref = A_job Job | A_name string

fun ref_id :: "job_ref \<Rightarrow> string" where
  "ref_id (A_job j) = j_job_id j"
| "ref_id (A_name s) = s"

definition compute_expansion_digest :: "(string \<Rightarrow> string) \<Rightarrow> job_ref list \<Rightarrow> string" where
  "compute_expansion_digest H js = H (dumps_strs (sort (map ref_id js)))"

section \<open>expand\<close>

text \<open>
  \<open>getattr(panel, "memberships")\<close>: the class \<open>PatchPanel\<close> has slots and no such attribute, so
  \<open>hasattr\<close> is false for every panel.
\<close>

definition panel_memberships :: "PatchPanel \<Rightarrow> string list option" where
  "panel_memberships panel = None"

definition pin_case_ids :: "PatchPanel option \<Rightarrow> TaskPin \<Rightarrow> string list" where
  "pin_case_ids panel pin =
    (if tp_case_ids pin = []
     then (case Option.bind panel panel_memberships of None \<Rightarrow> [] | Some ids \<Rightarrow> ids)
     else tp_case_ids pin)"

type_synonym coordinate = "string \<times> string \<times> string \<times> int"

text \<open>The coordinates in the order of the four nested loops.\<close>

definition pin_coordinates :: "AuditManifest \<Rightarrow> PatchPanel option \<Rightarrow> TaskPin \<Rightarrow> coordinate list" where
  "pin_coordinates manifest panel pin =
    [(tp_task_key pin, case_id, v_key, rep).
       case_id \<leftarrow> pin_case_ids panel pin,
       v_key \<leftarrow> [tp_verifier_baseline_version pin, tp_verifier_candidate_version pin],
       rep \<leftarrow> [0..m_max_repetitions manifest - 1]]"

definition coordinates :: "AuditManifest \<Rightarrow> PatchPanel option \<Rightarrow> coordinate list" where
  "coordinates manifest panel = concat (map (pin_coordinates manifest panel) (m_task_pins manifest))"

definition fresh_job :: "string \<Rightarrow> string \<Rightarrow> coordinate \<Rightarrow> Job" where
  "fresh_job jid run_id k = (case k of (task_key, case_id, v_key, rep) \<Rightarrow> \<lparr>
     j_job_id = jid, j_run_id = run_id, j_task_key = task_key, j_case_id = case_id,
     j_verifier_key = v_key, j_repetition = rep, j_state = PENDING, j_fence = 0,
     j_attempt_id = None, j_lease_token = None, j_worker_id = None, j_lease_expires_ms = None,
     j_attempts_started = 0, j_selected_attempt_id = None, j_terminal_reason = None\<rparr>)"

definition expand_one ::
    "(string \<Rightarrow> string) \<Rightarrow> (pyfloat \<Rightarrow> string) \<Rightarrow> string \<Rightarrow> coordinate \<Rightarrow> Job res" where
  "expand_one H fr run_id k = (case k of (task_key, case_id, v_key, rep) \<Rightarrow>
     bind_res (job_id H fr run_id task_key case_id v_key rep)
       (\<lambda>jid. Inr (fresh_job jid run_id k)))"

definition job_order :: "Job \<Rightarrow> coordinate" where
  "job_order j = (j_task_key j, j_case_id j, j_verifier_key j, j_repetition j)"

definition expand ::
    "(string \<Rightarrow> string) \<Rightarrow> (pyfloat \<Rightarrow> string) \<Rightarrow> AuditManifest \<Rightarrow> PatchPanel option
     \<Rightarrow> Job list res" where
  "expand H fr manifest panel =
    bind_res (map_res (expand_one H fr (m_run_id manifest)) (coordinates manifest panel))
      (\<lambda>expanded. Inr (sort_key job_order expanded))"

section \<open>build\_manifest\<close>

text \<open>The arguments.\<close>

record manifest_args =
  ba_options :: "AuditOptions option"
  ba_pins :: "TaskPin list"
  ba_panel :: "PatchPanel option"
  ba_run_id :: "string option"
  ba_task_pins :: "TaskPin list"
  ba_panel_key :: "string option"
  ba_adjudication_version :: "string option"
  ba_policy_hash :: "string option"
  ba_repetitions :: "int option"
  ba_benchmark_version :: string
  ba_timeout_seconds :: int
  ba_max_attempts :: int
  ba_resource_policy :: "string option"
  ba_seed :: "int option"

text \<open>\<open>datetime.isoformat\<close> of a UTC instant.\<close>

definition isoformat :: "datetime \<Rightarrow> string" where
  "isoformat t = (let us = t mod 1000000; secs = t div 1000000; day = secs div 86400;
     sod = secs mod 86400; (y, m, d) = civil day
   in padded 4 y @ ''-'' @ padded 2 m @ ''-'' @ padded 2 d @ ''T'' @ padded 2 (sod div 3600) @ '':''
      @ padded 2 (sod mod 3600 div 60) @ '':'' @ padded 2 (sod mod 60)
      @ (if us \<noteq> 0 then ''.'' @ padded 6 us else []) @ ''+00:00'')"

definition pin_payload :: "TaskPin \<Rightarrow> pyval" where
  "pin_payload p = V_mapping [
     (''task_key'', V_str (tp_task_key p)),
     (''task_version'', V_str (tp_task_version p)),
     (''contract_hash'', V_str (tp_contract_hash p)),
     (''repository_snapshot_digest'', V_str (tp_repository_snapshot_digest p)),
     (''environment_id'', V_str (tp_environment_id p)),
     (''environment_image_digest'', opt_str (tp_environment_image_digest p)),
     (''verifier_baseline_version'', V_str (tp_verifier_baseline_version p)),
     (''verifier_candidate_version'', V_str (tp_verifier_candidate_version p)),
     (''baseline_manifest_hash'', V_str (tp_baseline_manifest_hash p)),
     (''candidate_manifest_hash'', V_str (tp_candidate_manifest_hash p)),
     (''case_ids'', V_seq (map V_str (tp_case_ids p)))]"

text \<open>\<open>manifest_dict\<close>: every field of the manifest but its hash.\<close>

definition manifest_payload :: "AuditManifest \<Rightarrow> pyval" where
  "manifest_payload m = V_mapping [
     (''run_id'', V_str (m_run_id m)),
     (''benchmark_version'', V_str (m_benchmark_version m)),
     (''task_pins'', V_seq (map pin_payload (m_task_pins m))),
     (''panel_key'', V_str (m_panel_key m)),
     (''adjudication_version'', V_str (m_adjudication_version m)),
     (''evaluation_harness_version'', V_str (m_evaluation_harness_version m)),
     (''config_hash'', V_str (m_config_hash m)),
     (''policy_hash'', V_str (m_policy_hash m)),
     (''analysis_plan_hash'', opt_str (m_analysis_plan_hash m)),
     (''timestamp'', V_str (isoformat (m_timestamp m))),
     (''host_fingerprint'', V_str (m_host_fingerprint m)),
     (''seed'', opt_int (m_seed m)),
     (''agent_version'', opt_str (m_agent_version m)),
     (''model_identifier'', opt_str (m_model_identifier m)),
     (''max_repetitions'', V_int (m_max_repetitions m)),
     (''max_attempts_per_job'', V_int (m_max_attempts_per_job m)),
     (''timeout_seconds'', V_int (m_timeout_seconds m)),
     (''resource_policy'', V_str (m_resource_policy m)),
     (''expansion_digest'', V_str (m_expansion_digest m)),
     (''parent_run_id'', opt_str (m_parent_run_id m))]"

text \<open>\<open>temp_manifest\<close>\<close>

definition temp_manifest ::
    "(string \<Rightarrow> string) \<Rightarrow> string \<Rightarrow> datetime \<Rightarrow> manifest_args \<Rightarrow> TaskPin list \<Rightarrow> AuditManifest" where
  "temp_manifest H uuid now args pins = \<lparr>
     m_manifest_hash = ''temp'',
     m_run_id = or_str (ba_run_id args) uuid,
     m_benchmark_version = (case ba_options args of
         None \<Rightarrow> ba_benchmark_version args
       | Some opts \<Rightarrow> or_str (o_benchmark_file opts) (ba_benchmark_version args)),
     m_task_pins = pins,
     m_panel_key = (case ba_panel args of
         Some panel \<Rightarrow> pp_panel_key panel | None \<Rightarrow> or_str (ba_panel_key args) ''panel-1''),
     m_adjudication_version = (case ba_panel args of
         Some panel \<Rightarrow> pp_membership_digest panel
       | None \<Rightarrow> or_str (ba_adjudication_version args) ''adj-1''),
     m_evaluation_harness_version = ''verifierci-0.1.0'',
     m_config_hash = H ''default_config'',
     m_policy_hash = or_str (ba_policy_hash args) (H ''default_policy''),
     m_analysis_plan_hash = None,
     m_timestamp = now,
     m_host_fingerprint = ''local-runner'',
     m_seed = (case ba_options args of None \<Rightarrow> ba_seed args | Some opts \<Rightarrow> o_seed opts),
     m_agent_version = None,
     m_model_identifier = None,
     m_max_repetitions = (case ba_options args of
         None \<Rightarrow> or_int (ba_repetitions args) 3 | Some opts \<Rightarrow> o_repetitions opts),
     m_max_attempts_per_job = (case ba_options args of
         None \<Rightarrow> ba_max_attempts args | Some opts \<Rightarrow> o_max_attempts opts),
     m_timeout_seconds = (case ba_options args of
         None \<Rightarrow> ba_timeout_seconds args | Some opts \<Rightarrow> o_timeout_seconds opts),
     m_resource_policy = or_str (ba_resource_policy args) (H ''sandbox_policy''),
     m_expansion_digest = ''temp'',
     m_parent_run_id = Option.bind (ba_options args) o_parent_run_id\<rparr>"

definition over_ceiling :: "AuditOptions option \<Rightarrow> Job list \<Rightarrow> bool" where
  "over_ceiling options jobs = (case options of
     None \<Rightarrow> False
   | Some opts \<Rightarrow> o_max_jobs opts \<noteq> 0 \<and> int (length jobs) > o_max_jobs opts)"

definition build_manifest ::
    "(string \<Rightarrow> string) \<Rightarrow> (pyfloat \<Rightarrow> string) \<Rightarrow> string \<Rightarrow> datetime \<Rightarrow> manifest_args
     \<Rightarrow> AuditManifest res" where
  "build_manifest H fr uuid now args =
    (let effective_pins = (if ba_task_pins args = [] then ba_pins args else ba_task_pins args) in
     if effective_pins = []
     then Inl (make_error ValidationError (Some (ec_value EC_VALIDATION_ERROR)))
     else
       let temp = temp_manifest H uuid now args effective_pins in
       bind_res (expand H fr temp (ba_panel args)) (\<lambda>planned_jobs.
         if over_ceiling (ba_options args) planned_jobs
         then Inl (make_error ValidationError (Some (ec_value EC_RESOURCE_EXHAUSTED)))
         else
           let manifest = temp\<lparr>m_expansion_digest :=
                 compute_expansion_digest H (map A_job planned_jobs)\<rparr>
           in bind_res (canonical_bytes fr (manifest_payload manifest)) (\<lambda>b.
                Inr (manifest\<lparr>m_manifest_hash := H b\<rparr>))))"

section \<open>plan\_jobs\<close>

definition plan_jobs ::
    "(string \<Rightarrow> string) \<Rightarrow> (pyfloat \<Rightarrow> string) \<Rightarrow> string list \<Rightarrow> Job list res" where
  "plan_jobs H fr task_ids =
    map_res (\<lambda>tid. expand_one H fr ''stub_run'' (tid, ''case_0'', ''verifier_0'', 0)) task_ids"

end
