(* ===== verification/Planner_Properties.thy ===== *)
theory Planner_Properties
  imports Planner Canonical_Records
begin

text \<open>
  The expansion of a manifest is the sorted cross product of its coordinates, its job
  identifiers identify coordinates, the order of pins and cases does not matter, and the
  manifest hash binds every field.
\<close>

section \<open>Job identifiers\<close>

text \<open>The canonical bytes of a coordinate, spelled out.\<close>

definition coord_text :: "string \<Rightarrow> coordinate \<Rightarrow> string" where
  "coord_text run_id k = (case k of (task_key, case_id, v_key, rep) \<Rightarrow>
     ''['' @ quote run_id @ '','' @ quote task_key @ '','' @ quote case_id @ '','' @ quote v_key
     @ '','' @ str_of_int rep @ '']'')"

lemma coord_repr:
  "canonical_repr (coord_value run_id t c v rep) = Inr (J_arr [J_str run_id, J_str t, J_str c, J_str v, J_int rep])"
  by (simp add: coord_value_def)

lemma coord_bytes:
  "canonical_bytes fr (coord_value run_id t c v rep) = Inr (coord_text run_id (t, c, v, rep))"
  by (simp add: canonical_bytes_def coord_repr coord_text_def)

lemma coord_text_inj: "coord_text run_id k = coord_text run_id' k' \<longleftrightarrow> run_id = run_id' \<and> k = k'"
proof
  assume eq: "coord_text run_id k = coord_text run_id' k'"
  obtain t c v r where k: "k = (t, c, v, r)" by (cases k)
  obtain t' c' v' r' where k': "k' = (t', c', v', r')" by (cases k')
  from eq have "canonical_bytes ex_float_text (coord_value run_id t c v r)
      = canonical_bytes ex_float_text (coord_value run_id' t' c' v' r')"
    by (simp only: coord_bytes k k')
  from canonical_bytes_inj [OF ex_float_text coord_repr coord_repr this]
  show "run_id = run_id' \<and> k = k'" by (simp add: k k')
qed simp

lemma job_id_eq: "job_id H fr run_id t c v rep = Inr (H (coord_text run_id (t, c, v, rep)))"
  by (simp add: job_id_def coord_bytes)

definition coord_job :: "(string \<Rightarrow> string) \<Rightarrow> string \<Rightarrow> coordinate \<Rightarrow> Job" where
  "coord_job H run_id k = fresh_job (H (coord_text run_id k)) run_id k"

lemma expand_one_eq: "expand_one H fr run_id k = Inr (coord_job H run_id k)"
  by (simp add: expand_one_def job_id_eq coord_job_def split: prod.split)

lemma fresh_job_simps [simp]:
  "j_job_id (fresh_job jid run_id k) = jid" "j_run_id (fresh_job jid run_id k) = run_id"
  "job_order (fresh_job jid run_id k) = k" "j_state (fresh_job jid run_id k) = PENDING"
  by (simp_all add: fresh_job_def job_order_def split: prod.split)

lemma coord_job_simps [simp]:
  "j_job_id (coord_job H run_id k) = H (coord_text run_id k)"
  "j_run_id (coord_job H run_id k) = run_id" "job_order (coord_job H run_id k) = k"
  by (simp_all add: coord_job_def)

section \<open>The expansion\<close>

lemma expand_eq:
  "expand H fr m panel = Inr (sort_key job_order (map (coord_job H (m_run_id m)) (coordinates m panel)))"
  by (simp add: expand_def expand_one_eq map_res_ok [where g = "coord_job H (m_run_id m)"])

lemma pin_case_ids_eq: "pin_case_ids panel pin = tp_case_ids pin"
  by (cases panel) (simp_all add: pin_case_ids_def panel_memberships_def)

lemma length_upto: "length [i..j] = nat (j - i + 1)"
  by (induction i j rule: upto.induct) (subst upto.simps, simp, arith)

lemma length_pin_coordinates:
  "length (pin_coordinates m panel pin) = 2 * length (tp_case_ids pin) * nat (m_max_repetitions m)"
  by (simp add: pin_coordinates_def pin_case_ids_eq length_concat comp_def sum_list_triv)

lemma set_pin_coordinates:
  "(t, c, v, r) \<in> set (pin_coordinates m panel pin) \<longleftrightarrow> 0 \<le> r \<and> r < m_max_repetitions m
    \<and> t = tp_task_key pin \<and> c \<in> set (tp_case_ids pin)
    \<and> v \<in> {tp_verifier_baseline_version pin, tp_verifier_candidate_version pin}"
  by (auto simp: pin_coordinates_def pin_case_ids_eq image_iff)

lemma set_coordinates:
  "(t, c, v, r) \<in> set (coordinates m panel) \<longleftrightarrow> 0 \<le> r \<and> r < m_max_repetitions m
    \<and> (\<exists>pin \<in> set (m_task_pins m). t = tp_task_key pin \<and> c \<in> set (tp_case_ids pin)
        \<and> v \<in> {tp_verifier_baseline_version pin, tp_verifier_candidate_version pin})"
  by (auto simp: coordinates_def set_pin_coordinates)

lemma mset_expand:
  "expand H fr m panel = Inr jobs \<Longrightarrow> mset jobs = mset (map (coord_job H (m_run_id m)) (coordinates m panel))"
  by (auto simp: expand_eq)

text \<open>
  C18. Expansion never fails: it answers the sorted cross product of the pinned cases, the two
  verifiers and the repetitions, one pending job of fence 0 per coordinate, each under the
  identifier \<open>job_id\<close> computes for it.
\<close>

theorem expansion_is_sorted_cross_product:
  "case expand H fr m panel of Inl e \<Rightarrow> False | Inr jobs \<Rightarrow>
     sorted (map job_order jobs)
   \<and> mset (map job_order jobs) = mset (coordinates m panel)
   \<and> length jobs = 2 * nat (m_max_repetitions m) * sum_list (map (length \<circ> tp_case_ids) (m_task_pins m))
   \<and> list_all (\<lambda>j. case job_order j of (t, c, v, r) \<Rightarrow>
        job_id H fr (m_run_id m) t c v r = Inr (j_job_id j)
        \<and> j = fresh_job (j_job_id j) (m_run_id m) (t, c, v, r)) jobs"
proof -
  have "length (coordinates m panel)
      = 2 * nat (m_max_repetitions m) * sum_list (map (length \<circ> tp_case_ids) (m_task_pins m))"
    by (simp add: coordinates_def length_concat comp_def length_pin_coordinates mult_ac
        flip: sum_list_const_mult)
  then show ?thesis
    by (auto simp: expand_eq list_all_iff job_id_eq coord_job_def image_mset.compositionality comp_def
        split: prod.split)
qed

text \<open>
  Job identifiers identify coordinates: when the hash does not collide on the coordinates of
  the expansion, two planned jobs share an identifier exactly when a coordinate was planned
  twice.
\<close>

lemma job_ids_identify_coordinates:
  assumes "inj_on H (coord_text (m_run_id m) ` set (coordinates m panel))"
    and "expand H fr m panel = Inr jobs"
  shows "distinct (map j_job_id jobs) \<longleftrightarrow> distinct (coordinates m panel)"
proof -
  let ?f = "H \<circ> coord_text (m_run_id m)"
  have "inj_on (coord_text (m_run_id m)) (set (coordinates m panel))"
    by (auto simp: inj_on_def coord_text_inj)
  then have inj: "inj_on ?f (set (coordinates m panel))" using assms(1) by (rule comp_inj_on)
  have "mset (map j_job_id jobs) = mset (map ?f (coordinates m panel))"
    using arg_cong [OF mset_expand [OF assms(2)], of "image_mset j_job_id"]
    by (simp add: image_mset.compositionality comp_def)
  then have "distinct (map j_job_id jobs) \<longleftrightarrow> distinct (map ?f (coordinates m panel))"
    by (rule mset_eq_imp_distinct_iff)
  then show ?thesis using inj by (simp add: distinct_map)
qed

text \<open>Pins that plan no coordinate twice.\<close>

definition pin_ok :: "TaskPin \<Rightarrow> bool" where
  "pin_ok pin \<longleftrightarrow> distinct (tp_case_ids pin)
     \<and> tp_verifier_baseline_version pin \<noteq> tp_verifier_candidate_version pin"

definition pins_ok :: "TaskPin list \<Rightarrow> bool" where
  "pins_ok pins \<longleftrightarrow> distinct (map tp_task_key pins) \<and> list_all pin_ok pins"

lemma distinct_concat_by:
  assumes "distinct (map key xs)" and "\<And>x. x \<in> set xs \<Longrightarrow> distinct (f x)"
    and "\<And>x y. x \<in> set xs \<Longrightarrow> y \<in> set (f x) \<Longrightarrow> proj y = key x"
  shows "distinct (concat (map f xs))"
  using assms
proof (induction xs)
  case (Cons x xs)
  have "y \<notin> set (f z)" if "y \<in> set (f x)" "z \<in> set xs" for y z
  proof
    assume "y \<in> set (f z)"
    then have "key z = key x" using Cons.prems(3) [of x y] Cons.prems(3) [of z y] that by simp
    with Cons.prems(1) that(2) show False by (metis distinct.simps(2) image_eqI list.simps(9) set_map)
  qed
  then have "set (f x) \<inter> (\<Union>z \<in> set xs. set (f z)) = {}" by blast
  moreover have "distinct (concat (map f xs))"
    by (rule Cons.IH) (use Cons.prems in auto)
  ultimately show ?case using Cons.prems(2) [of x] by simp
qed simp

lemma pin_coordinates_distinct:
  assumes "pin_ok pin" shows "distinct (pin_coordinates m panel pin)"
  unfolding pin_coordinates_def pin_case_ids_eq
proof (rule distinct_concat_by [where key = id and proj = "fst \<circ> snd"])
  fix c
  show "distinct (concat (map (\<lambda>v. map (\<lambda>r. (tp_task_key pin, c, v, r)) [0..m_max_repetitions m - 1])
      [tp_verifier_baseline_version pin, tp_verifier_candidate_version pin]))"
    by (rule distinct_concat_by [where key = id and proj = "fst \<circ> snd \<circ> snd"])
      (use assms in \<open>auto simp: pin_ok_def distinct_map inj_on_def\<close>)
qed (use assms in \<open>auto simp: pin_ok_def\<close>)

lemma coordinates_distinct:
  assumes "pins_ok (m_task_pins m)" shows "distinct (coordinates m panel)"
  unfolding coordinates_def using assms
  by (intro distinct_concat_by [where key = tp_task_key and proj = fst])
    (auto simp: pins_ok_def list_all_iff pin_coordinates_distinct set_pin_coordinates)

text \<open>What of a pin the expansion reads, with its cases as a bag.\<close>

definition pin_content :: "TaskPin \<Rightarrow> string \<times> string \<times> string \<times> string multiset" where
  "pin_content pin = (tp_task_key pin, tp_verifier_baseline_version pin,
     tp_verifier_candidate_version pin, mset (tp_case_ids pin))"

lemma mset_concat_map: "mset (concat (map f xs)) = (\<Sum>x \<in># mset xs. mset (f x))"
  by (induction xs) simp_all

lemma mset_pin_coordinates:
  assumes "pin_content pin = pin_content pin'" and "m_max_repetitions m = m_max_repetitions m'"
  shows "mset (pin_coordinates m panel pin) = mset (pin_coordinates m' panel pin')"
  using assms by (simp add: pin_content_def pin_coordinates_def pin_case_ids_eq mset_concat_map)

lemma mset_coordinates:
  assumes "mset (map pin_content (m_task_pins m)) = mset (map pin_content (m_task_pins m'))"
    and "m_max_repetitions m = m_max_repetitions m'"
  shows "mset (coordinates m panel) = mset (coordinates m' panel)"
proof -
  define g where "g k = mset (pin_coordinates m panel (SOME pin. pin_content pin = k))" for k
  have g: "mset (pin_coordinates n panel pin) = g (pin_content pin)" if "n \<in> {m, m'}" for n pin
    unfolding g_def using that assms(2)
    by (auto intro!: mset_pin_coordinates simp: someI [where P = "\<lambda>p. pin_content p = pin_content pin"])
  have "mset (coordinates n panel) = (\<Sum>k \<in># mset (map pin_content (m_task_pins n)). g k)"
    if "n \<in> {m, m'}" for n
    using g [OF that] by (simp add: coordinates_def mset_concat_map image_mset.compositionality comp_def)
  with assms(1) show ?thesis by simp
qed

text \<open>
  The expansion does not depend on the order in which the manifest lists its pins, nor on
  the order in which a pin lists its cases: the planned jobs are the same, in the same order,
  and so is their digest.
\<close>

lemma expansion_ignores_pin_order:
  assumes "mset (map pin_content (m_task_pins m)) = mset (map pin_content (m_task_pins m'))"
    and "m_max_repetitions m = m_max_repetitions m'" and "m_run_id m = m_run_id m'"
  shows "expand H fr m panel = expand H fr m' panel"
proof -
  let ?jobs = "\<lambda>m. map (coord_job H (m_run_id m)) (coordinates m panel)"
  have "mset (?jobs m) = mset (?jobs m')"
    using mset_coordinates [OF assms(1,2)] assms(3) by simp
  moreover have "inj_on job_order (set (?jobs m))" by (auto intro!: inj_onI)
  ultimately show ?thesis by (simp add: expand_eq sort_key_perm_eq)
qed

section \<open>The manifest\<close>

definition pin_json :: "TaskPin \<Rightarrow> (string \<times> json) list" where
  "pin_json p = [
     (''task_key'', J_str (tp_task_key p)),
     (''task_version'', J_str (tp_task_version p)),
     (''contract_hash'', J_str (tp_contract_hash p)),
     (''repository_snapshot_digest'', J_str (tp_repository_snapshot_digest p)),
     (''environment_id'', J_str (tp_environment_id p)),
     (''environment_image_digest'', opt_json J_str (tp_environment_image_digest p)),
     (''verifier_baseline_version'', J_str (tp_verifier_baseline_version p)),
     (''verifier_candidate_version'', J_str (tp_verifier_candidate_version p)),
     (''baseline_manifest_hash'', J_str (tp_baseline_manifest_hash p)),
     (''candidate_manifest_hash'', J_str (tp_candidate_manifest_hash p)),
     (''case_ids'', J_arr (map J_str (tp_case_ids p)))]"

lemma pin_repr: "canonical_repr (pin_payload p) = Inr (J_obj (pin_json p))"
  by (simp add: pin_payload_def pin_json_def opt_repr map_str_ok)

lemma pins_repr: "canonical_seq (map pin_payload ps) = Inr (map (\<lambda>p. J_obj (pin_json p)) ps)"
  by (induction ps) (simp_all add: pin_repr)

definition manifest_json :: "AuditManifest \<Rightarrow> (string \<times> json) list" where
  "manifest_json m = [
     (''run_id'', J_str (m_run_id m)),
     (''benchmark_version'', J_str (m_benchmark_version m)),
     (''task_pins'', J_arr (map (\<lambda>p. J_obj (pin_json p)) (m_task_pins m))),
     (''panel_key'', J_str (m_panel_key m)),
     (''adjudication_version'', J_str (m_adjudication_version m)),
     (''evaluation_harness_version'', J_str (m_evaluation_harness_version m)),
     (''config_hash'', J_str (m_config_hash m)),
     (''policy_hash'', J_str (m_policy_hash m)),
     (''analysis_plan_hash'', opt_json J_str (m_analysis_plan_hash m)),
     (''timestamp'', J_str (isoformat (m_timestamp m))),
     (''host_fingerprint'', J_str (m_host_fingerprint m)),
     (''seed'', opt_json J_int (m_seed m)),
     (''agent_version'', opt_json J_str (m_agent_version m)),
     (''model_identifier'', opt_json J_str (m_model_identifier m)),
     (''max_repetitions'', J_int (m_max_repetitions m)),
     (''max_attempts_per_job'', J_int (m_max_attempts_per_job m)),
     (''timeout_seconds'', J_int (m_timeout_seconds m)),
     (''resource_policy'', J_str (m_resource_policy m)),
     (''expansion_digest'', J_str (m_expansion_digest m)),
     (''parent_run_id'', opt_json J_str (m_parent_run_id m))]"

lemma manifest_repr: "canonical_repr (manifest_payload m) = Inr (J_obj (manifest_json m))"
  by (simp add: manifest_payload_def manifest_json_def opt_repr pins_repr)

lemma manifest_bytes:
  "canonical_bytes fr (manifest_payload m) = Inr (render fr (sorted_keys (J_obj (manifest_json m))))"
  by (simp add: canonical_bytes_def manifest_repr)

lemma build_manifest_cases:
  assumes pins_def: "pins = (if ba_task_pins args = [] then ba_pins args else ba_task_pins args)"
    and temp_def: "temp = temp_manifest H uuid now args pins"
    and jobs_def: "Inr jobs = expand H fr temp (ba_panel args)"
  shows "build_manifest H fr uuid now args =
    (if pins = [] then Inl (make_error ValidationError (Some (ec_value EC_VALIDATION_ERROR)))
     else if over_ceiling (ba_options args) jobs
     then Inl (make_error ValidationError (Some (ec_value EC_RESOURCE_EXHAUSTED)))
     else let m = temp\<lparr>m_expansion_digest := compute_expansion_digest H (map A_job jobs)\<rparr> in
       Inr (m\<lparr>m_manifest_hash := H (render fr (sorted_keys (J_obj (manifest_json m))))\<rparr>))"
  unfolding build_manifest_def pins_def [symmetric] temp_def [symmetric] Let_def jobs_def [symmetric]
  by (simp add: manifest_bytes)

lemma expand_cong:
  "m_run_id m = m_run_id m' \<Longrightarrow> m_task_pins m = m_task_pins m' \<Longrightarrow> m_max_repetitions m = m_max_repetitions m'
    \<Longrightarrow> expand H fr m panel = expand H fr m' panel"
  by (simp add: expand_eq coordinates_def pin_coordinates_def [abs_def])

lemma manifest_json_update [simp]: "manifest_json (m\<lparr>m_manifest_hash := h\<rparr>) = manifest_json m"
  by (simp add: manifest_json_def)

lemma build_manifest_InrD:
  assumes "build_manifest H fr uuid now args = Inr m"
  shows "canonical_bytes fr (manifest_payload m) = Inr (render fr (sorted_keys (J_obj (manifest_json m))))"
    and "m_manifest_hash m = H (render fr (sorted_keys (J_obj (manifest_json m))))"
  using assms
  by (auto simp: build_manifest_def manifest_bytes Let_def bind_res_Inr_iff expand_eq split: if_splits)

text \<open>
  A manifest is refused exactly when it pins no task or when its expansion exceeds a
  non-zero ceiling \<open>max_jobs\<close>. The manifest that is built expands to the very jobs its expansion
  digest was computed from, and its hash is the hash of its canonical content.
\<close>

lemma manifest_commits_to_its_expansion:
  "case build_manifest H fr uuid now args of
     Inl e \<Rightarrow> (ba_task_pins args = [] \<and> ba_pins args = []
        \<and> e = make_error ValidationError (Some (ec_value EC_VALIDATION_ERROR)))
      \<or> (\<exists>opts jobs m. ba_options args = Some opts \<and> expand H fr m (ba_panel args) = Inr jobs
        \<and> 0 \<noteq> o_max_jobs opts \<and> o_max_jobs opts < int (length jobs)
        \<and> m_task_pins m = (if ba_task_pins args = [] then ba_pins args else ba_task_pins args)
        \<and> m_max_repetitions m = o_repetitions opts
        \<and> e = make_error ValidationError (Some (ec_value EC_RESOURCE_EXHAUSTED)))
   | Inr m \<Rightarrow> m_task_pins m \<noteq> []
      \<and> m_task_pins m = (if ba_task_pins args = [] then ba_pins args else ba_task_pins args)
      \<and> (\<exists>jobs b. expand H fr m (ba_panel args) = Inr jobs \<and> \<not> over_ceiling (ba_options args) jobs
          \<and> m_expansion_digest m = compute_expansion_digest H (map A_job jobs)
          \<and> canonical_bytes fr (manifest_payload m) = Inr b \<and> m_manifest_hash m = H b)"
proof -
  define pins where "pins = (if ba_task_pins args = [] then ba_pins args else ba_task_pins args)"
  define temp where "temp = temp_manifest H uuid now args pins"
  obtain jobs where jobs: "expand H fr temp (ba_panel args) = Inr jobs" by (simp add: expand_eq)
  define m where "m = temp\<lparr>m_expansion_digest := compute_expansion_digest H (map A_job jobs)\<rparr>"
  define b where "b = render fr (sorted_keys (J_obj (manifest_json m)))"
  note build = build_manifest_cases [OF pins_def temp_def jobs [symmetric]]
  have temp: "m_task_pins temp = pins" "m_max_repetitions temp = (case ba_options args of
      None \<Rightarrow> or_int (ba_repetitions args) 3 | Some opts \<Rightarrow> o_repetitions opts)"
    by (simp_all add: temp_def temp_manifest_def)
  consider "pins = []" | "pins \<noteq> []" "over_ceiling (ba_options args) jobs"
    | "pins \<noteq> []" "\<not> over_ceiling (ba_options args) jobs" by blast
  then show ?thesis
  proof cases
    case 1
    then show ?thesis unfolding build by (simp add: pins_def split: if_splits)
  next
    case 2
    from 2(2) obtain opts where "ba_options args = Some opts" "o_max_jobs opts \<noteq> 0"
      "o_max_jobs opts < int (length jobs)" by (auto simp: over_ceiling_def split: option.splits)
    with 2 jobs temp show ?thesis unfolding build pins_def [symmetric] by auto
  next
    case 3
    have "expand H fr (m\<lparr>m_manifest_hash := H b\<rparr>) (ba_panel args) = Inr jobs"
      unfolding jobs [symmetric] by (rule expand_cong) (simp_all add: m_def)
    moreover have "build_manifest H fr uuid now args = Inr (m\<lparr>m_manifest_hash := H b\<rparr>)"
      unfolding build using 3 by (simp add: m_def b_def Let_def)
    moreover have "canonical_bytes fr (manifest_payload (m\<lparr>m_manifest_hash := H b\<rparr>)) = Inr b"
      by (simp add: manifest_bytes b_def)
    ultimately show ?thesis
      using 3 temp(1) unfolding pins_def [symmetric] by (simp add: m_def)
  qed
qed

section \<open>What the manifest hash binds\<close>

lemma pin_json_inj:
  assumes "sorted_keys (J_obj (pin_json p)) = sorted_keys (J_obj (pin_json q))" shows "p = q"
proof -
  have "sorted_items (pin_json p) = sorted_items (pin_json q)"
    by (rule sorted_obj_eqD [OF assms]) (simp_all add: pin_json_def)
  then show ?thesis
    by (intro TaskPin.equality) (simp_all add: pin_json_def)
qed

lemma pins_json_inj:
  "sorted_seq (map (\<lambda>p. J_obj (pin_json p)) ps) = sorted_seq (map (\<lambda>p. J_obj (pin_json p)) qs) \<Longrightarrow> ps = qs"
proof (induction ps arbitrary: qs)
  case Nil
  then show ?case by (cases qs) auto
next
  case (Cons p ps)
  then obtain q qs' where qs: "qs = q # qs'" by (cases qs) auto
  from Cons.prems have "sorted_keys (J_obj (pin_json p)) = sorted_keys (J_obj (pin_json q))"
    and tl: "sorted_seq (map (\<lambda>p. J_obj (pin_json p)) ps) = sorted_seq (map (\<lambda>p. J_obj (pin_json p)) qs')"
    by (simp_all add: qs)
  with pin_json_inj [OF this(1)] Cons.IH [OF tl] show ?case by (simp add: qs)
qed

lemma manifest_json_inj:
  assumes "sorted_keys (J_obj (manifest_json m)) = sorted_keys (J_obj (manifest_json m'))"
    and "m_manifest_hash m = m_manifest_hash m'"
  shows "m\<lparr>m_timestamp := 0\<rparr> = m'\<lparr>m_timestamp := 0\<rparr>
    \<and> isoformat (m_timestamp m) = isoformat (m_timestamp m')"
proof -
  have items: "sorted_items (manifest_json m) = sorted_items (manifest_json m')"
    by (rule sorted_obj_eqD [OF assms(1)]) (simp_all add: manifest_json_def)
  then have "m_task_pins m = m_task_pins m'"
    by (intro pins_json_inj) (simp add: manifest_json_def)
  with items assms(2) show ?thesis
    by (intro conjI AuditManifest.equality) (simp_all add: manifest_json_def)
qed

text \<open>
  C19. The manifest hash binds the manifest: when the hash does not collide on the two canonical
  texts, two built manifests with the same hash agree on every field, the pins and their order
  included; of the timestamp they agree on its ISO text.
\<close>

theorem manifest_hash_binds_content:
  assumes "float_text fr"
    and "no_collision H fr (manifest_payload m) (manifest_payload m')"
    and "build_manifest H fr uuid now args = Inr m" and "build_manifest H fr uuid' now' args' = Inr m'"
    and "m_manifest_hash m = m_manifest_hash m'"
  shows "m\<lparr>m_timestamp := 0\<rparr> = m'\<lparr>m_timestamp := 0\<rparr>
    \<and> isoformat (m_timestamp m) = isoformat (m_timestamp m')"
proof -
  note b = build_manifest_InrD [OF assms(3)] and b' = build_manifest_InrD [OF assms(4)]
  from assms(5) b(2) b'(2) have "H (render fr (sorted_keys (J_obj (manifest_json m))))
      = H (render fr (sorted_keys (J_obj (manifest_json m'))))" by (simp only:)
  with assms(2) b(1) b'(1) have "canonical_bytes fr (manifest_payload m) = canonical_bytes fr (manifest_payload m')"
    unfolding no_collision_def by metis
  from canonical_bytes_inj [OF assms(1) manifest_repr manifest_repr this]
  show ?thesis by (rule manifest_json_inj [OF _ assms(5)])
qed

section \<open>A small audit\<close>

definition ex_pin :: "string \<Rightarrow> string \<Rightarrow> TaskPin" where
  "ex_pin task candidate = \<lparr>tp_task_key = task, tp_task_version = ''1'', tp_contract_hash = ''c'',
     tp_repository_snapshot_digest = ''s'', tp_environment_id = ''e'',
     tp_environment_image_digest = None, tp_verifier_baseline_version = ''v1'',
     tp_verifier_candidate_version = candidate, tp_baseline_manifest_hash = ''b'',
     tp_candidate_manifest_hash = ''k'', tp_case_ids = [''p'', ''q'']\<rparr>"

definition ex_args :: "string \<Rightarrow> TaskPin list \<Rightarrow> manifest_args" where
  "ex_args run pins = \<lparr>ba_options = None, ba_pins = pins, ba_panel = None, ba_run_id = Some run,
     ba_task_pins = [], ba_panel_key = None, ba_adjudication_version = None,
     ba_policy_hash = None, ba_repetitions = Some 2, ba_benchmark_version = ''local-1.0.0'',
     ba_timeout_seconds = 120, ba_max_attempts = 3, ba_resource_policy = None, ba_seed = None\<rparr>"

definition ex_audit :: "TaskPin list \<Rightarrow> AuditManifest" where
  "ex_audit pins = temp_manifest id ''u'' 0 (ex_args ''run'' pins) pins"

lemma ex_audit_simps [simp]:
  "m_task_pins (ex_audit pins) = pins" "m_max_repetitions (ex_audit pins) = 2"
  "m_run_id (ex_audit pins) = ''run''"
  by (simp_all add: ex_audit_def temp_manifest_def ex_args_def or_str_def or_int_def)

lemma job_ids_identify_coordinates_witness:
  "\<exists>jobs. expand id ex_float_text (ex_audit [ex_pin ''t'' ''v1'']) None = Inr jobs
     \<and> \<not> distinct (map j_job_id jobs)"
proof -
  let ?m = "ex_audit [ex_pin ''t'' ''v1'']"
  obtain jobs where jobs: "expand id ex_float_text ?m None = Inr jobs" by (simp add: expand_eq)
  have "\<not> distinct (coordinates ?m None)"
    by (simp add: coordinates_def pin_coordinates_def pin_case_ids_def ex_pin_def)
  with job_ids_identify_coordinates [OF _ jobs] jobs show ?thesis by auto
qed

lemma expansion_ignores_pin_order_witness:
  "expand id ex_float_text (ex_audit [ex_pin ''t'' ''v2'', ex_pin ''s'' ''v2'']) None
     = expand id ex_float_text (ex_audit [ex_pin ''s'' ''v2'', ex_pin ''t'' ''v2'']) None"
  by (rule expansion_ignores_pin_order) (simp_all add: add_mset_commute)

lemma build_manifest_ok:
  assumes "pins \<noteq> []"
  obtains m where "build_manifest H fr uuid now (ex_args run pins) = Inr m"
    and "m_run_id m = or_str (Some run) uuid"
proof -
  let ?temp = "temp_manifest H uuid now (ex_args run pins) pins"
  obtain jobs where jobs: "expand H fr ?temp (ba_panel (ex_args run pins)) = Inr jobs"
    by (simp add: expand_eq)
  from build_manifest_cases [OF refl refl, of jobs H fr uuid now "ex_args run pins"] jobs assms that
  show thesis by (auto simp: ex_args_def over_ceiling_def Let_def temp_manifest_def)
qed

theorem manifest_hash_binds_content_witness:
  "\<exists>m m'. build_manifest id ex_float_text ''u'' 0 (ex_args ''run'' [ex_pin ''t'' ''v2'']) = Inr m
     \<and> build_manifest id ex_float_text ''u'' 0 (ex_args ''rerun'' [ex_pin ''t'' ''v2'']) = Inr m'
     \<and> m_manifest_hash m \<noteq> m_manifest_hash m'"
proof -
  obtain m where m: "build_manifest id ex_float_text ''u'' 0 (ex_args ''run'' [ex_pin ''t'' ''v2'']) = Inr m"
    "m_run_id m = ''run''"
    by (rule build_manifest_ok [where H = id and fr = ex_float_text and uuid = "''u''" and now = 0
        and run = "''run''" and pins = "[ex_pin ''t'' ''v2'']"]) (simp_all add: or_str_def)
  obtain m' where m': "build_manifest id ex_float_text ''u'' 0 (ex_args ''rerun'' [ex_pin ''t'' ''v2'']) = Inr m'"
    "m_run_id m' = ''rerun''"
    by (rule build_manifest_ok [where H = id and fr = ex_float_text and uuid = "''u''" and now = 0
        and run = "''rerun''" and pins = "[ex_pin ''t'' ''v2'']"]) (simp_all add: or_str_def)
  have "m_manifest_hash m \<noteq> m_manifest_hash m'"
  proof
    assume "m_manifest_hash m = m_manifest_hash m'"
    from manifest_hash_binds_content [OF ex_float_text no_collision_inj m(1) m'(1) this]
    have "m\<lparr>m_timestamp := 0\<rparr> = m'\<lparr>m_timestamp := 0\<rparr>" by simp
    then have "m_run_id m = m_run_id m'" by (cases m; cases m') simp
    with m(2) m'(2) show False by simp
  qed
  with m(1) m'(1) show ?thesis by blast
qed

end
