(* ===== verification/Panel.thy ===== *)
theory Panel
  imports Canonical_Json
begin

text \<open>
  Panels of patch cases: \<open>src/src/verifierci/models/panel.py\<close>. The membership digest, the
  validation of an adjudication against its case and contract, and the detection of lineage
  cycles by depth-first search. Python iterates over the set of case identifiers in an order of
  its own, which is the argument \<open>order\<close>; its recursion limit is not modelled.
\<close>

section \<open>validate\_membership and panel\_digest\<close>

definition validate_membership :: "PatchCase \<Rightarrow> Adjudication \<Rightarrow> Contract \<Rightarrow> unit res" where
  "validate_membership pcase review contract =
    (if ad_case_id review \<noteq> pc_case_id pcase then Inl (make_error ValidationError None)
     else if ad_contract_hash review \<noteq> ct_contract_hash contract
     then Inl (make_error ValidationError None)
     else if ad_review_status review = RS_disputed \<and> ad_label review \<noteq> L_unresolved
     then Inl (make_error ValidationError None)
     else Inr ())"

definition member_payload :: "PatchPanelMembership \<Rightarrow> pyval" where
  "member_payload m = V_mapping [
     (''panel_key'', V_str (pm_panel_key m)),
     (''case_id'', V_str (pm_case_id m)),
     (''adjudication_id'', V_str (pm_adjudication_id m)),
     (''ordinal'', V_int (pm_ordinal m)),
     (''expected_control_outcomes'', V_mapping
        (map (\<lambda>(k, v). (k, V_str v)) (sorted_list_of_fmap (pm_expected_control_outcomes m))))]"

definition panel_digest ::
    "(string \<Rightarrow> string) \<Rightarrow> (pyfloat \<Rightarrow> string) \<Rightarrow> PatchPanelMembership list \<Rightarrow> string res" where
  "panel_digest H fr members =
    bind_res (canonical_bytes fr (V_seq (map member_payload (sort_key pm_case_id members))))
      (\<lambda>b. Inr (H b))"

section \<open>validate\_lineage\<close>

datatype mark = Visiting | Visited

definition set_mark :: "(string \<Rightarrow> mark option) \<Rightarrow> string \<Rightarrow> mark \<Rightarrow> string \<Rightarrow> mark option" where
  "set_mark visited node m = visited(node \<mapsto> m)"

lemma dom_set_mark [simp]: "dom (set_mark visited p m) = insert p (dom visited)"
  by (simp add: set_mark_def)

text \<open>\<open>graph.get(node, [])\<close>: of two cases with one identifier the later one counts.\<close>

definition parents_of :: "PatchCase list \<Rightarrow> string \<Rightarrow> string list" where
  "parents_of cases node =
    (case map_of (rev (map (\<lambda>c. (pc_case_id c, pc_parent_case_ids c)) cases)) node of
       None \<Rightarrow> [] | Some ps \<Rightarrow> ps)"

text \<open>
  The loop of \<open>dfs\<close> over the parents that remain, with the recursive call for an unvisited
  parent written out: it marks the parent, loops over the parent's own parents and marks it as
  done. A cycle ends the search with the path that closes it.
\<close>

function dfs_parents ::
    "PatchCase list \<Rightarrow> (string \<Rightarrow> mark option) \<Rightarrow> string list \<Rightarrow> string list
     \<Rightarrow> string list + (string \<Rightarrow> mark option)" where
  "dfs_parents cases visited path [] = Inr visited"
| "dfs_parents cases visited path (p # ps) =
    (if p \<notin> set (map pc_case_id cases) then dfs_parents cases visited path ps
     else case visited p of
       Some Visiting \<Rightarrow> Inl (path @ [p])
     | Some Visited \<Rightarrow> dfs_parents cases visited path ps
     | None \<Rightarrow> (case dfs_parents cases (set_mark visited p Visiting) (path @ [p]) (parents_of cases p) of
         Inl cycle \<Rightarrow> Inl cycle
       | Inr visited' \<Rightarrow> dfs_parents cases (set_mark visited' p Visited) path ps))"
  by pat_completeness auto

lemma dfs_parents_grows:
  "dfs_parents_dom (cases, visited, path, ps) \<Longrightarrow> dfs_parents cases visited path ps = Inr visited'
    \<Longrightarrow> dom visited \<subseteq> dom visited'"
proof (induction cases visited path ps arbitrary: visited' rule: dfs_parents.pinduct)
  case (1 cases visited path)
  then show ?case by (simp add: dfs_parents.psimps)
next
  case (2 cases visited path p ps)
  show ?case
  proof (cases "p \<notin> set (map pc_case_id cases)")
    case True
    with 2 show ?thesis by (simp add: dfs_parents.psimps)
  next
    case False
    note IH = 2(2) 2(3) [OF False] 2(4) [OF False] 2(5) [OF False]
    from 2(6) 2(1) False IH show ?thesis
      by (fastforce simp: dfs_parents.psimps split: option.splits mark.splits sum.splits)
  qed
qed

termination dfs_parents
proof (relation "inv_image (finite_psubset <*lex*> less_than)
    (\<lambda>(cases, visited, path, ps). (set (map pc_case_id cases) - dom visited, length ps))", goal_cases)
  case 1
  show ?case by (intro wf_inv_image wf_lex_prod wf_finite_psubset wf_less_than)
next
  case (4 cases visited path p ps visited')
  then have "dom (set_mark visited p Visiting) \<subseteq> dom visited'" by (intro dfs_parents_grows)
  with 4 have "set (map pc_case_id cases) - dom (set_mark visited' p Visited) \<subset>
      set (map pc_case_id cases) - dom visited"
    by auto
  then show ?case by (simp add: finite_psubset_def)
qed (auto simp: finite_psubset_def)

text \<open>\<open>dfs(node, path)\<close>\<close>

definition dfs ::
    "PatchCase list \<Rightarrow> (string \<Rightarrow> mark option) \<Rightarrow> string \<Rightarrow> string list
     \<Rightarrow> string list + (string \<Rightarrow> mark option)" where
  "dfs cases visited node path =
    bind_res (dfs_parents cases (set_mark visited node Visiting) path (parents_of cases node))
      (\<lambda>visited'. Inr (set_mark visited' node Visited))"

lemma dfs_parents_calls_dfs:
  assumes "p \<in> set (map pc_case_id cases)" and "visited p = None"
  shows "dfs_parents cases visited path (p # ps) =
    bind_res (dfs cases visited p (path @ [p])) (\<lambda>visited'. dfs_parents cases visited' path ps)"
  using assms by (simp add: dfs_def bind_res_def split: sum.split)

fun dfs_roots ::
    "PatchCase list \<Rightarrow> (string \<Rightarrow> mark option) \<Rightarrow> string list
     \<Rightarrow> string list + (string \<Rightarrow> mark option)" where
  "dfs_roots cases visited [] = Inr visited"
| "dfs_roots cases visited (cid # cids) =
    (if visited cid \<noteq> None then dfs_roots cases visited cids
     else bind_res (dfs cases visited cid [cid]) (\<lambda>visited'. dfs_roots cases visited' cids))"

text \<open>The cycle found, if any, before it is wrapped in a \<open>ValidationError\<close>.\<close>

definition lineage_cycle :: "(string list \<Rightarrow> string list) \<Rightarrow> PatchCase list \<Rightarrow> string list option" where
  "lineage_cycle order cases =
    (case dfs_roots cases (\<lambda>_. None) (order (remdups (map pc_case_id cases))) of
       Inl cycle \<Rightarrow> Some cycle | Inr _ \<Rightarrow> None)"

definition validate_lineage :: "(string list \<Rightarrow> string list) \<Rightarrow> PatchCase list \<Rightarrow> unit res" where
  "validate_lineage order cases = (case lineage_cycle order cases of
     Some cycle \<Rightarrow> Inl (make_error ValidationError None) | None \<Rightarrow> Inr ())"

section \<open>The search finds the cycles\<close>

text \<open>The derivation links between the given cases.\<close>

definition lineage :: "PatchCase list \<Rightarrow> (string \<times> string) set" where
  "lineage cases = {(c, p). c \<in> set (map pc_case_id cases) \<and> p \<in> set (parents_of cases c)
     \<and> p \<in> set (map pc_case_id cases)}"

definition done_set :: "(string \<Rightarrow> mark option) \<Rightarrow> string set" where
  "done_set visited = {x. visited x = Some Visited}"

definition open_set :: "(string \<Rightarrow> mark option) \<Rightarrow> string set" where
  "open_set visited = {x. visited x = Some Visiting}"

lemma mark_sets [simp]:
  "done_set (set_mark visited p Visited) = insert p (done_set visited)"
  "open_set (set_mark visited p Visited) = open_set visited - {p}"
  "done_set (set_mark visited p Visiting) = done_set visited - {p}"
  "open_set (set_mark visited p Visiting) = insert p (open_set visited)"
  by (auto simp: done_set_def open_set_def set_mark_def)

text \<open>The nodes done so far: closed under derivation and free of cycles.\<close>

definition settled :: "PatchCase list \<Rightarrow> (string \<Rightarrow> mark option) \<Rightarrow> bool" where
  "settled cases visited \<longleftrightarrow> lineage cases `` done_set visited \<subseteq> done_set visited
     \<and> acyclic (lineage cases \<inter> done_set visited \<times> UNIV)"

lemma settled_open: "visited p = None \<Longrightarrow> settled cases (set_mark visited p Visiting) = settled cases visited"
  by (simp add: settled_def) (simp add: done_set_def)

lemma acyclic_insert_source:
  assumes "acyclic (R \<inter> D \<times> UNIV)" and "R `` D \<subseteq> D" and "R `` {p} \<subseteq> D" and "p \<notin> D"
  shows "acyclic (R \<inter> insert p D \<times> UNIV)"
proof (rule acyclicI, intro allI notI)
  let ?S = "R \<inter> insert p D \<times> UNIV"
  have into: "y \<in> D" if "(x, y) \<in> ?S\<^sup>+" for x y
    using that by (induction rule: trancl_induct) (use assms(2,3) in auto)
  have restrict: "(x, y) \<in> (R \<inter> D \<times> UNIV)\<^sup>+" if "(x, y) \<in> ?S\<^sup>+" "x \<in> D" for x y
    using that
  proof (induction rule: trancl_induct)
    case (base y)
    then show ?case by (auto intro: r_into_trancl)
  next
    case (step y z)
    with into [OF step.hyps(1)] show ?case by (auto intro: trancl_into_trancl)
  qed
  fix x assume "(x, x) \<in> ?S\<^sup>+"
  with restrict [OF this] into [OF this] assms(1) show False by (auto simp: acyclic_def)
qed

lemma settled_close:
  assumes "settled cases visited" and "lineage cases `` {p} \<subseteq> done_set visited" and "p \<notin> done_set visited"
  shows "settled cases (set_mark visited p Visited)"
  using assms acyclic_insert_source [of "lineage cases" "done_set visited" p]
  by (auto simp: settled_def)

text \<open>A successful search settles what it was asked for and leaves the open nodes alone.\<close>

lemma dfs_parents_sound:
  assumes "dfs_parents cases visited path ps = Inr visited'" and "settled cases visited"
  shows "settled cases visited' \<and> open_set visited' = open_set visited
    \<and> done_set visited \<subseteq> done_set visited' \<and> set ps \<inter> set (map pc_case_id cases) \<subseteq> done_set visited'"
  using assms
proof (induction cases visited path ps arbitrary: visited' rule: dfs_parents.induct)
  case (2 cases visited path p ps)
  show ?case
  proof (cases "p \<in> set (map pc_case_id cases)")
    case False
    with 2 show ?thesis by auto
  next
    case True
    show ?thesis
    proof (cases "visited p")
      case None
      let ?v = "set_mark visited p Visiting"
      from 2(5) True None obtain v where
        v: "dfs_parents cases ?v (path @ [p]) (parents_of cases p) = Inr v"
        and rest: "dfs_parents cases (set_mark v p Visited) path ps = Inr visited'"
        by (auto split: sum.splits)
      have p: "p \<notin> done_set visited" "p \<notin> open_set visited"
        using None by (simp_all add: done_set_def open_set_def)
      from 2(2) [of v] True None v 2(6) settled_open [of visited p cases, OF None]
      have v_ok: "settled cases v" "open_set v = insert p (open_set visited)"
        "done_set visited \<subseteq> done_set v" "set (parents_of cases p) \<inter> set (map pc_case_id cases) \<subseteq> done_set v"
        using p by auto
      have "p \<in> open_set v" using v_ok(2) by simp
      then have "p \<notin> done_set v" by (simp add: done_set_def open_set_def)
      moreover have "lineage cases `` {p} \<subseteq> done_set v" using v_ok(4) by (auto simp: lineage_def)
      ultimately have "settled cases (set_mark v p Visited)" using v_ok(1) by (intro settled_close)
      from 2(3) [of v visited'] True None v rest this
      have "settled cases visited' \<and> open_set visited' = open_set (set_mark v p Visited)
        \<and> done_set (set_mark v p Visited) \<subseteq> done_set visited'
        \<and> set ps \<inter> set (map pc_case_id cases) \<subseteq> done_set visited'" by auto
      with v_ok p show ?thesis by auto
    next
      case (Some m)
      with 2 True show ?thesis
        by (cases m) (auto simp: done_set_def)
    qed
  qed
qed simp

text \<open>A failed search answers a walk along derivation links that returns to one of its nodes.\<close>

definition closed_walk :: "(string \<times> string) set \<Rightarrow> string list \<Rightarrow> bool" where
  "closed_walk E cycle \<longleftrightarrow> (\<exists>walk x. cycle = walk @ [x] \<and> x \<in> set walk \<and> successively (\<lambda>a b. (a, b) \<in> E) cycle)"

lemma successively_snoc:
  "successively P (xs @ [x]) \<longleftrightarrow> successively P xs \<and> (xs \<noteq> [] \<longrightarrow> P (last xs) x)"
  by (induction xs rule: induct_list012) auto

lemma dfs_parents_cycle:
  assumes "dfs_parents cases visited path ps = Inl cycle"
    and "open_set visited = set path" and "path \<noteq> []"
    and "successively (\<lambda>a b. (a, b) \<in> lineage cases) path"
    and "\<forall>q \<in> set ps. q \<in> set (map pc_case_id cases) \<longrightarrow> (last path, q) \<in> lineage cases"
    and "settled cases visited"
  shows "closed_walk (lineage cases) cycle"
  using assms
proof (induction cases visited path ps rule: dfs_parents.induct)
  case (2 cases visited path p ps)
  show ?case
  proof (cases "p \<in> set (map pc_case_id cases)")
    case False
    with 2 show ?thesis by auto
  next
    case True
    then have walk: "successively (\<lambda>a b. (a, b) \<in> lineage cases) (path @ [p])"
      using 2(7-9) by (simp add: successively_snoc)
    show ?thesis
    proof (cases "visited p")
      case None
      let ?v = "set_mark visited p Visiting"
      have links: "\<forall>q \<in> set (parents_of cases p). q \<in> set (map pc_case_id cases) \<longrightarrow> (p, q) \<in> lineage cases"
        using True by (simp add: lineage_def)
      show ?thesis
      proof (cases "dfs_parents cases ?v (path @ [p]) (parents_of cases p)")
        case (Inl c)
        with 2(5) True None have "c = cycle" by simp
        with 2(2) True None Inl walk links 2(6,10) settled_open [of visited p cases, OF None] show ?thesis
          by auto
      next
        case (Inr v)
        from dfs_parents_sound [OF Inr] 2(10) settled_open [of visited p cases, OF None]
        have v: "settled cases v" "open_set v = insert p (open_set visited)"
          "set (parents_of cases p) \<inter> set (map pc_case_id cases) \<subseteq> done_set v" by auto
        have "p \<in> open_set v" using v(2) by simp
        then have p: "p \<notin> open_set visited" "p \<notin> done_set v"
          using None by (simp_all add: open_set_def done_set_def)
        then have "settled cases (set_mark v p Visited)"
          using v by (intro settled_close) (auto simp: lineage_def)
        moreover have "open_set (set_mark v p Visited) = set path"
          using v(2) p(1) 2(6) by simp
        moreover have "dfs_parents cases (set_mark v p Visited) path ps = Inl cycle"
          using 2(5) True None Inr by simp
        ultimately show ?thesis using 2(3) [OF _ None Inr] True 2(7-9) by auto
      qed
    next
      case (Some m)
      show ?thesis
      proof (cases m)
        case Visiting
        with Some True 2(5,6) walk show ?thesis
          by (auto simp: closed_walk_def open_set_def)
      next
        case Visited
        with Some True 2 show ?thesis by auto
      qed
    qed
  qed
qed simp

lemma dfs_sound:
  assumes "dfs cases visited node (path @ [node]) = Inr visited'" and "settled cases visited"
    and "visited node = None" and "node \<in> set (map pc_case_id cases)"
  shows "settled cases visited' \<and> open_set visited' = open_set visited
    \<and> done_set visited \<subseteq> done_set visited' \<and> node \<in> done_set visited'"
proof -
  from assms(1,3,4) have "dfs_parents cases visited path [node] = Inr visited'"
    by (simp add: dfs_parents_calls_dfs del: dfs_parents.simps(2)) 
  from dfs_parents_sound [OF this assms(2)] assms(4) show ?thesis by auto
qed

lemma dfs_roots_sound:
  assumes "dfs_roots cases visited cids = Inr visited'" and "settled cases visited"
    and "open_set visited = {}" and "set cids \<subseteq> set (map pc_case_id cases)"
  shows "settled cases visited' \<and> set cids \<subseteq> done_set visited' \<and> done_set visited \<subseteq> done_set visited'"
  using assms
proof (induction cids arbitrary: visited)
  case (Cons cid cids)
  show ?case
  proof (cases "visited cid")
    case None
    with Cons.prems(1) obtain v where v: "dfs cases visited cid [cid] = Inr v"
      "dfs_roots cases v cids = Inr visited'" by (auto simp: bind_res_Inr_iff)
    from dfs_sound [of cases visited cid "[]", simplified, OF v(1) Cons.prems(2) None] Cons.prems(3,4) Cons.IH [OF v(2)] show ?thesis by auto
  next
    case (Some m)
    with Cons.prems(3) have "cid \<in> done_set visited"
      by (cases m) (auto simp: done_set_def open_set_def)
    with Some Cons.prems Cons.IH [of visited] show ?thesis by auto
  qed
qed simp

lemma dfs_roots_cycle:
  assumes "dfs_roots cases visited cids = Inl cycle" and "settled cases visited"
    and "open_set visited = {}" and "set cids \<subseteq> set (map pc_case_id cases)"
  shows "closed_walk (lineage cases) cycle"
  using assms
proof (induction cids arbitrary: visited)
  case (Cons cid cids)
  show ?case
  proof (cases "visited cid")
    case None
    show ?thesis
    proof (cases "dfs cases visited cid [cid]")
      case (Inl c)
      with Cons.prems(1) None have
        "dfs_parents cases (set_mark visited cid Visiting) [cid] (parents_of cases cid) = Inl cycle"
        by (auto simp: dfs_def bind_res_def split: sum.splits)
      from dfs_parents_cycle [OF this] Cons.prems(2-4) settled_open [of visited cid cases, OF None]
      show ?thesis by (auto simp: lineage_def)
    next
      case (Inr v)
      with dfs_sound [of cases visited cid "[]", simplified, OF Inr Cons.prems(2) None] Cons None show ?thesis by auto
    qed
  next
    case (Some m)
    with Cons show ?thesis by auto
  qed
qed simp

lemma settled_start: "settled cases (\<lambda>_. None)" "open_set (\<lambda>_. None) = {}"
  by (simp_all add: settled_def done_set_def open_set_def acyclic_def)

lemma closed_walk_not_acyclic:
  assumes "closed_walk E cycle" shows "\<not> acyclic E"
proof
  assume "acyclic E"
  have walk: "(a, b) \<in> E\<^sup>+" if "successively (\<lambda>a b. (a, b) \<in> E) (a # xs @ [b])" for a b xs
    using that
  proof (induction xs arbitrary: a)
    case (Cons y ys)
    then have "(a, y) \<in> E" "(y, b) \<in> E\<^sup>+" by auto
    then show ?case by (rule trancl_into_trancl2)
  qed auto
  from assms obtain p x where "x \<in> set p" "successively (\<lambda>a b. (a, b) \<in> E) (p @ [x])"
    by (auto simp: closed_walk_def)
  then obtain us vs where "successively (\<lambda>a b. (a, b) \<in> E) (us @ x # vs @ [x])"
    by (auto simp: in_set_conv_decomp)
  then have "successively (\<lambda>a b. (a, b) \<in> E) (x # vs @ [x])"
    by (auto simp: successively_append_iff)
  from walk [OF this] \<open>acyclic E\<close> show False by (simp add: acyclic_def)
qed

lemma lineage_cycle_correct:
  assumes "set (order (remdups (map pc_case_id cases))) = set (map pc_case_id cases)"
  shows "case lineage_cycle order cases of
      None \<Rightarrow> acyclic (lineage cases) | Some cycle \<Rightarrow> closed_walk (lineage cases) cycle"
proof (cases "dfs_roots cases (\<lambda>_. None) (order (remdups (map pc_case_id cases)))")
  case (Inl cycle)
  with dfs_roots_cycle [OF Inl settled_start] assms show ?thesis by (simp add: lineage_cycle_def)
next
  case (Inr visited)
  from dfs_roots_sound [OF Inr settled_start] assms
  have "acyclic (lineage cases \<inter> done_set visited \<times> UNIV)"
    and "set (map pc_case_id cases) \<subseteq> done_set visited" by (auto simp: settled_def)
  moreover from this(2) have "lineage cases \<inter> done_set visited \<times> UNIV = lineage cases"
    by (auto simp: lineage_def)
  ultimately show ?thesis using Inr by (simp add: lineage_cycle_def)
qed

section \<open>Properties\<close>

text \<open>
  C20. Lineage validation terminates on every set of cases and accepts exactly the acyclic ones,
  in whatever order Python iterates over the set of identifiers; the path of a refusal is a
  walk along derivation links that returns to a case it has passed.
\<close>

theorem validate_lineage_iff_acyclic:
  assumes "set (order (remdups (map pc_case_id cases))) = set (map pc_case_id cases)"
  shows "validate_lineage order cases =
      (if acyclic (lineage cases) then Inr () else Inl (make_error ValidationError None))
    \<and> (case lineage_cycle order cases of None \<Rightarrow> acyclic (lineage cases)
       | Some cycle \<Rightarrow> closed_walk (lineage cases) cycle)"
  using lineage_cycle_correct [of order cases, OF assms]
  by (auto simp: validate_lineage_def dest: closed_walk_not_acyclic split: option.splits)

definition ex_case :: "string \<Rightarrow> string list \<Rightarrow> PatchCase" where
  "ex_case cid parents = \<lparr>pc_case_id = cid, pc_task_key = ''t'', pc_diff_digest = ''d'',
     pc_base_snapshot_digest = ''s'', pc_source = ''agent'', pc_source_run_id = None,
     pc_parent_case_ids = parents, pc_family_id = ''f'', pc_role = R_challenge,
     pc_provenance_digest = ''p'', pc_licence = ''l'', pc_created_at = 0\<rparr>"

theorem validate_lineage_iff_acyclic_witness:
  "\<not> acyclic (lineage [ex_case ''a'' [''b''], ex_case ''b'' [''c'', ''x''], ex_case ''c'' [''b'']])"
proof -
  let ?cases = "[ex_case ''a'' [''b''], ex_case ''b'' [''c'', ''x''], ex_case ''c'' [''b'']]"
  have "validate_lineage id ?cases \<noteq> Inr ()" by code_simp
  moreover have "set (id (remdups (map pc_case_id ?cases))) = set (map pc_case_id ?cases)"
    by (simp only: id_apply set_remdups)
  ultimately show ?thesis using validate_lineage_iff_acyclic [of id ?cases] by meson
qed

text \<open>
  The digest of a panel does not depend on the order in which its members, with distinct
  cases, are given.
\<close>

lemma panel_digest_ignores_member_order:
  assumes "mset members = mset members'" and "distinct (map pm_case_id members)"
  shows "panel_digest H fr members = panel_digest H fr members'"
  using sort_key_perm_eq [OF assms(1), of pm_case_id] assms(2)
  by (simp add: panel_digest_def distinct_map)

definition ex_member :: "string \<Rightarrow> PatchPanelMembership" where
  "ex_member cid = \<lparr>pm_panel_key = ''p'', pm_case_id = cid, pm_adjudication_id = ''adj'',
     pm_ordinal = 0, pm_expected_control_outcomes = fmempty\<rparr>"

lemma panel_digest_ignores_member_order_witness:
  "panel_digest id ex_float_text [ex_member ''b'', ex_member ''a'']
     = panel_digest id ex_float_text [ex_member ''a'', ex_member ''b'']"
  by (rule panel_digest_ignores_member_order) (simp_all add: ex_member_def add_mset_commute)

end
