(* ===== verification/Registry.thy ===== *)
theory Registry
  imports Canonical_Records
begin

text \<open>
  Content identities of requirements, contracts and verifier manifests, the validation of tasks
  and verifiers, and the resolution of command templates: the functions of
  \<open>src/src/verifierci/models/task.py\<close> and \<open>models/verifier.py\<close> on their dataclass arguments (\<open>Registry_Dicts\<close> has the
  variants that take a plain dictionary). \<open>parse_version\<close> of the package
  \<open>packaging\<close> is a parameter into any linear order.
\<close>

section \<open>Records\<close>

record Requirement =
  rq_requirement_hash :: string
  rq_requirement_id :: string
  rq_text :: string
  rq_source_kind :: string
  rq_evidence_digests :: "string list"
  rq_source_locator :: string
  rq_allowed_variation :: string

text \<open>A \<open>datetime\<close> that may be naive: its UTC offset in microseconds is then missing.\<close>

record any_datetime =
  dt_instant :: datetime
  dt_offset :: "int option"

record Task =
  t_task_key :: string
  t_task_id :: string
  t_version :: string
  t_statement :: string
  t_adapter :: string
  t_contract_hash :: string
  t_snapshot_digest :: string
  t_environment_id :: string
  t_licence :: string
  t_provenance :: string
  t_eligibility :: string
  t_notes :: string
  t_created_at :: any_datetime

record VerifierVersion =
  vv_verifier_key :: string
  vv_verifier_id :: string
  vv_version :: string
  vv_parent_key :: "string option"
  vv_manifest_hash :: string
  vv_payload_digest :: string
  vv_compatible_contract_hashes :: "string list"
  vv_created_at :: datetime

record CommandSpec =
  cs_argv :: "string list"
  cs_cwd :: string
  cs_env :: "(string \<times> string) list"
  cs_stdin_digest :: "string option"
  cs_timeout_seconds :: int

abbreviation invalid :: "'a res" where
  "invalid \<equiv> Inl (make_error ValidationError None)"

text \<open>A sequence of checks: the first that fails raises a \<open>ValidationError\<close>.\<close>

definition require :: "bool list \<Rightarrow> unit res" where
  "require conditions = (if list_all id conditions then Inr () else invalid)"

lemma require_iff [simp]: "require cs = Inr u \<longleftrightarrow> list_all id cs"
  "require cs = Inl e \<longleftrightarrow> \<not> list_all id cs \<and> e = make_error ValidationError None"
  by (auto simp: require_def)

section \<open>task.py\<close>

definition hex_char :: "char \<Rightarrow> bool" where
  "hex_char c \<longleftrightarrow> digit_char c \<or> 97 \<le> (of_char c :: nat) \<and> of_char c \<le> (102 :: nat)"

text \<open>
  \<open>re.compile(r"^[0-9a-f]{64}$").match\<close>: without \<open>MULTILINE\<close>, \<open>$\<close> matches at the end and also
  before a newline that ends the string.
\<close>

definition is_hex_64 :: "string \<Rightarrow> bool" where
  "is_hex_64 val \<longleftrightarrow> 64 \<le> length val \<and> list_all hex_char (take 64 val)
     \<and> (drop 64 val = [] \<or> drop 64 val = [CHR 0x0A])"

definition requirement_payload :: "Requirement \<Rightarrow> pyval" where
  "requirement_payload r = V_mapping [
     (''requirement_id'', V_str (rq_requirement_id r)),
     (''text'', V_str (rq_text r)),
     (''source_kind'', V_str (rq_source_kind r)),
     (''evidence_digests'', V_seq (map V_str (sort (rq_evidence_digests r)))),
     (''source_locator'', V_str (rq_source_locator r)),
     (''allowed_variation'', V_str (rq_allowed_variation r))]"

definition requirement_hash ::
    "(string \<Rightarrow> string) \<Rightarrow> (pyfloat \<Rightarrow> string) \<Rightarrow> Requirement \<Rightarrow> string res" where
  "requirement_hash H fr requirement = canonical_hash H fr (requirement_payload requirement)"

definition contract_payload :: "Contract \<Rightarrow> pyval" where
  "contract_payload c = V_mapping [
     (''task_id'', V_str (ct_task_id c)),
     (''version'', V_str (ct_version c)),
     (''requirement_hashes'', V_seq (map V_str (sort (ct_requirement_hashes c)))),
     (''allowed_variation'', V_str (ct_allowed_variation c)),
     (''unresolved_questions'', V_seq (map V_str (sort (ct_unresolved_questions c)))),
     (''evidence_digests'', V_seq (map V_str (sort (ct_evidence_digests c))))]"

definition contract_hash ::
    "(string \<Rightarrow> string) \<Rightarrow> (pyfloat \<Rightarrow> string) \<Rightarrow> Contract \<Rightarrow> string res" where
  "contract_hash H fr contract = canonical_hash H fr (contract_payload contract)"

text \<open>\<open>parse_version\<close> answers \<open>None\<close> where the package raises \<open>InvalidVersion\<close>.\<close>

definition compare_versions ::
    "(string \<Rightarrow> 'v :: linorder option) \<Rightarrow> string \<Rightarrow> string \<Rightarrow> int res" where
  "compare_versions parse_version left right =
    (case (parse_version left, parse_version right) of
       (Some vl, Some vr) \<Rightarrow> Inr (if vl < vr then - 1 else if vl > vr then 1 else 0)
     | _ \<Rightarrow> invalid)"

definition validate_task ::
    "(string \<Rightarrow> string) \<Rightarrow> (pyfloat \<Rightarrow> string) \<Rightarrow> Task \<Rightarrow> Contract \<Rightarrow> unit res" where
  "validate_task H fr task contract =
    (if t_task_key task \<noteq> t_task_id task @ ''@'' @ t_version task then invalid
     else if t_task_id task \<noteq> ct_task_id contract then invalid
     else bind_res (contract_hash H fr contract) (\<lambda>computed_contract_hash.
       require [
         ct_contract_hash contract = computed_contract_hash,
         t_contract_hash task = ct_contract_hash contract,
         is_hex_64 (t_contract_hash task),
         is_hex_64 (t_snapshot_digest task),
         t_eligibility task \<in> {''eligible'', ''excluded'', ''pending''},
         dt_offset (t_created_at task) = Some 0]))"

section \<open>verifier.py\<close>

definition verifier_payload :: "VerifierManifest \<Rightarrow> pyval" where
  "verifier_payload m = V_mapping [
     (''mode'', V_str (vm_mode m)),
     (''command'', V_seq (map V_str (vm_command m))),
     (''build_command'', V_seq (map V_str (vm_build_command m))),
     (''expected_collection'', V_seq (map V_str (vm_expected_collection m))),
     (''parser_id'', V_str (vm_parser_id m)),
     (''report_path'', V_str (vm_report_path m)),
     (''payload_digest'', V_str (vm_payload_digest m)),
     (''allowed_edit_paths'', V_seq (map V_str (vm_allowed_edit_paths m))),
     (''required_pass_ids'', V_seq (map V_str (vm_required_pass_ids m))),
     (''permitted_skips'', V_seq (map V_str (vm_permitted_skips m))),
     (''timeout_seconds'', V_int (vm_timeout_seconds m))]"

definition manifest_hash ::
    "(string \<Rightarrow> string) \<Rightarrow> (pyfloat \<Rightarrow> string) \<Rightarrow> VerifierManifest \<Rightarrow> string res" where
  "manifest_hash H fr manifest = canonical_hash H fr (verifier_payload manifest)"

definition validate_verifier ::
    "(string \<Rightarrow> string) \<Rightarrow> (pyfloat \<Rightarrow> string) \<Rightarrow> VerifierVersion \<Rightarrow> VerifierManifest \<Rightarrow> unit res" where
  "validate_verifier H fr version manifest =
    (if vv_verifier_key version \<noteq> vv_verifier_id version @ ''@'' @ vv_version version then invalid
     else bind_res (manifest_hash H fr manifest) (\<lambda>computed_manifest_hash.
       require [
         vm_manifest_hash manifest = computed_manifest_hash,
         vv_manifest_hash version = computed_manifest_hash,
         vv_payload_digest version = vm_payload_digest manifest,
         vm_timeout_seconds manifest > 0,
         vm_command manifest \<noteq> [],
         vm_mode manifest \<in> {''compatibility'', ''blackbox''}]))"

text \<open>The registration is a stub that raises after the validation.\<close>

definition register_verifier ::
    "(string \<Rightarrow> string) \<Rightarrow> (pyfloat \<Rightarrow> string) \<Rightarrow> VerifierVersion \<Rightarrow> VerifierManifest \<Rightarrow> unit res" where
  "register_verifier H fr version manifest =
    bind_res (validate_verifier H fr version manifest)
      (\<lambda>_. Inl (PyExc ''NotImplementedError''
        ''Phase 1 stub: verifier registry persistence is not implemented yet.''))"

section \<open>resolve\_command\<close>

definition ALLOWED_PLACEHOLDERS :: "string list" where
  "ALLOWED_PLACEHOLDERS = [''{workspace}'', ''{verifier}'', ''{out}'', ''{seed}'']"

definition has_brace :: "string \<Rightarrow> bool" where
  "has_brace token \<longleftrightarrow> CHR ''{'' \<in> set token \<or> CHR ''}'' \<in> set token"

text \<open>\<open>token[1:-1]\<close>\<close>

definition placeholder_key :: "string \<Rightarrow> string" where
  "placeholder_key token = butlast (tl token)"

definition resolve_token :: "(string \<Rightarrow> string option) \<Rightarrow> string \<Rightarrow> string res" where
  "resolve_token paths token =
    (if has_brace token then
       if token \<notin> set ALLOWED_PLACEHOLDERS then invalid
       else (case paths (placeholder_key token) of None \<Rightarrow> invalid | Some path \<Rightarrow> Inr path)
     else Inr token)"

definition resolve_command ::
    "string list \<Rightarrow> (string \<Rightarrow> string option) \<Rightarrow> string option \<Rightarrow> int
     \<Rightarrow> (string \<times> string) list option \<Rightarrow> CommandSpec res" where
  "resolve_command template paths cwd timeout_seconds env =
    bind_res (map_res (resolve_token paths) template) (\<lambda>resolved_argv.
      Inr \<lparr>cs_argv = resolved_argv,
        cs_cwd = (case cwd of Some d \<Rightarrow> d | None \<Rightarrow>
          (case paths ''workspace'' of Some d \<Rightarrow> d | None \<Rightarrow> ''/'')),
        cs_env = (case env of None \<Rightarrow> [] | Some e \<Rightarrow> e),
        cs_stdin_digest = None, cs_timeout_seconds = timeout_seconds\<rparr>)"

section \<open>What the hashes bind\<close>

definition requirement_json :: "Requirement \<Rightarrow> (string \<times> json) list" where
  "requirement_json r = [
     (''requirement_id'', J_str (rq_requirement_id r)),
     (''text'', J_str (rq_text r)),
     (''source_kind'', J_str (rq_source_kind r)),
     (''evidence_digests'', J_arr (map J_str (sort (rq_evidence_digests r)))),
     (''source_locator'', J_str (rq_source_locator r)),
     (''allowed_variation'', J_str (rq_allowed_variation r))]"

definition contract_json :: "Contract \<Rightarrow> (string \<times> json) list" where
  "contract_json c = [
     (''task_id'', J_str (ct_task_id c)),
     (''version'', J_str (ct_version c)),
     (''requirement_hashes'', J_arr (map J_str (sort (ct_requirement_hashes c)))),
     (''allowed_variation'', J_str (ct_allowed_variation c)),
     (''unresolved_questions'', J_arr (map J_str (sort (ct_unresolved_questions c)))),
     (''evidence_digests'', J_arr (map J_str (sort (ct_evidence_digests c))))]"

definition verifier_json :: "VerifierManifest \<Rightarrow> (string \<times> json) list" where
  "verifier_json m = [
     (''mode'', J_str (vm_mode m)),
     (''command'', J_arr (map J_str (vm_command m))),
     (''build_command'', J_arr (map J_str (vm_build_command m))),
     (''expected_collection'', J_arr (map J_str (vm_expected_collection m))),
     (''parser_id'', J_str (vm_parser_id m)),
     (''report_path'', J_str (vm_report_path m)),
     (''payload_digest'', J_str (vm_payload_digest m)),
     (''allowed_edit_paths'', J_arr (map J_str (vm_allowed_edit_paths m))),
     (''required_pass_ids'', J_arr (map J_str (vm_required_pass_ids m))),
     (''permitted_skips'', J_arr (map J_str (vm_permitted_skips m))),
     (''timeout_seconds'', J_int (vm_timeout_seconds m))]"

lemma payload_repr:
  "canonical_repr (requirement_payload r) = Inr (J_obj (requirement_json r))"
  "canonical_repr (contract_payload c) = Inr (J_obj (contract_json c))"
  "canonical_repr (verifier_payload m) = Inr (J_obj (verifier_json m))"
  by (simp_all add: requirement_payload_def requirement_json_def contract_payload_def
      contract_json_def verifier_payload_def verifier_json_def map_str_ok)

lemma hashes_total:
  "\<exists>h. contract_hash H fr c = Inr h" "\<exists>h. manifest_hash H fr m = Inr h"
  by (simp_all only: contract_hash_def manifest_hash_def canonical_hash_obj [OF payload_repr(2)]
      canonical_hash_obj [OF payload_repr(3)]) blast+

lemma contract_hash_eq_iff:
  assumes "float_text fr" and "no_collision H fr (contract_payload c) (contract_payload c')"
  shows "contract_hash H fr c = contract_hash H fr c' \<longleftrightarrow>
      ct_task_id c = ct_task_id c' \<and> ct_version c = ct_version c'
    \<and> ct_allowed_variation c = ct_allowed_variation c'
    \<and> mset (ct_requirement_hashes c) = mset (ct_requirement_hashes c')
    \<and> mset (ct_unresolved_questions c) = mset (ct_unresolved_questions c')
    \<and> mset (ct_evidence_digests c) = mset (ct_evidence_digests c')"
proof -
  have "contract_hash H fr c = contract_hash H fr c' \<longleftrightarrow> sorted_items (contract_json c) = sorted_items (contract_json c')"
    unfolding contract_hash_def
    by (rule canonical_hash_eq_iff [OF assms payload_repr(2) payload_repr(2)])
      (simp_all add: contract_json_def)
  then show ?thesis by (auto simp: contract_json_def sort_eq_iff)
qed

lemma validate_taskD:
  assumes "validate_task H fr task c = Inr ()"
  shows "contract_hash H fr c = Inr (t_contract_hash task)" "ct_contract_hash c = t_contract_hash task"
    "t_task_id task = ct_task_id c" "t_task_key task = t_task_id task @ ''@'' @ t_version task"
  using assms by (auto simp: validate_task_def bind_res_Inr_iff split: if_splits)

text \<open>
  A validated task pins its terms: when two tasks validate against their contracts and name
  the same contract hash, and the hash does not collide on the two contracts, then the normative
  content of the contracts is the same (task, version, allowed variation, and the requirement
  hashes, open questions and evidence as bags), and the tasks are versions of one task.
\<close>

lemma validated_tasks_share_terms:
  assumes "float_text fr" and "no_collision H fr (contract_payload c) (contract_payload c')"
    and "validate_task H fr task c = Inr ()" and "validate_task H fr task' c' = Inr ()"
    and "t_contract_hash task = t_contract_hash task'"
  shows "t_task_id task = t_task_id task' \<and> ct_version c = ct_version c'
    \<and> ct_allowed_variation c = ct_allowed_variation c'
    \<and> mset (ct_requirement_hashes c) = mset (ct_requirement_hashes c')
    \<and> mset (ct_unresolved_questions c) = mset (ct_unresolved_questions c')
    \<and> mset (ct_evidence_digests c) = mset (ct_evidence_digests c')"
  using validate_taskD [OF assms(3)] validate_taskD [OF assms(4)] assms(5)
    contract_hash_eq_iff [OF assms(1,2)] by simp

definition ex_contract :: "string \<Rightarrow> string list \<Rightarrow> Contract" where
  "ex_contract h reqs = \<lparr>ct_contract_hash = h, ct_task_id = ''t'', ct_version = ''1'',
     ct_requirement_hashes = reqs, ct_allowed_variation = ''none'', ct_unresolved_questions = [],
     ct_evidence_digests = [], ct_created_at = 0\<rparr>"

definition ex_task :: "string \<Rightarrow> string \<Rightarrow> Task" where
  "ex_task version h = \<lparr>t_task_key = ''t@'' @ version, t_task_id = ''t'', t_version = version,
     t_statement = ''s'', t_adapter = ''local'', t_contract_hash = h,
     t_snapshot_digest = replicate 64 (CHR ''0''), t_environment_id = ''e'', t_licence = ''l'',
     t_provenance = ''p'', t_eligibility = ''eligible'', t_notes = [],
     t_created_at = \<lparr>dt_instant = 0, dt_offset = Some 0\<rparr>\<rparr>"

text \<open>A toy hash for the example: 64 digits that tell the two contracts from everything else.\<close>

definition ex_hash :: "string \<Rightarrow> string" where
  "ex_hash s = replicate 64 (CHR ''a'')"

lemma validated_tasks_share_terms_witness:
  "mset (ct_requirement_hashes (ex_contract (ex_hash []) [''r2'', ''r1'']))
     = mset (ct_requirement_hashes (ex_contract (ex_hash []) [''r1'', ''r2'']))"
proof -
  let ?c = "ex_contract (ex_hash []) [''r2'', ''r1'']" and ?c' = "ex_contract (ex_hash []) [''r1'', ''r2'']"
  have "no_collision ex_hash ex_float_text (contract_payload ?c) (contract_payload ?c')"
    by (simp add: no_collision_def contract_payload_def ex_contract_def add_mset_commute)
  moreover have "validate_task ex_hash ex_float_text (ex_task ''1'' (ex_hash [])) ?c = Inr ()"
    "validate_task ex_hash ex_float_text (ex_task ''2'' (ex_hash [])) ?c' = Inr ()"
    by (code_simp, code_simp)
  ultimately show ?thesis
    using validated_tasks_share_terms [OF ex_float_text, of ex_hash ?c ?c' "ex_task ''1'' (ex_hash [])"
        "ex_task ''2'' (ex_hash [])"] by (simp add: ex_task_def)
qed

text \<open>
  The hash of a verifier manifest binds every field but the stored hash, in order: when the
  hash does not collide on the two manifests, equal hashes mean equal configurations.
\<close>

lemma verifier_hash_binds_configuration:
  assumes "float_text fr" and "no_collision H fr (verifier_payload m) (verifier_payload m')"
  shows "manifest_hash H fr m = manifest_hash H fr m'
    \<longleftrightarrow> m\<lparr>vm_manifest_hash := []\<rparr> = m'\<lparr>vm_manifest_hash := []\<rparr>"
proof -
  have "manifest_hash H fr m = manifest_hash H fr m' \<longleftrightarrow> sorted_items (verifier_json m) = sorted_items (verifier_json m')"
    unfolding manifest_hash_def
    by (rule canonical_hash_eq_iff [OF assms payload_repr(3) payload_repr(3)])
      (simp_all add: verifier_json_def)
  then show ?thesis
    by (cases m; cases m') (auto simp: verifier_json_def)
qed

definition ex_verifier :: "string list \<Rightarrow> VerifierManifest" where
  "ex_verifier command = \<lparr>vm_manifest_hash = ''h'', vm_mode = ''blackbox'', vm_command = command,
     vm_build_command = [], vm_expected_collection = [], vm_parser_id = ''p'',
     vm_report_path = ''report.json'', vm_payload_digest = ''d'', vm_allowed_edit_paths = [],
     vm_required_pass_ids = [], vm_permitted_skips = [], vm_timeout_seconds = 60\<rparr>"

lemma verifier_hash_binds_configuration_witness:
  "manifest_hash id ex_float_text (ex_verifier [''a b'']) \<noteq> manifest_hash id ex_float_text (ex_verifier [''a'', ''b''])"
  using verifier_hash_binds_configuration [OF ex_float_text no_collision_inj,
      of id "ex_verifier [''a b'']" "ex_verifier [''a'', ''b'']"]
  by (simp add: ex_verifier_def)

section \<open>Command templates\<close>

lemma resolve_token_cases:
  "resolve_token paths token = Inr arg \<longleftrightarrow>
    (if has_brace token then token \<in> set ALLOWED_PLACEHOLDERS \<and> paths (placeholder_key token) = Some arg
     else arg = token)"
  "resolve_token paths token = Inl e \<longleftrightarrow> e = make_error ValidationError None \<and> has_brace token
     \<and> (token \<notin> set ALLOWED_PLACEHOLDERS \<or> paths (placeholder_key token) = None)"
  by (auto simp: resolve_token_def split: option.splits)

text \<open>A use of braces the templates refuse.\<close>

definition bad_token :: "(string \<Rightarrow> string option) \<Rightarrow> string \<Rightarrow> bool" where
  "bad_token paths token \<longleftrightarrow> has_brace token
     \<and> \<not> (token \<in> set ALLOWED_PLACEHOLDERS \<and> paths (placeholder_key token) \<noteq> None)"

lemma map_res_cases:
  "case map_res f xs of Inl e \<Rightarrow> \<exists>x \<in> set xs. f x = Inl e
     | Inr ys \<Rightarrow> list_all2 (\<lambda>x y. f x = Inr y) xs ys"
  by (induction xs) (auto simp: bind_res_def split: sum.splits)

text \<open>
  Command templates are never interpolated: an argument without braces is passed on as it
  is, an argument that is one of the four placeholders is replaced as a whole by its path, which
  is not looked at again, and every other use of braces, or a missing path, is a
  \<open>ValidationError\<close>.
\<close>

lemma resolve_command_replaces_whole_tokens:
  "case resolve_command template paths cwd timeout env of
     Inl e \<Rightarrow> e = make_error ValidationError None \<and> (\<exists>token \<in> set template. bad_token paths token)
   | Inr spec \<Rightarrow> cs_timeout_seconds spec = timeout \<and> list_all2 (\<lambda>token arg.
        if has_brace token then token \<in> set ALLOWED_PLACEHOLDERS \<and> paths (placeholder_key token) = Some arg
        else arg = token) template (cs_argv spec)"
  using map_res_cases [where f = "resolve_token paths" and xs = template]
  by (cases "map_res (resolve_token paths) template")
    (auto simp: resolve_command_def resolve_token_cases bad_token_def simp del: not_None_eq)

end
