(* ===== verification/Sandbox.thy ===== *)
theory Sandbox
  imports Models Py_Strings
begin

text \<open>
  The sandbox: \<open>src/src/verifierci/execution/sandbox.py\<close>. Validation of a patch, preparation of a
  workspace, supervision of one subprocess and clean-up. A directory tree is a map from relative
  POSIX paths to the bytes of regular files. What the operating system and \<open>git\<close> answer are
  parameters: \<open>git\<close> (exit status and tree, or a timeout), \<open>spawn\<close> (what became of the process)
  and the clock.
\<close>

type_synonym tree = "string \<Rightarrow> string option"

section \<open>validate\_patch\<close>

definition protection :: "'a res" where
  "protection = Inl (make_error ProtectionError (Some (ec_value EC_PROTECTION_ERROR)))"

definition MODE_PREFIXES :: "string list" where
  "MODE_PREFIXES = [''new file mode '', ''old mode '', ''new mode '', ''deleted file mode '']"

definition symlink_line :: "string \<Rightarrow> bool" where
  "symlink_line line \<longleftrightarrow> list_ex (\<lambda>p. prefix p (strip line)) MODE_PREFIXES \<and> suffix ''120000'' (strip line)"

text \<open>The part of a \<open>diff --git\<close> line after the marker \<open>a/\<close> or \<open>b/\<close>.\<close>

definition side :: "string \<Rightarrow> nat \<Rightarrow> string list \<Rightarrow> string list" where
  "side marker n parts = (if n < length parts \<and> prefix marker (parts ! n)
     then [strip (drop 2 (parts ! n))] else [])"

text \<open>
  The paths a line names. \<open>line[12:]\<close> cuts both rename markers at twelve characters, the
  length of \<open>rename from \<close>.
\<close>

definition target_files :: "string \<Rightarrow> string list" where
  "target_files line =
    (if list_ex (\<lambda>p. prefix p line) [''--- a/'', ''--- b/'', ''+++ a/'', ''+++ b/'']
     then [strip (drop 6 line)]
     else if prefix ''rename from '' line \<or> prefix ''rename to '' line
     then [strip (drop 12 line)]
     else if prefix ''diff --git a/'' line
     then side ''a/'' 2 (split_on (CHR '' '') line) @ side ''b/'' 3 (split_on (CHR '' '') line)
     else [])"

definition segments :: "string \<Rightarrow> string list" where
  "segments target = split_on (CHR ''/'') (map (\<lambda>c. if c = CHR 0x5C then CHR ''/'' else c) target)"

definition pattern_allows :: "string \<Rightarrow> string \<Rightarrow> bool" where
  "pattern_allows target pattern =
    (let norm = rstrip_char (CHR ''/'') pattern in
     fnmatch target pattern \<or> fnmatch target norm \<or> target = norm \<or> prefix (norm @ ''/'') target)"

definition check_target :: "string list \<Rightarrow> string \<Rightarrow> unit res" where
  "check_target allowed_paths target =
    (if target = [] \<or> target = ''/dev/null'' then Inr ()
     else if hd target = CHR ''/'' \<or> hd target = CHR 0x5C then protection
     else if ''..'' \<in> set (segments target) \<or> ''.'' \<in> set (segments target) then protection
     else if ''*'' \<in> set allowed_paths then Inr ()
     else if list_ex (pattern_allows target) allowed_paths then Inr ()
     else protection)"

fun check_targets :: "string list \<Rightarrow> string list \<Rightarrow> unit res" where
  "check_targets allowed_paths [] = Inr ()"
| "check_targets allowed_paths (t # ts) =
    bind_res (check_target allowed_paths t) (\<lambda>_. check_targets allowed_paths ts)"

fun check_lines :: "string list \<Rightarrow> string list \<Rightarrow> unit res" where
  "check_lines allowed_paths [] = Inr ()"
| "check_lines allowed_paths (line # lines) =
    (if symlink_line line then protection
     else bind_res (check_targets allowed_paths (target_files line))
       (\<lambda>_. check_lines allowed_paths lines))"

definition validate_patch :: "string \<Rightarrow> string list \<Rightarrow> unit res" where
  "validate_patch diff allowed_paths =
    (if bytes_blank diff then Inr ()
     else let diff_text = decode_replace diff in
       if contains ''GIT binary patch'' diff_text then protection
       else check_lines allowed_paths (splitlines diff_text))"

section \<open>prepare\_workspace\<close>

datatype snapshot_entry = Regular string | Link | Folder

text \<open>\<open>git apply --check\<close> and \<open>git apply\<close>: exit status and tree, or \<open>TimeoutExpired\<close>.\<close>

datatype git_mode = Check | Apply
datatype git_result = Exited int tree | Git_timeout

fun copy_snapshot :: "(string \<times> snapshot_entry) list \<Rightarrow> tree \<Rightarrow> tree" where
  "copy_snapshot [] source = source"
| "copy_snapshot ((rel, entry) # entries) source = copy_snapshot entries
    (case entry of Regular bytes \<Rightarrow> source(rel \<mapsto> bytes) | _ \<Rightarrow> source)"

definition git_run ::
    "(git_mode \<Rightarrow> tree \<Rightarrow> string \<Rightarrow> git_result) \<Rightarrow> git_mode \<Rightarrow> tree \<Rightarrow> string \<Rightarrow> tree res" where
  "git_run git mode source diff = (case git mode source diff of
     Exited status source' \<Rightarrow>
       if status \<noteq> 0 then Inl (make_error ValidationError (Some (ec_value EC_PATCH_ERROR)))
       else Inr source'
   | Git_timeout \<Rightarrow> Inl (make_error ValidationError (Some (ec_value EC_TIMEOUT))))"

text \<open>The source tree of the attempt; \<open>snapshot\<close> is what \<open>rglob("*")\<close> lists.\<close>

definition prepare_workspace ::
    "(git_mode \<Rightarrow> tree \<Rightarrow> string \<Rightarrow> git_result) \<Rightarrow> tree \<Rightarrow> (string \<times> snapshot_entry) list
     \<Rightarrow> string option \<Rightarrow> string list \<Rightarrow> tree res" where
  "prepare_workspace git existing snapshot diff_bytes allowed_paths =
    (let source = copy_snapshot snapshot existing in
     case diff_bytes of
       None \<Rightarrow> Inr source
     | Some diff \<Rightarrow>
       if bytes_blank diff then Inr source
       else bind_res (validate_patch diff allowed_paths) (\<lambda>_.
            bind_res (git_run git Check source diff) (\<lambda>_.
            git_run git Apply source diff)))"

section \<open>execute\<close>

definition DEFAULT_MAX_CAPTURE_BYTES :: int where
  "DEFAULT_MAX_CAPTURE_BYTES = 10 * 1024 * 1024"

definition base_env :: "string \<Rightarrow> (string \<times> string) list" where
  "base_env workspace = [
     (''PATH'', ''/usr/local/bin:/usr/bin:/bin''), (''LANG'', ''C.UTF-8''), (''LC_ALL'', ''C.UTF-8''),
     (''PYTHONUNBUFFERED'', ''1''), (''PYTHONDONTWRITEBYTECODE'', ''1''),
     (''PYTEST_DISABLE_PLUGIN_AUTOLOAD'', ''1''), (''HOME'', workspace), (''TMPDIR'', workspace)]"

text \<open>\<open>clean_env\<close>; \<open>environ\<close> is \<open>os.environ\<close>.\<close>

definition clean_env ::
    "(string \<Rightarrow> string option) \<Rightarrow> string \<Rightarrow> (string \<times> string) list \<Rightarrow> string \<Rightarrow> string option" where
  "clean_env environ workspace env =
    (let base = map_of (base_env workspace);
         with_path = (case environ ''PATH'' of None \<Rightarrow> base | Some p \<Rightarrow> base(''PATH'' \<mapsto> p))
     in with_path ++ map_of (rev env))"

text \<open>\<open>_reader\<close>: the buffer and the flag after the chunks a pipe delivers; an empty one ends it.\<close>

fun reader :: "int \<Rightarrow> string list \<Rightarrow> string \<times> bool \<Rightarrow> string \<times> bool" where
  "reader limit [] st = st"
| "reader limit (chunk # chunks) (buf, truncated) =
    (if chunk = [] then (buf, truncated)
     else let remaining = limit - int (length buf) in
       if remaining > 0
       then reader limit chunks (buf @ take (nat remaining) chunk,
              truncated \<or> int (length chunk) > remaining)
       else reader limit chunks (buf, True))"

text \<open>What became of the process: \<open>Popen\<close> failed, or the exit status (none on a timeout)
  and the chunks its two pipes delivered until the readers were joined.\<close>

datatype spawned = Launch_failed string | Process "int option" "string list" "string list"

text \<open>The loop that hashes the report: chunks of at most 8192 bytes up to a limit that is not negative.\<close>

function report_prefix :: "int \<Rightarrow> int \<Rightarrow> string \<Rightarrow> string" where
  "report_prefix limit bytes_read rest =
    (let chunk = take (nat (min 8192 (limit - bytes_read))) rest;
         bytes_read' = bytes_read + int (length chunk)
     in if chunk = [] then []
        else if bytes_read' \<ge> limit then chunk
        else chunk @ report_prefix limit bytes_read' (drop (length chunk) rest))"
  by pat_completeness auto
termination
  by (relation "measure (\<lambda>(_, _, rest). length rest)") (auto simp: Let_def)

declare report_prefix.simps [simp del]

record execution =
  ex_capture :: ExecutionCapture
  ex_stdout :: string
  ex_stderr :: string

definition usage :: "pyfloat \<Rightarrow> string \<Rightarrow> string \<Rightarrow> ResourceUsage" where
  "usage elapsed out err = \<lparr>ru_duration = Some elapsed, ru_allocated_cpu = Some (PFin 1),
     ru_cpu_seconds = Some elapsed, ru_peak_memory = None, ru_model_usage = None,
     ru_estimated_cost = None, ru_pricing_version = None,
     ru_bytes_written = Some (int (length out) + int (length err))\<rparr>"

text \<open>\<open>stdout_bytes[:max]\<close> for a limit that is not negative.\<close>

definition cap :: "int \<Rightarrow> string \<Rightarrow> string" where
  "cap limit bytes = (if int (length bytes) > limit then take (nat limit) bytes else bytes)"

text \<open>
  \<open>spawn\<close> answers for the arguments of \<open>Popen\<close> and the deadline; \<open>report\<close> is the report file
  after the process, if it is a file. The two streams are also written to the capture directory
  unless they are empty.
\<close>

definition execute ::
    "(string \<Rightarrow> string) \<Rightarrow> (string list \<Rightarrow> string \<Rightarrow> (string \<Rightarrow> string option) \<Rightarrow> int \<Rightarrow> spawned)
     \<Rightarrow> (string \<Rightarrow> string option) \<Rightarrow> pyfloat \<Rightarrow> (string \<Rightarrow> string option)
     \<Rightarrow> string option \<Rightarrow> string list \<Rightarrow> string \<Rightarrow> int \<Rightarrow> (string \<times> string) list \<Rightarrow> int \<Rightarrow> string
     \<Rightarrow> execution" where
  "execute H spawn environ elapsed report attempt command workspace timeout env limit report_path =
    (let run = spawn command workspace (clean_env environ workspace env) timeout;
         (out, out_cut) = (case run of Launch_failed _ \<Rightarrow> ([], False)
            | Process _ outs _ \<Rightarrow> reader limit outs ([], False));
         (err, err_cut) = (case run of Launch_failed _ \<Rightarrow> ([], False)
            | Process _ _ errs \<Rightarrow> reader limit errs ([], False));
         stdout_bytes = cap limit out;
         stderr_bytes = cap limit err;
         report_file = report report_path
     in \<lparr>ex_capture = \<lparr>
           c_attempt_id = or_str attempt ''unknown'',
           c_exit_code = (case run of Launch_failed _ \<Rightarrow> Some (- 1)
              | Process status _ _ \<Rightarrow> (case status of None \<Rightarrow> Some (- 1) | Some n \<Rightarrow> Some n)),
           c_timed_out = (case run of Process None _ _ \<Rightarrow> True | _ \<Rightarrow> False),
           c_oom_killed = Some False,
           c_cancelled = False,
           c_build_exit_code = None,
           c_stdout_hash = (if stdout_bytes = [] then None else Some (H stdout_bytes)),
           c_stderr_hash = (if stderr_bytes = [] then None else Some (H stderr_bytes)),
           c_report_digest = map_option (\<lambda>content. H (report_prefix limit 0 content)) report_file,
           c_truncated = (out_cut \<or> err_cut \<or> int (length out) > limit \<or> int (length err) > limit
              \<or> (case report_file of None \<Rightarrow> False | Some content \<Rightarrow> int (length content) > limit)),
           c_resources = usage elapsed stdout_bytes stderr_bytes,
           c_runtime_error = (case run of
              Launch_failed msg \<Rightarrow> Some (''Subprocess launch failed: '' @ msg) | _ \<Rightarrow> None)\<rparr>,
         ex_stdout = stdout_bytes, ex_stderr = stderr_bytes\<rparr>)"

section \<open>cleanup\_attempt\<close>

text \<open>The attempt directories of a worker, by attempt.\<close>

definition cleanup_attempt :: "string \<Rightarrow> (string \<Rightarrow> tree option) \<Rightarrow> string \<Rightarrow> tree option" where
  "cleanup_attempt attempt_id dirs = dirs(attempt_id := None)"

section \<open>What the stream reader keeps\<close>

lemma reader_spec:
  assumes "0 \<le> limit" and "\<forall>c \<in> set chunks. c \<noteq> []" and "int (length buf) \<le> limit"
  shows "reader limit chunks (buf, trunc) = (take (nat limit) (buf @ concat chunks),
    trunc \<or> limit < int (length (buf @ concat chunks)))"
  using assms
proof (induction chunks arbitrary: buf trunc)
  case (Cons chunk chunks)
  let ?room = "limit - int (length buf)"
  have ne: "chunk \<noteq> []" using Cons.prems by simp
  show ?case
  proof (cases "?room > 0")
    case True
    let ?buf = "buf @ take (nat ?room) chunk"
    have "reader limit (chunk # chunks) (buf, trunc) = reader limit chunks (?buf, trunc \<or> int (length chunk) > ?room)"
      using ne True by (simp add: Let_def)
    also have "\<dots> = (take (nat limit) (?buf @ concat chunks),
        (trunc \<or> int (length chunk) > ?room) \<or> limit < int (length (?buf @ concat chunks)))"
      using Cons.prems True by (intro Cons.IH) (auto simp: min_def)
    also have "take (nat limit) (?buf @ concat chunks) = take (nat limit) (buf @ chunk @ concat chunks)"
      using True by (cases "length chunk \<le> nat ?room") (auto simp: take_append)
    also have "((trunc \<or> int (length chunk) > ?room) \<or> limit < int (length (?buf @ concat chunks)))
        \<longleftrightarrow> trunc \<or> limit < int (length (buf @ chunk @ concat chunks))"
      using True by (auto simp: min_def)
    finally show ?thesis by simp
  next
    case False
    then have full: "int (length buf) = limit" using Cons.prems(3) by simp
    have "reader limit (chunk # chunks) (buf, trunc) = reader limit chunks (buf, True)"
      using ne False by (simp add: Let_def)
    also have "\<dots> = (take (nat limit) (buf @ concat chunks), True)"
      using Cons.prems by (subst Cons.IH) auto
    finally show ?thesis using full ne by (cases chunk) (auto simp: take_append)
  qed
qed simp

lemma report_prefix_take:
  "bytes_read \<le> limit \<Longrightarrow> report_prefix limit bytes_read rest = take (nat (limit - bytes_read)) rest"
proof (induction limit bytes_read rest rule: report_prefix.induct)
  case (1 limit bytes_read rest)
  define n where "n = nat (limit - bytes_read)"
  let ?chunk = "take (min 8192 n) rest"
  have n: "nat (min 8192 (limit - bytes_read)) = min 8192 n" by (simp add: n_def)
  have len: "length ?chunk \<le> min 8192 n" by (simp only: length_take min.cobounded2)
  consider "?chunk = []" | "?chunk \<noteq> []" "n \<le> length ?chunk" | "?chunk \<noteq> []" "length ?chunk < n"
    by linarith
  then show ?case
  proof cases
    case 1
    then have "rest = [] \<or> n = 0" by auto
    with 1 show ?thesis by (subst report_prefix.simps) (auto simp: n Let_def n_def)
  next
    case 2
    then have "min 8192 n = n" using len by linarith
    with 2 \<open>bytes_read \<le> limit\<close> show ?thesis
      by (subst report_prefix.simps) (auto simp: n Let_def n_def)
  next
    case 3
    have more: "\<not> bytes_read + int (length ?chunk) \<ge> limit" using 3(2) by (simp add: n_def)
    have left: "nat (limit - (bytes_read + int (length ?chunk))) = n - length ?chunk" by (simp add: n_def)
    have "report_prefix limit bytes_read rest
        = ?chunk @ report_prefix limit (bytes_read + int (length ?chunk)) (drop (length ?chunk) rest)"
      using 3(1) more by (subst report_prefix.simps) (simp only: n Let_def if_False)
    also have "\<dots> = ?chunk @ take (n - length ?chunk) (drop (length ?chunk) rest)"
      using 1(1) [OF refl refl] 3(1) more left unfolding n by simp
    also have "\<dots> = take n rest"
      using 3(2) by (cases "length rest \<le> min 8192 n") (auto simp: min_def take_add [symmetric] split: if_splits)
    finally show ?thesis by (simp add: n_def)
  qed
qed

end
