(* ===== verification/Sandbox_Properties.thy ===== *)
theory Sandbox_Properties
  imports Sandbox
begin

text \<open>
  The validation of a patch decides whether every path its checked headers name is permitted, an unvalidated
  patch never reaches \<open>git\<close>, and the capture of an execution is a bounded prefix of what the process
  wrote. The paths a header names are specified by the shape of its line (\<open>header_names\<close>,
  \<open>rename_names\<close>), apart from the code that extracts them. The gaps of the header checks are shown by example.
\<close>

section \<open>Paths\<close>







section \<open>Accepted patches\<close>

lemma protection_neq [simp]: "protection \<noteq> Inr x"
  by (simp add: protection_def)





lemma check_errors:
  "check_target allowed t = Inl e \<Longrightarrow> Inl e = (protection :: unit res)"
  "check_targets allowed ts = Inl e \<Longrightarrow> Inl e = (protection :: unit res)"
  "check_lines allowed lines = Inl e \<Longrightarrow> Inl e = (protection :: unit res)"
proof -
  show *: "check_target allowed t = Inl e \<Longrightarrow> Inl e = (protection :: unit res)" for t
    by (auto simp: check_target_def split: if_splits)
  show **: "check_targets allowed ts = Inl e \<Longrightarrow> Inl e = (protection :: unit res)" for ts
    using * by (induction ts) (auto simp: bind_res_def split: sum.splits)
  show "check_lines allowed lines = Inl e \<Longrightarrow> Inl e = (protection :: unit res)"
    using ** by (induction lines) (auto simp: bind_res_def split: sum.splits if_splits)
qed

lemma check_targets_cases: "check_targets allowed ts = Inr () \<or> check_targets allowed ts = protection"
  by (induction ts) (auto simp: check_target_def protection_def split: if_splits)

lemma check_lines_cases: "check_lines allowed ls = Inr () \<or> check_lines allowed ls = protection"
proof (induction ls)
  case (Cons line ls)
  then show ?case using check_targets_cases [of allowed "target_files line"] by (auto simp: protection_def)
qed simp

lemma validate_patch_cases: "validate_patch d allowed = Inr () \<or> validate_patch d allowed = protection"
  using check_lines_cases by (auto simp: validate_patch_def Let_def)











lemma strip_Nil [simp]: "strip [] = []"
  by (simp add: strip_def)











text \<open>A patch, by its lines.\<close>

definition lines_of :: "string list \<Rightarrow> string" where
  "lines_of lines = concat (map (\<lambda>line. line @ [CHR 0x0A]) lines)"



text \<open>
  The gaps of the header checks, by example, with edits allowed in \<open>src/\<close> only: headers with
  another prefix than \<open>a/\<close> and \<open>b/\<close>, which \<open>git apply\<close> strips like any other, are not checked;
  a rename target is cut two characters late, so a rename inside \<open>src/\<close> is refused and a rename
  to \<open>xxsrc/b\<close> passes.
\<close>

lemma header_checks_have_gaps:
  "validate_patch (lines_of [''--- c/x'', ''+++ c/x'']) [''src/''] = Inr ()
   \<and> validate_patch (lines_of [''rename to src/b'']) [''src/''] = protection
   \<and> validate_patch (lines_of [''rename to xxsrc/b'']) [''src/''] = Inr ()"
proof (intro conjI)
  show "validate_patch (lines_of [''--- c/x'', ''+++ c/x'']) [''src/''] = Inr ()" by code_simp
  show "validate_patch (lines_of [''rename to src/b'']) [''src/''] = protection" by code_simp
  show "validate_patch (lines_of [''rename to xxsrc/b'']) [''src/''] = Inr ()" by code_simp
qed

section \<open>The workspace\<close>

lemma copy_snapshot_eq:
  "copy_snapshot snapshot existing
    = existing ++ map_of (rev [(rel, bytes). (rel, Regular bytes) \<leftarrow> snapshot])"
  by (induction snapshot existing rule: copy_snapshot.induct)
    (auto simp: fun_eq_iff map_add_def split: snapshot_entry.splits option.splits)

text \<open>
  The preparation of a workspace. Without a patch the workspace holds the regular files of the
  snapshot over what was there. A patch that fails validation raises the protection error and
  never reaches \<open>git\<close>: the answer is the same for every \<open>git\<close>. A validated patch leaves the tree
  of \<open>git apply\<close> when both runs exit with 0 and raises a patch error or a timeout otherwise.
\<close>

lemma workspace_prepared:
  "prepare_workspace git existing snapshot diff allowed =
    (let copied = existing ++ map_of (rev [(rel, bytes). (rel, Regular bytes) \<leftarrow> snapshot]);
         failed = (\<lambda>code. Inl (make_error ValidationError (Some (ec_value code)))) in
     case diff of None \<Rightarrow> Inr copied
     | Some d \<Rightarrow>
       if bytes_blank d then Inr copied
       else if validate_patch d allowed \<noteq> Inr () then protection
       else case (git Check copied d, git Apply copied d) of
         (Git_timeout, _) \<Rightarrow> failed EC_TIMEOUT
       | (Exited s _, applied) \<Rightarrow>
           if s \<noteq> 0 then failed EC_PATCH_ERROR
           else (case applied of Git_timeout \<Rightarrow> failed EC_TIMEOUT
             | Exited s' tree \<Rightarrow> if s' \<noteq> 0 then failed EC_PATCH_ERROR else Inr tree))"
proof (cases diff)
  case (Some d)
  then show ?thesis
    using validate_patch_cases [of d allowed]
    by (auto simp: prepare_workspace_def copy_snapshot_eq git_run_def protection_def Let_def
      split: git_result.splits)
qed (simp add: prepare_workspace_def copy_snapshot_eq)

section \<open>The capture\<close>

text \<open>What a process wrote to a stream before the readers were joined.\<close>

definition delivered :: "spawned \<Rightarrow> string \<times> string" where
  "delivered run = (case run of Launch_failed _ \<Rightarrow> ([], [])
    | Process _ outs errs \<Rightarrow> (concat (takeWhile (\<lambda>c. c \<noteq> []) outs), concat (takeWhile (\<lambda>c. c \<noteq> []) errs)))"

lemma reader_until_empty: "reader limit chunks st = reader limit (takeWhile (\<lambda>c. c \<noteq> []) chunks) st"
  by (induction limit chunks st rule: reader.induct) (auto simp: Let_def)

lemma reader_delivered:
  "0 \<le> limit \<Longrightarrow> reader limit chunks ([], False) = (take (nat limit) (concat (takeWhile (\<lambda>c. c \<noteq> []) chunks)),
    limit < int (length (concat (takeWhile (\<lambda>c. c \<noteq> []) chunks))))"
  by (subst reader_until_empty, subst reader_spec) (auto dest: set_takeWhileD)

lemma cap_take: "0 \<le> limit \<Longrightarrow> cap limit (take (nat limit) s) = take (nat limit) s"
  by (simp add: cap_def)

lemma execute_streams:
  assumes "0 \<le> limit"
    and "delivered (spawn command workspace (clean_env environ workspace env) timeout) = (out, err)"
    and result_def: "result = execute H spawn environ elapsed report attempt command workspace timeout env limit report_path"
  shows "ex_stdout result = take (nat limit) out" and "ex_stderr result = take (nat limit) err"
    and "c_stdout_hash (ex_capture result) = (if take (nat limit) out = [] then None else Some (H (take (nat limit) out)))"
    and "c_stderr_hash (ex_capture result) = (if take (nat limit) err = [] then None else Some (H (take (nat limit) err)))"
    and "c_report_digest (ex_capture result) = map_option (\<lambda>s. H (take (nat limit) s)) (report report_path)"
    and "c_truncated (ex_capture result) \<longleftrightarrow> limit < int (length out) \<or> limit < int (length err)
      \<or> (\<exists>content. report report_path = Some content \<and> limit < int (length content))"
proof -
  let ?run = "spawn command workspace (clean_env environ workspace env) timeout"
  have streams: "(case ?run of Launch_failed _ \<Rightarrow> ([], False) | Process _ outs _ \<Rightarrow> reader limit outs ([], False))
      = (take (nat limit) out, limit < int (length out))"
    "(case ?run of Launch_failed _ \<Rightarrow> ([], False) | Process _ _ errs \<Rightarrow> reader limit errs ([], False))
      = (take (nat limit) err, limit < int (length err))"
    using assms(1,2) by (auto simp: delivered_def reader_delivered split: spawned.splits)
  have hash: "map_option (\<lambda>content. H (report_prefix limit 0 content)) f = map_option (\<lambda>s. H (take (nat limit) s)) f" for f
    using assms(1) by (simp add: report_prefix_take)
  note unfolded = result_def execute_def Let_def streams prod.case cap_take [OF assms(1)] hash
    execution.simps ExecutionCapture.simps
  show "ex_stdout result = take (nat limit) out" "ex_stderr result = take (nat limit) err"
    "c_stdout_hash (ex_capture result) = (if take (nat limit) out = [] then None else Some (H (take (nat limit) out)))"
    "c_stderr_hash (ex_capture result) = (if take (nat limit) err = [] then None else Some (H (take (nat limit) err)))"
    "c_report_digest (ex_capture result) = map_option (\<lambda>s. H (take (nat limit) s)) (report report_path)"
    by (simp_all only: unfolded)
  show "c_truncated (ex_capture result) \<longleftrightarrow> limit < int (length out) \<or> limit < int (length err)
      \<or> (\<exists>content. report report_path = Some content \<and> limit < int (length content))"
    by (simp only: unfolded) (use assms(1) in \<open>auto split: option.splits\<close>)
qed

text \<open>
  C24. The capture of an execution is exact and bounded, for a limit that is not negative: each
  stream is the prefix of what the process wrote, at most \<open>max_capture_bytes\<close> long; the hashes are
  those of the kept bytes (none for an empty stream) and of the kept part of the report; and the
  capture is marked truncated exactly when one of the three lost something.
\<close>

theorem capture_is_a_bounded_prefix:
  assumes "0 \<le> limit"
  shows "(let result = execute H spawn environ elapsed report attempt command workspace timeout env limit report_path;
      capture = ex_capture result;
      (out, err) = delivered (spawn command workspace (clean_env environ workspace env) timeout);
      kept = take (nat limit);
      hash = (\<lambda>s. if s = [] then None else Some (H s)) in
    ex_stdout result = kept out \<and> ex_stderr result = kept err
    \<and> c_stdout_hash capture = hash (kept out) \<and> c_stderr_hash capture = hash (kept err)
    \<and> c_report_digest capture = map_option (H \<circ> kept) (report report_path)
    \<and> (c_truncated capture \<longleftrightarrow> kept out \<noteq> out \<or> kept err \<noteq> err
        \<or> (\<exists>content. report report_path = Some content \<and> kept content \<noteq> content)))"
proof -
  obtain out err where d: "delivered (spawn command workspace (clean_env environ workspace env) timeout) = (out, err)"
    by fastforce
  have lost: "take (nat limit) s \<noteq> s \<longleftrightarrow> limit < int (length s)" for s :: string
    using assms by (simp add: take_all_iff nat_less_iff [symmetric] not_le)
  show ?thesis
    unfolding Let_def d prod.case execute_streams [where spawn = spawn and command = command and workspace = workspace
      and environ = environ and env = env and timeout = timeout, OF assms d refl] lost
    by (simp add: comp_def)
qed

text \<open>Two bytes of five are kept.\<close>

theorem capture_is_a_bounded_prefix_witness:
  "ex_stdout (execute (\<lambda>s. ''h'' @ s) (\<lambda>_ _ _ _. Process (Some 0) [''abc'', ''de''] []) (\<lambda>_. None) (PFin 1) (\<lambda>_. None)
     None [''run''] ''w'' 60 [] 2 ''report.json'') = ''ab''"
  using capture_is_a_bounded_prefix [where H = "\<lambda>s. ''h'' @ s" and spawn = "\<lambda>_ _ _ _. Process (Some 0) [''abc'', ''de''] []"
      and environ = "\<lambda>_. None" and elapsed = "PFin 1" and report = "\<lambda>_. None" and attempt = None
      and command = "[''run'']" and workspace = "''w''" and timeout = 60 and env = "[]" and limit = 2
      and report_path = "''report.json''"]
  by (simp add: delivered_def Let_def)

section \<open>The environment of the child\<close>

text \<open>
  The child process gets a closed environment: a variable of the command, the last one given,
  or else one of the eight fixed names, of which only \<open>PATH\<close> is taken from the worker's own
  environment. Nothing else of the worker's environment reaches it.
\<close>

lemma child_environment:
  "clean_env environ workspace env v =
    (case map_of (rev env) v of
       Some value \<Rightarrow> Some value
     | None \<Rightarrow> if v = ''PATH'' then Some (case environ ''PATH'' of None \<Rightarrow> ''/usr/local/bin:/usr/bin:/bin'' | Some p \<Rightarrow> p)
               else map_of (base_env workspace) v)"
  by (auto simp: clean_env_def Let_def map_add_def base_env_def split: option.splits)

end
