(* ===== verification/Artifacts.thy ===== *)
theory Artifacts
  imports Models Py_Strings
begin

text \<open>
  The content-addressed artifact store: \<open>src/src/verifierci/storage/artifacts.py\<close>. The state is
  what lies at the path \<open>sha256/xx/xxx...\<close> of each digest and the rows of the table
  \<open>artifacts\<close>. \<open>H\<close> is \<open>sha256(...).hexdigest()\<close> and \<open>uri\<close> the resolved path of a digest. Temporary
  files are unlinked or renamed before a call returns and are not represented.
\<close>

section \<open>State\<close>

text \<open>What a path holds; \<open>Symlink b\<close> is a symbolic link, dangling unless \<open>b\<close>.\<close>

datatype node = File string | Symlink bool | Directory | Special

record Artifact =
  art_digest :: string
  art_kind :: string
  art_size_bytes :: int
  art_storage_uri :: string
  art_media_type :: string
  art_access_policy :: string
  art_retention_until :: "datetime option"
  art_available :: bool
  art_created_at :: datetime

text \<open>The text of \<open>retention_until\<close>: an ISO instant, or something \<open>fromisoformat\<close> refuses.\<close>

datatype stamp = Stamp datetime | Unparsable string

record artifact_row =
  aw_digest :: string
  aw_kind :: string
  aw_size_bytes :: int
  aw_storage_uri :: string
  aw_media_type :: string
  aw_access_policy :: string
  aw_retention_until :: "stamp option"
  aw_available :: bool
  aw_created_at :: datetime

record store =
  st_files :: "string \<Rightarrow> node option"
  st_rows :: "artifact_row list"

interpretation artifact_table: keyed_table aw_digest "lookup_row aw_digest" update_where
    "\<lambda>r rows. rows @ [r]"
  by (rule list_table_laws)

section \<open>Digests and rows\<close>

definition valid_digest :: "string \<Rightarrow> bool" where
  "valid_digest digest \<longleftrightarrow> length digest = 64 \<and> list_all (\<lambda>c. c \<in> set ''0123456789abcdef'') digest"

definition validate_digest :: "string \<Rightarrow> unit res" where
  "validate_digest digest = (if valid_digest digest then Inr ()
     else Inl (make_error ValidationError (Some (ec_value EC_VALIDATION_ERROR))))"

definition row_of_artifact :: "Artifact \<Rightarrow> artifact_row" where
  "row_of_artifact a = \<lparr>aw_digest = art_digest a, aw_kind = art_kind a, aw_size_bytes = art_size_bytes a,
     aw_storage_uri = art_storage_uri a, aw_media_type = art_media_type a,
     aw_access_policy = art_access_policy a, aw_retention_until = map_option Stamp (art_retention_until a),
     aw_available = True, aw_created_at = art_created_at a\<rparr>"

text \<open>\<open>INSERT ... ON CONFLICT(digest) DO UPDATE SET available = 1\<close>\<close>

definition register_artifact :: "Artifact \<Rightarrow> artifact_row list \<Rightarrow> artifact_row list" where
  "register_artifact artifact rows =
    (if lookup_row aw_digest rows (art_digest artifact) = None then rows @ [row_of_artifact artifact]
     else update_where (\<lambda>r. aw_digest r = art_digest artifact) (\<lambda>r. r\<lparr>aw_available := True\<rparr>) rows)"

section \<open>put\_stream, put\_bytes\<close>

definition CHUNK_SIZE :: nat where "CHUNK_SIZE = 64 * 1024"

definition artifact_limit :: "'a res" where
  "artifact_limit = Inl (make_error ValidationError (Some (ec_value EC_ARTIFACT_LIMIT)))"

text \<open>The loop over \<open>stream.read(CHUNK_SIZE)\<close>: the bytes written when it ends.\<close>

fun read_stream :: "int \<Rightarrow> string list \<Rightarrow> int \<Rightarrow> string \<Rightarrow> string res" where
  "read_stream max_bytes [] total_bytes written = Inr written"
| "read_stream max_bytes (chunk # chunks) total_bytes written =
    (if chunk = [] then Inr written
     else if total_bytes + int (length chunk) > max_bytes then artifact_limit
     else read_stream max_bytes chunks (total_bytes + int (length chunk)) (written @ chunk))"

text \<open>The chunks of a file or of \<open>io.BytesIO(data)\<close>.\<close>

function chunks_of :: "nat \<Rightarrow> string \<Rightarrow> string list" where
  "chunks_of n data = (if data = [] \<or> n = 0 then [] else take n data # chunks_of n (drop n data))"
  by pat_completeness auto
termination
  by (relation "measure (\<lambda>(n, data). length data)") auto

declare chunks_of.simps [simp del]

definition artifact_at ::
    "(string \<Rightarrow> string) \<Rightarrow> datetime \<Rightarrow> string \<Rightarrow> string \<Rightarrow> string \<Rightarrow> datetime option \<Rightarrow> string \<Rightarrow> int
     \<Rightarrow> Artifact" where
  "artifact_at uri now kind access_policy media_type retention_until digest total_bytes = \<lparr>
     art_digest = digest, art_kind = kind, art_size_bytes = total_bytes, art_storage_uri = uri digest,
     art_media_type = media_type, art_access_policy = access_policy,
     art_retention_until = retention_until, art_available = True, art_created_at = now\<rparr>"

text \<open>
  \<open>os.replace(temp_path, target_path)\<close> replaces anything but a directory. \<open>with_conn\<close>: a
  connection was passed; errors of its \<open>INSERT\<close> after the replacement are not represented (the values written
  satisfy the constraints of the table).
\<close>

definition put_stream ::
    "(string \<Rightarrow> string) \<Rightarrow> (string \<Rightarrow> string) \<Rightarrow> datetime \<Rightarrow> store \<Rightarrow> string list \<Rightarrow> int \<Rightarrow> string \<Rightarrow> string
     \<Rightarrow> string \<Rightarrow> datetime option \<Rightarrow> bool \<Rightarrow> Artifact res \<times> store" where
  "put_stream H uri now st stream max_bytes kind access_policy media_type retention_until with_conn =
    (if access_policy \<notin> {''public'', ''restricted'', ''sealed''}
     then (Inl (make_error ValidationError (Some (ec_value EC_VALIDATION_ERROR))), st)
     else case read_stream max_bytes stream 0 [] of
       Inl e \<Rightarrow> (Inl e, st)
     | Inr written \<Rightarrow>
       let digest = lower (H written) in
       (case st_files st digest of
          Some (Symlink _) \<Rightarrow> (Inl (make_error ProtectionError (Some (ec_value EC_PROTECTION_ERROR))), st)
        | Some Directory \<Rightarrow> (Inl (PyExc ''IsADirectoryError'' ''Is a directory''), st)
        | _ \<Rightarrow>
          let artifact = artifact_at uri now kind access_policy media_type retention_until digest
                (int (length written))
          in (Inr artifact, st\<lparr>st_files := (st_files st)(digest \<mapsto> File written),
                st_rows := (if with_conn then register_artifact artifact (st_rows st) else st_rows st)\<rparr>)))"

definition put_bytes ::
    "(string \<Rightarrow> string) \<Rightarrow> (string \<Rightarrow> string) \<Rightarrow> datetime \<Rightarrow> store \<Rightarrow> string \<Rightarrow> int \<Rightarrow> string \<Rightarrow> string
     \<Rightarrow> string \<Rightarrow> datetime option \<Rightarrow> bool \<Rightarrow> Artifact res \<times> store" where
  "put_bytes H uri now st data max_bytes kind access_policy media_type retention_until with_conn =
    (if int (length data) > max_bytes then (artifact_limit, st)
     else put_stream H uri now st (chunks_of CHUNK_SIZE data) max_bytes kind access_policy media_type
       retention_until with_conn)"

section \<open>open\_verified, read\_bytes, exists, get\_path\<close>

definition symlink_rejected :: "'a res" where
  "symlink_rejected = Inl (make_error ProtectionError (Some (ec_value EC_PROTECTION_ERROR)))"

text \<open>The content of the stream that \<open>open_verified\<close> answers, positioned at 0.\<close>

definition open_verified :: "(string \<Rightarrow> string) \<Rightarrow> store \<Rightarrow> string \<Rightarrow> string res" where
  "open_verified H st digest = bind_res (validate_digest digest) (\<lambda>_.
    case st_files st digest of
      Some (Symlink _) \<Rightarrow> symlink_rejected
    | None \<Rightarrow> Inl (make_error InfrastructureError (Some (ec_value EC_INFRASTRUCTURE_ERROR)))
    | Some Directory \<Rightarrow> symlink_rejected
    | Some Special \<Rightarrow> symlink_rejected
    | Some (File bytes) \<Rightarrow>
        if lower (H bytes) \<noteq> digest
        then Inl (make_error InfrastructureError (Some (ec_value EC_DIGEST_MISMATCH)))
        else Inr bytes)"

definition read_bytes :: "(string \<Rightarrow> string) \<Rightarrow> store \<Rightarrow> string \<Rightarrow> string res" where
  "read_bytes H st digest = open_verified H st digest"

definition artifact_exists :: "store \<Rightarrow> string \<Rightarrow> bool" where
  "artifact_exists st digest = (case validate_digest digest of
     Inl _ \<Rightarrow> False
   | Inr _ \<Rightarrow> (case st_files st digest of Some (File _) \<Rightarrow> True | _ \<Rightarrow> False))"

text \<open>The path itself is named by its digest.\<close>

definition get_path :: "store \<Rightarrow> string \<Rightarrow> string res" where
  "get_path st digest = bind_res (validate_digest digest) (\<lambda>_.
    case st_files st digest of Some (Symlink _) \<Rightarrow> symlink_rejected | _ \<Rightarrow> Inr digest)"

section \<open>collect\_outputs\<close>

text \<open>
  What the file system answers for one path below the output directory: whether the path is a
  link, where it resolves to, whether a directory on the way is a link, and what it holds.
\<close>

datatype resolution = Inside | Outside | Unresolvable

record output_view =
  ov_link :: bool
  ov_resolved :: resolution
  ov_link_on_the_way :: bool
  ov_node :: "node option"

record SandboxPolicy =
  sp_policy_hash :: string
  sp_cpus :: pyfloat
  sp_memory_bytes :: int
  sp_pids :: int
  sp_wall_seconds :: int
  sp_cleanup_grace_seconds :: int
  sp_workspace_bytes :: int
  sp_workspace_inodes :: int
  sp_tmp_bytes :: int
  sp_artifact_bytes :: int
  sp_stream_bytes :: int
  sp_artifact_files :: int
  sp_network :: string
  sp_seccomp_digest :: string
  sp_max_jobs :: int
  sp_max_concurrency :: int

text \<open>\<open>stream_limit\<close>, \<open>aggregate_limit\<close> and \<open>file_limit\<close>\<close>

definition collect_limits ::
    "SandboxPolicy option \<Rightarrow> int option \<Rightarrow> int option \<Rightarrow> int option \<Rightarrow> int \<times> int \<times> int" where
  "collect_limits policy max_bytes max_aggregate_bytes max_files = (case policy of
     Some p \<Rightarrow> (sp_stream_bytes p, sp_artifact_bytes p, sp_artifact_files p)
   | None \<Rightarrow>
     let stream_limit = (case max_bytes of Some n \<Rightarrow> n | None \<Rightarrow> 16 * 1024 * 1024)
     in (stream_limit,
         (case max_aggregate_bytes of Some n \<Rightarrow> n | None \<Rightarrow> max (16 * 1024 * 1024) stream_limit),
         (case max_files of Some n \<Rightarrow> n | None \<Rightarrow> 64)))"

text \<open>\<open>PurePath.name\<close> and \<open>suffix\<close>: the last component, and its end from the last dot that
  neither starts nor ends it.\<close>

definition path_name :: "string \<Rightarrow> string" where
  "path_name path = (case rev (filter (\<lambda>s. s \<noteq> [] \<and> s \<noteq> ''.'') (split_on (CHR ''/'') path)) of
     [] \<Rightarrow> [] | name # _ \<Rightarrow> name)"

definition path_suffix :: "string \<Rightarrow> string" where
  "path_suffix name =
    (let tail = rev (takeWhile (\<lambda>c. c \<noteq> CHR ''.'') (rev name)) in
     if tail = [] \<or> Suc (length tail) \<ge> length name then [] else CHR ''.'' # tail)"

definition infer_kind :: "string \<Rightarrow> string \<times> string" where
  "infer_kind path =
    (let name = lower (path_name path); suffix = lower (path_suffix (path_name path)) in
     if suffix = ''.json''
     then (''application/json'', if contains ''report'' name then ''report'' else ''evidence'')
     else if suffix \<in> {''.txt'', ''.log''}
     then (''text/plain'', if contains ''stdout'' name then ''stdout''
            else if contains ''stderr'' name then ''stderr'' else ''evidence'')
     else if suffix \<in> {''.diff'', ''.patch''} then (''text/x-diff'', ''diff'')
     else (''application/octet-stream'', ''evidence''))"

text \<open>
  The loop over the allowlist; \<open>used\<close> and \<open>found\<close> are \<open>total_aggregate_bytes\<close> and
  \<open>collected_files_count\<close>. An exception leaves what was stored before it.
\<close>

fun collect_loop ::
    "(string \<Rightarrow> string) \<Rightarrow> (string \<Rightarrow> string) \<Rightarrow> datetime \<Rightarrow> (string \<Rightarrow> output_view) \<Rightarrow> int \<times> int \<times> int
     \<Rightarrow> string \<Rightarrow> bool \<Rightarrow> string list \<Rightarrow> int \<Rightarrow> int \<Rightarrow> store \<Rightarrow> Artifact list res \<times> store" where
  "collect_loop H uri now view limits access_policy with_conn [] used found st = (Inr [], st)"
| "collect_loop H uri now view limits access_policy with_conn (path # paths) used found st =
    (let (stream_limit, aggregate_limit, file_limit) = limits; v = view path in
     if ov_link v then (symlink_rejected, st)
     else if ov_resolved v \<noteq> Inside then (symlink_rejected, st)
     else if ov_link_on_the_way v then (symlink_rejected, st)
     else (case ov_node v of
       None \<Rightarrow> collect_loop H uri now view limits access_policy with_conn paths used found st
     | Some (File bytes) \<Rightarrow>
       if found + 1 > file_limit then (artifact_limit, st)
       else if used + int (length bytes) > aggregate_limit then (artifact_limit, st)
       else
         let (media_type, kind) = infer_kind path;
             (r, st') = put_stream H uri now st (chunks_of CHUNK_SIZE bytes)
               (min stream_limit (aggregate_limit - used)) kind access_policy media_type None with_conn
         in (case r of Inl e \<Rightarrow> (Inl e, st')
             | Inr artifact \<Rightarrow>
               let (r', st'') = collect_loop H uri now view limits access_policy with_conn paths
                 (used + art_size_bytes artifact) (found + 1) st'
               in (bind_res r' (\<lambda>artifacts. Inr (artifact # artifacts)), st''))
     | Some _ \<Rightarrow> (symlink_rejected, st)))"

definition collect_outputs ::
    "(string \<Rightarrow> string) \<Rightarrow> (string \<Rightarrow> string) \<Rightarrow> datetime \<Rightarrow> (string \<Rightarrow> output_view) \<Rightarrow> string list \<Rightarrow> store
     \<Rightarrow> int option \<Rightarrow> SandboxPolicy option \<Rightarrow> int option \<Rightarrow> int option \<Rightarrow> string \<Rightarrow> bool
     \<Rightarrow> Artifact list res \<times> store" where
  "collect_outputs H uri now view allowed st max_bytes policy max_aggregate_bytes max_files
     access_policy with_conn =
    collect_loop H uri now view (collect_limits policy max_bytes max_aggregate_bytes max_files)
      access_policy with_conn allowed 0 0 st"

section \<open>garbage\_collect\<close>

definition purgeable_rows :: "artifact_row list \<Rightarrow> artifact_row list" where
  "purgeable_rows rows = sort_key aw_digest (filter (\<lambda>r. aw_retention_until r \<noteq> None
     \<and> aw_access_policy r \<noteq> ''sealed'' \<and> aw_available r) rows)"

text \<open>\<open>if target_path.exists(): target_path.unlink()\<close>: nothing happens to a dangling link, and a
  directory cannot be unlinked.\<close>

definition unlink_existing :: "string \<Rightarrow> (string \<Rightarrow> node option) \<Rightarrow> string \<Rightarrow> node option" where
  "unlink_existing digest files =
    (if files digest \<in> {Some Directory, Some (Symlink False)} then files else files(digest := None))"

fun gc_loop :: "bool \<Rightarrow> datetime \<Rightarrow> artifact_row list \<Rightarrow> store \<Rightarrow> string list \<times> store" where
  "gc_loop dry_run now [] st = ([], st)"
| "gc_loop dry_run now (row # rows) st = (case aw_retention_until row of
     Some (Stamp ret_dt) \<Rightarrow>
       if ret_dt \<le> now then
         let digest = aw_digest row;
             st' = (if dry_run then st
               else st\<lparr>st_files := unlink_existing digest (st_files st),
                 st_rows := update_where (\<lambda>r. aw_digest r = digest) (\<lambda>r. r\<lparr>aw_available := False\<rparr>) (st_rows st)\<rparr>);
             (purged, st'') = gc_loop dry_run now rows st'
         in (digest # purged, st'')
       else gc_loop dry_run now rows st
   | _ \<Rightarrow> gc_loop dry_run now rows st)"

definition garbage_collect :: "bool \<Rightarrow> datetime \<Rightarrow> store \<Rightarrow> string list \<times> store" where
  "garbage_collect dry_run now st = gc_loop dry_run now (purgeable_rows (st_rows st)) st"

end
