(* ===== verification/Artifact_Properties.thy ===== *)
theory Artifact_Properties
  imports Artifacts
begin

text \<open>
  What the artifact store promises: stored bytes are read back, bytes that do not hash to their
  digest are never answered, collected outputs keep the limits, and the garbage collector purges
  exactly the expired artifacts that are not sealed.
\<close>

section \<open>Chunks\<close>

lemma chunks_of_spec:
  "0 < n \<Longrightarrow> concat (chunks_of n data) = data \<and> [] \<notin> set (chunks_of n data)
    \<and> (chunks_of n data = [] \<longleftrightarrow> data = [])"
proof (induction n data rule: chunks_of.induct)
  case (1 n data)
  then show ?case by (subst (1 2 3) chunks_of.simps) auto
qed

lemma read_stream_spec:
  assumes "[] \<notin> set chunks"
  shows "read_stream max_bytes chunks used written =
    (if chunks \<noteq> [] \<and> used + int (length (concat chunks)) > max_bytes then artifact_limit
     else Inr (written @ concat chunks))"
  using assms by (induction max_bytes chunks used written rule: read_stream.induct) auto

lemma read_chunks:
  "read_stream max_bytes (chunks_of CHUNK_SIZE data) 0 [] =
    (if data \<noteq> [] \<and> int (length data) > max_bytes then artifact_limit else Inr data)"
  using chunks_of_spec [of CHUNK_SIZE data] by (subst read_stream_spec) (auto simp: CHUNK_SIZE_def)

section \<open>Storing\<close>

definition good_policy :: "string \<Rightarrow> bool" where
  "good_policy p \<longleftrightarrow> p \<in> {''public'', ''restricted'', ''sealed''}"

text \<open>A link or a directory lies where the bytes belong.\<close>

definition obstructed :: "store \<Rightarrow> string \<Rightarrow> bool" where
  "obstructed st digest \<longleftrightarrow> (case st_files st digest of
     Some (Symlink _) \<Rightarrow> True | Some Directory \<Rightarrow> True | _ \<Rightarrow> False)"

text \<open>The store after the bytes were put.\<close>

definition stored :: "store \<Rightarrow> Artifact \<Rightarrow> string \<Rightarrow> bool \<Rightarrow> store" where
  "stored st artifact data with_conn = st\<lparr>st_files := (st_files st)(art_digest artifact \<mapsto> File data),
     st_rows := (if with_conn then register_artifact artifact (st_rows st) else st_rows st)\<rparr>"

lemma put_chunks:
  "put_stream H uri now st (chunks_of CHUNK_SIZE data) max_bytes kind policy media retention with_conn =
    (let artifact = artifact_at uri now kind policy media retention (lower (H data)) (int (length data)) in
     if \<not> good_policy policy then (Inl (make_error ValidationError (Some (ec_value EC_VALIDATION_ERROR))), st)
     else if data \<noteq> [] \<and> int (length data) > max_bytes then (artifact_limit, st)
     else if obstructed st (lower (H data))
     then (if st_files st (lower (H data)) = Some Directory then Inl (PyExc ''IsADirectoryError'' ''Is a directory'')
           else Inl (make_error ProtectionError (Some (ec_value EC_PROTECTION_ERROR))), st)
     else (Inr artifact, stored st artifact data with_conn))"
proof -
  note defs = put_stream_def good_policy_def obstructed_def stored_def artifact_at_def artifact_limit_def Let_def
  show ?thesis
  proof (cases "data \<noteq> [] \<and> int (length data) > max_bytes")
    case True
    then show ?thesis by (simp add: defs read_chunks)
  next
    case False
    then have read: "read_stream max_bytes (chunks_of CHUNK_SIZE data) 0 [] = Inr data" by (simp only: read_chunks if_False)
    show ?thesis
    proof (cases "st_files st (lower (H data))")
      case None
      then show ?thesis using False by (simp add: defs read del: de_Morgan_conj)
    next
      case (Some f)
      then show ?thesis using False by (cases f) (simp_all add: defs read del: de_Morgan_conj)
    qed
  qed
qed

lemma put_bytes_cases:
  "put_bytes H uri now st data max_bytes kind policy media retention with_conn =
    (let artifact = artifact_at uri now kind policy media retention (lower (H data)) (int (length data)) in
     if int (length data) > max_bytes then (artifact_limit, st)
     else if \<not> good_policy policy then (Inl (make_error ValidationError (Some (ec_value EC_VALIDATION_ERROR))), st)
     else if obstructed st (lower (H data))
     then (if st_files st (lower (H data)) = Some Directory then Inl (PyExc ''IsADirectoryError'' ''Is a directory'')
           else Inl (make_error ProtectionError (Some (ec_value EC_PROTECTION_ERROR))), st)
     else (Inr artifact, stored st artifact data with_conn))"
  unfolding put_bytes_def put_chunks by (simp add: Let_def)

lemma put_bytes_InrD:
  assumes "put_bytes H uri now st data max_bytes kind policy media retention with_conn = (Inr a, st')"
  shows "a = artifact_at uri now kind policy media retention (lower (H data)) (int (length data))"
    and "st' = stored st a data with_conn" and "int (length data) \<le> max_bytes"
  using assms unfolding put_bytes_cases Let_def artifact_limit_def by (auto split: if_splits)

lemma open_verified_Inr_iff:
  "open_verified H st digest = Inr bytes \<longleftrightarrow>
    valid_digest digest \<and> st_files st digest = Some (File bytes) \<and> lower (H bytes) = digest"
  by (auto simp: open_verified_def validate_digest_def symlink_rejected_def split: option.splits node.splits)

lemma register_artifact_row:
  "map_option aw_available (lookup_row aw_digest (register_artifact a rows) (art_digest a)) = Some True"
  by (cases "lookup_row aw_digest rows (art_digest a)")
    (auto simp: register_artifact_def table_simps row_of_artifact_def keeps_key_def split: option.splits
      dest: lookup_row_SomeD)

text \<open>
  C25. Bytes are stored under their own hash and read back unchanged. \<open>put_bytes\<close> answers an
  artifact exactly when the size is within the limit, the access policy is one of the three and
  neither a link nor a directory lies in the way; it then touches no other digest, and with a
  connection the digest has an available row (of the other rows nothing is said). In every other case the store is unchanged. The
  hypothesis is that digests are 64 lower-case hexadecimal characters.
\<close>

theorem stored_bytes_read_back:
  assumes "\<And>bytes. valid_digest (lower (H bytes))"
  shows "case put_bytes H uri now st data max_bytes kind policy media retention with_conn of
     (Inl e, st') \<Rightarrow> st' = st \<and> (int (length data) > max_bytes \<or> obstructed st (lower (H data)) \<or> \<not> good_policy policy)
   | (Inr a, st') \<Rightarrow> int (length data) \<le> max_bytes \<and> good_policy policy \<and> \<not> obstructed st (lower (H data))
       \<and> art_digest a = lower (H data) \<and> art_size_bytes a = int (length data)
       \<and> read_bytes H st' (art_digest a) = Inr data \<and> artifact_exists st' (art_digest a)
       \<and> (st_files st')(art_digest a := None) = (st_files st)(art_digest a := None)
       \<and> (if with_conn then map_option aw_available (lookup_row aw_digest (st_rows st') (art_digest a)) = Some True
          else st_rows st' = st_rows st)"
proof -
  let ?a = "artifact_at uri now kind policy media retention (lower (H data)) (int (length data))"
  have "read_bytes H (stored st ?a data with_conn) (lower (H data)) = Inr data"
    and "artifact_exists (stored st ?a data with_conn) (lower (H data))"
    using assms by (simp_all add: read_bytes_def open_verified_Inr_iff artifact_exists_def validate_digest_def
      stored_def artifact_at_def)
  moreover have "art_digest ?a = lower (H data)" "art_size_bytes ?a = int (length data)"
    by (simp_all add: artifact_at_def)
  ultimately show ?thesis
    using register_artifact_row [of ?a "st_rows st"]
    unfolding put_bytes_cases Let_def artifact_limit_def by (auto simp: stored_def)
qed

definition ex_digest :: "string \<Rightarrow> string" where
  "ex_digest bytes = (if bytes = ''x'' then replicate 64 (CHR ''1'') else replicate 64 (CHR ''0''))"

lemma ex_digest_valid: "lower (ex_digest bytes) = ex_digest bytes" "valid_digest (ex_digest bytes)"
proof -
  have "lower (replicate 64 (CHR ''1'')) = replicate 64 (CHR ''1'')"
    "lower (replicate 64 (CHR ''0'')) = replicate 64 (CHR ''0'')" by code_simp+
  then show "lower (ex_digest bytes) = ex_digest bytes" by (simp add: ex_digest_def)
  show "valid_digest (ex_digest bytes)" by (simp add: ex_digest_def valid_digest_def list_all_iff)
qed

definition empty_store :: store where
  "empty_store = \<lparr>st_files = Map.empty, st_rows = []\<rparr>"

theorem stored_bytes_read_back_witness:
  "\<exists>a st'. put_bytes ex_digest id 0 empty_store ''x'' 5 ''stdout'' ''restricted'' ''text/plain'' None True = (Inr a, st')
    \<and> read_bytes ex_digest st' (art_digest a) = Inr ''x''"
proof -
  have "fst (put_bytes ex_digest id 0 empty_store ''x'' 5 ''stdout'' ''restricted'' ''text/plain'' None True)
      = Inr (artifact_at id 0 ''stdout'' ''restricted'' ''text/plain'' None (ex_digest ''x'') 1)"
    unfolding put_bytes_cases by (simp add: Let_def good_policy_def obstructed_def empty_store_def ex_digest_valid)
  then show ?thesis
    using stored_bytes_read_back [where H = ex_digest and uri = id and now = 0 and st = empty_store and data = "''x''"
        and max_bytes = 5 and kind = "''stdout''" and policy = "''restricted''" and media = "''text/plain''"
        and retention = None and with_conn = True]
    by (auto simp: ex_digest_valid split: prod.splits sum.splits)
qed

section \<open>Integrity\<close>

text \<open>
  C26. Tampering is detected. Whatever happens to the files after bytes were stored, a later
  verified read of their digest answers these bytes or one of three errors: not found,
  a digest mismatch, or a protection error for a path that is no regular file. The hypotheses are
  the form of the digests and that nothing else hashes to the digest of these bytes.
\<close>

theorem tampering_is_detected:
  assumes "put_bytes H uri now st data max_bytes kind policy media retention with_conn = (Inr a, st')"
    and "\<And>bytes. valid_digest (lower (H bytes))"
    and "\<And>bytes. lower (H bytes) = lower (H data) \<Longrightarrow> bytes = data"
  shows "read_bytes H tampered (art_digest a) =
    (case st_files tampered (art_digest a) of
       None \<Rightarrow> Inl (make_error InfrastructureError (Some ''INFRASTRUCTURE_ERROR''))
     | Some (File bytes) \<Rightarrow> if bytes = data then Inr data
         else Inl (make_error InfrastructureError (Some ''DIGEST_MISMATCH''))
     | Some _ \<Rightarrow> Inl (make_error ProtectionError (Some ''PROTECTION_ERROR'')))"
proof -
  have "art_digest a = lower (H data)"
    using put_bytes_InrD(1) [OF assms(1)] by (simp add: artifact_at_def)
  then show ?thesis
    using assms(2) [of data] assms(3)
    by (auto simp: read_bytes_def open_verified_def validate_digest_def symlink_rejected_def
      split: option.splits node.splits)
qed

theorem tampering_is_detected_witness:
  "read_bytes ex_digest \<lparr>st_files = [ex_digest ''x'' \<mapsto> File ''y''], st_rows = []\<rparr> (ex_digest ''x'')
    = Inl (make_error InfrastructureError (Some ''DIGEST_MISMATCH''))"
proof -
  let ?a = "artifact_at id 0 ''stdout'' ''restricted'' ''text/plain'' None (ex_digest ''x'') 1"
  have put: "put_bytes ex_digest id 0 empty_store ''x'' 5 ''stdout'' ''restricted'' ''text/plain'' None True
      = (Inr ?a, stored empty_store ?a ''x'' True)"
    unfolding put_bytes_cases by (simp add: Let_def good_policy_def obstructed_def empty_store_def ex_digest_valid)
  have only: "lower (ex_digest bytes) = lower (ex_digest ''x'') \<Longrightarrow> bytes = ''x''" for bytes
    unfolding ex_digest_valid(1) by (auto simp: ex_digest_def split: if_splits dest: arg_cong [where f = hd])
  show ?thesis
    using tampering_is_detected [OF put _ only, of "\<lparr>st_files = [ex_digest ''x'' \<mapsto> File ''y''], st_rows = []\<rparr>"]
    by (simp add: ex_digest_valid artifact_at_def)
qed

section \<open>Collected outputs\<close>

text \<open>The regular files of the allowlist, in its order.\<close>

definition output_files :: "(string \<Rightarrow> output_view) \<Rightarrow> string list \<Rightarrow> string list" where
  "output_files view allowed = concat (map (\<lambda>p. case ov_node (view p) of Some (File b) \<Rightarrow> [b] | _ \<Rightarrow> []) allowed)"

text \<open>No link, inside the directory, and a regular file if anything.\<close>

definition plain_output :: "output_view \<Rightarrow> bool" where
  "plain_output v \<longleftrightarrow> \<not> ov_link v \<and> ov_resolved v = Inside \<and> \<not> ov_link_on_the_way v
     \<and> (case ov_node v of None \<Rightarrow> True | Some (File _) \<Rightarrow> True | _ \<Rightarrow> False)"

definition holds_digest :: "(string \<Rightarrow> string) \<Rightarrow> store \<Rightarrow> string \<Rightarrow> bool" where
  "holds_digest H st d \<longleftrightarrow> (\<exists>b. st_files st d = Some (File b) \<and> lower (H b) = d)"

lemma holds_digest_stored:
  "holds_digest H st d \<Longrightarrow> art_digest a = lower (H data) \<Longrightarrow> holds_digest H (stored st a data c) d"
  by (auto simp: holds_digest_def stored_def)

lemma put_chunks_InrD:
  assumes "put_stream H uri now st (chunks_of CHUNK_SIZE data) max_bytes kind policy media retention with_conn
    = (Inr a, st')"
  shows "art_digest a = lower (H data)" and "art_size_bytes a = int (length data)"
    and "data = [] \<or> int (length data) \<le> max_bytes"
    and "st' = stored st a data with_conn"
  using assms unfolding put_chunks Let_def artifact_limit_def by (auto simp: artifact_at_def split: if_splits)

lemma collect_loop_spec:
  assumes "collect_loop H uri now view (slimit, alimit, flimit) policy with_conn allowed used found st = (Inr arts, st')"
    and "used \<le> max 0 alimit" and "found \<le> max 0 flimit"
  shows "list_all (plain_output \<circ> view) allowed
    \<and> map art_digest arts = map (\<lambda>b. lower (H b)) (output_files view allowed)
    \<and> map art_size_bytes arts = map (\<lambda>b. int (length b)) (output_files view allowed)
    \<and> list_all (\<lambda>a. holds_digest H st' (art_digest a)) arts
    \<and> list_all (\<lambda>a. art_size_bytes a \<le> max 0 slimit) arts
    \<and> used + sum_list (map art_size_bytes arts) \<le> max 0 alimit
    \<and> found + int (length arts) \<le> max 0 flimit
    \<and> (\<forall>d. holds_digest H st d \<longrightarrow> holds_digest H st' d)"
  using assms
proof (induction allowed arbitrary: used found st arts)
  case Nil
  then show ?case by (simp add: output_files_def)
next
  case (Cons path paths)
  let ?v = "view path"
  have ok: "\<not> ov_link ?v" "ov_resolved ?v = Inside" "\<not> ov_link_on_the_way ?v"
    using Cons.prems(1) by (simp_all add: symlink_rejected_def Let_def split: if_splits)
  show ?case
  proof (cases "ov_node ?v")
    case None
    then have "collect_loop H uri now view (slimit, alimit, flimit) policy with_conn paths used found st = (Inr arts, st')"
      using Cons.prems(1) ok by simp
    note IH = Cons.IH [OF this Cons.prems(2,3)]
    have skip: "output_files view (path # paths) = output_files view paths"
      "list_all (plain_output \<circ> view) (path # paths) \<longleftrightarrow> list_all (plain_output \<circ> view) paths"
      using None ok by (simp_all add: plain_output_def output_files_def)
    show ?thesis unfolding skip by (rule IH)
  next
    case (Some node)
    then obtain bytes where node: "ov_node ?v = Some (File bytes)"
      using Cons.prems(1) ok by (cases node) (auto simp: symlink_rejected_def)
    obtain media kind where kind: "infer_kind path = (media, kind)" by fastforce
    obtain r st1 where put: "put_stream H uri now st (chunks_of CHUNK_SIZE bytes) (min slimit (alimit - used)) kind
        policy media None with_conn = (r, st1)" by fastforce
    have limits: "found + 1 \<le> flimit" "used + int (length bytes) \<le> alimit"
      using Cons.prems(1) ok node by (auto simp: artifact_limit_def split: if_splits)
    obtain a where r: "r = Inr a"
      using Cons.prems(1) ok node kind put limits by (cases r) auto
    note a = put_chunks_InrD [OF put [unfolded r]]
    obtain arts' where rest: "collect_loop H uri now view (slimit, alimit, flimit) policy with_conn paths
          (used + art_size_bytes a) (found + 1) st1 = (Inr arts', st')" and arts: "arts = a # arts'"
      using Cons.prems(1) ok node kind put limits r
      by (auto simp: bind_res_Inr_iff split: prod.splits)
    have "used + art_size_bytes a \<le> max 0 alimit" "found + 1 \<le> max 0 flimit"
      using limits a(2) by auto
    note IH = Cons.IH [OF rest this]
    have "holds_digest H st1 (art_digest a)"
      by (simp add: a(1,4) holds_digest_def stored_def)
    moreover have "holds_digest H st d \<Longrightarrow> holds_digest H st1 d" for d
      using holds_digest_stored [where a = a and data = bytes] a(1) by (simp add: a(4))
    moreover have "art_size_bytes a \<le> max 0 slimit"
      using a(2,3) by auto
    ultimately show ?thesis
      using IH ok node arts a(1,2) by (auto simp: plain_output_def output_files_def)
  qed
qed

text \<open>
  C27. Collected outputs. When \<open>collect_outputs\<close> answers, no path of the allowlist was a link, led
  outside or to something that is not a regular file; the artifacts are those of the existing files in
  the order of the allowlist, each stored under its hash; and the limits hold: every size is within
  the stream limit, their sum within the aggregate limit, their number within the file limit.
\<close>

theorem collected_outputs_within_limits:
  assumes "collect_outputs H uri now view allowed st max_bytes policy max_aggregate max_files access with_conn
      = (Inr arts, st')"
  shows "(let (stream_limit, aggregate_limit, file_limit) = collect_limits policy max_bytes max_aggregate max_files in
      list_all (\<lambda>a. art_size_bytes a \<le> max 0 stream_limit) arts
      \<and> sum_list (map art_size_bytes arts) \<le> max 0 aggregate_limit
      \<and> int (length arts) \<le> max 0 file_limit)
    \<and> list_all (plain_output \<circ> view) allowed
    \<and> map art_digest arts = map (\<lambda>b. lower (H b)) (output_files view allowed)
    \<and> map art_size_bytes arts = map (\<lambda>b. int (length b)) (output_files view allowed)
    \<and> list_all (\<lambda>a. holds_digest H st' (art_digest a)) arts"
proof -
  obtain s a f where limits: "collect_limits policy max_bytes max_aggregate max_files = (s, a, f)"
    by (cases "collect_limits policy max_bytes max_aggregate max_files") auto
  have "collect_loop H uri now view (s, a, f) access with_conn allowed 0 0 st = (Inr arts, st')"
    using assms unfolding collect_outputs_def limits .
  moreover have "0 \<le> max 0 a" "0 \<le> max 0 f" by simp_all
  ultimately show ?thesis
    using collect_loop_spec [of H uri now view s a f access with_conn allowed 0 0 st arts st']
    unfolding limits Let_def prod.case add_0 by blast
qed

definition ex_view :: "string \<Rightarrow> output_view" where
  "ex_view path = \<lparr>ov_link = False, ov_resolved = Inside, ov_link_on_the_way = False,
     ov_node = (if path = ''report.json'' then Some (File ''x'') else None)\<rparr>"

theorem collected_outputs_within_limits_witness:
  "\<exists>a st'. collect_outputs ex_digest id 0 ex_view [''report.json'', ''absent''] empty_store (Some 4) None None None
      ''restricted'' False = (Inr [a], st') \<and> holds_digest ex_digest st' (art_digest a) \<and> art_size_bytes a \<le> 4"
proof -
  have "chunks_of CHUNK_SIZE ''x'' = [''x'']"
    by (subst chunks_of.simps, simp add: CHUNK_SIZE_def, subst chunks_of.simps, simp)
  then have run: "\<exists>a st'. collect_outputs ex_digest id 0 ex_view [''report.json'', ''absent''] empty_store (Some 4) None None None
      ''restricted'' False = (Inr [a], st')"
    by (simp add: collect_outputs_def collect_limits_def ex_view_def put_stream_def empty_store_def Let_def
      split: prod.splits)
  then show ?thesis
    using collected_outputs_within_limits [where H = ex_digest and uri = id and now = 0 and view = ex_view
        and allowed = "[''report.json'', ''absent'']" and st = empty_store and max_bytes = "Some 4" and policy = None
        and max_aggregate = None and max_files = None and access = "''restricted''" and with_conn = False]
    by (fastforce simp: collect_limits_def Let_def)
qed

section \<open>Garbage collection\<close>

text \<open>The rows a collection at \<open>now\<close> purges.\<close>

definition expired_row :: "datetime \<Rightarrow> artifact_row \<Rightarrow> bool" where
  "expired_row now r \<longleftrightarrow> aw_available r \<and> aw_access_policy r \<noteq> ''sealed''
     \<and> (case aw_retention_until r of Some (Stamp t) \<Rightarrow> t \<le> now | _ \<Rightarrow> False)"

definition due :: "datetime \<Rightarrow> artifact_row \<Rightarrow> bool" where
  "due now r \<longleftrightarrow> (case aw_retention_until r of Some (Stamp t) \<Rightarrow> t \<le> now | _ \<Rightarrow> False)"

definition purge :: "string list \<Rightarrow> store \<Rightarrow> store" where
  "purge ds st = st\<lparr>st_files := (\<lambda>d. if d \<in> set ds then unlink_existing d (st_files st) d else st_files st d),
     st_rows := update_where (\<lambda>r. aw_digest r \<in> set ds) (\<lambda>r. r\<lparr>aw_available := False\<rparr>) (st_rows st)\<rparr>"

lemma unlink_existing_at:
  "unlink_existing d files = files(d := unlink_existing d files d)"
  "files d = files' d \<Longrightarrow> unlink_existing d files d = unlink_existing d files' d"
  by (auto simp: unlink_existing_def)

lemma purge_Cons:
  assumes "d \<notin> set ds"
  shows "purge ds (st\<lparr>st_files := unlink_existing d (st_files st),
      st_rows := update_where (\<lambda>r. aw_digest r = d) (\<lambda>r. r\<lparr>aw_available := False\<rparr>) (st_rows st)\<rparr>) = purge (d # ds) st"
proof -
  have files: "(if x \<in> set ds then unlink_existing x (unlink_existing d files) x else unlink_existing d files x)
      = (if x \<in> set (d # ds) then unlink_existing x files x else files x)" for x files
    using assms by (auto simp: unlink_existing_def)
  have rows: "update_where (\<lambda>r. aw_digest r \<in> set ds) (\<lambda>r. r\<lparr>aw_available := False\<rparr>)
        (update_where (\<lambda>r. aw_digest r = d) (\<lambda>r. r\<lparr>aw_available := False\<rparr>) rows)
      = update_where (\<lambda>r. aw_digest r \<in> set (d # ds)) (\<lambda>r. r\<lparr>aw_available := False\<rparr>) rows" for rows
    by (induction rows) auto
  show ?thesis
    by (cases st) (simp add: purge_def files rows cong: if_cong)
qed

lemma gc_loop_spec:
  "distinct (map aw_digest rows) \<Longrightarrow> gc_loop dry_run now rows st
    = (map aw_digest (filter (due now) rows),
       if dry_run then st else purge (map aw_digest (filter (due now) rows)) st)"
proof (induction rows arbitrary: st)
  case Nil
  show ?case by (simp add: purge_def update_where_none)
next
  case (Cons row rows)
  have new: "aw_digest row \<notin> set (map aw_digest (filter (due now) rows))"
    using Cons.prems by auto
  show ?case
  proof (cases "due now row")
    case True
    then obtain t where "aw_retention_until row = Some (Stamp t)" "t \<le> now"
      by (auto simp: due_def split: option.splits stamp.splits)
    with True Cons.IH Cons.prems purge_Cons [OF new] show ?thesis by (simp add: Let_def)
  next
    case False
    then have "gc_loop dry_run now (row # rows) st = gc_loop dry_run now rows st"
      by (auto simp: due_def split: option.splits stamp.splits)
    with False Cons.IH Cons.prems show ?thesis by simp
  qed
qed

lemma purgeable_due:
  "filter (due now) (purgeable_rows rows) = sort_key aw_digest (filter (expired_row now) rows)"
proof -
  have "(\<lambda>r. (aw_retention_until r \<noteq> None \<and> aw_access_policy r \<noteq> ''sealed'' \<and> aw_available r) \<and> due now r)
      = expired_row now"
    by (auto simp: fun_eq_iff expired_row_def due_def split: option.splits stamp.splits)
  then show ?thesis by (simp add: purgeable_rows_def filter_sort conj_commute)
qed

text \<open>
  C28. The garbage collector purges exactly the expired artifacts. It answers, in order, the digests of
  the available rows that are not sealed and whose retention ended by \<open>now\<close>; a dry run changes
  nothing; otherwise these rows become unavailable, their files are unlinked (a missing file is no error, as in \<open>unlink_existing\<close>), and no other row or file
  changes, so sealed artifacts and unreadable retention dates are never touched. The hypothesis is the
  primary key of the table.
\<close>

theorem gc_purges_exactly_expired:
  assumes "distinct (map aw_digest (st_rows st))"
  shows "(let (purged, st') = garbage_collect dry_run now st in
    purged = sort (map aw_digest (filter (expired_row now) (st_rows st)))
    \<and> (if dry_run then st' = st
       else st_rows st' = map (\<lambda>r. if expired_row now r then r\<lparr>aw_available := False\<rparr> else r) (st_rows st)
         \<and> st_files st' = (\<lambda>d. if d \<in> set purged then unlink_existing d (st_files st) d else st_files st d)))"
proof -
  let ?gone = "sort_key aw_digest (filter (expired_row now) (st_rows st))"
  have distinct: "distinct (map aw_digest (purgeable_rows (st_rows st)))"
    using assms by (simp add: purgeable_rows_def distinct_map inj_on_def)
  have gc: "garbage_collect dry_run now st = (map aw_digest ?gone, if dry_run then st else purge (map aw_digest ?gone) st)"
    unfolding garbage_collect_def gc_loop_spec [OF distinct] purgeable_due ..
  have sorted: "map aw_digest ?gone = sort (map aw_digest (filter (expired_row now) (st_rows st)))"
    by (rule properties_for_sort [symmetric]) simp_all
  have "aw_digest r \<in> set (map aw_digest ?gone) \<longleftrightarrow> expired_row now r" if "r \<in> set (st_rows st)" for r
    using that assms by (auto simp: distinct_map dest: inj_onD)
  then have rows: "update_where (\<lambda>r. aw_digest r \<in> set (map aw_digest ?gone)) f (st_rows st)
      = map (\<lambda>r. if expired_row now r then f r else r) (st_rows st)" for f
    by (auto simp: update_where_def)
  show ?thesis
    unfolding gc Let_def prod.case sorted [symmetric] by (simp add: purge_def rows del: set_map)
qed

definition ex_row :: "string \<Rightarrow> string \<Rightarrow> datetime \<Rightarrow> artifact_row" where
  "ex_row digest policy until = \<lparr>aw_digest = digest, aw_kind = ''stdout'', aw_size_bytes = 1, aw_storage_uri = digest,
     aw_media_type = ''text/plain'', aw_access_policy = policy, aw_retention_until = Some (Stamp until),
     aw_available = True, aw_created_at = 0\<rparr>"

theorem gc_purges_exactly_expired_witness:
  "fst (garbage_collect False 10 \<lparr>st_files = Map.empty,
     st_rows = [ex_row ''c'' ''public'' 5, ex_row ''b'' ''sealed'' 5, ex_row ''a'' ''public'' 10, ex_row ''d'' ''public'' 11]\<rparr>)
   = [''a'', ''c'']"
  using gc_purges_exactly_expired [of "\<lparr>st_files = Map.empty,
     st_rows = [ex_row ''c'' ''public'' 5, ex_row ''b'' ''sealed'' 5, ex_row ''a'' ''public'' 10, ex_row ''d'' ''public'' 11]\<rparr>"
     False 10]
  by (simp add: ex_row_def expired_row_def split: prod.splits)

end
