(* ===== verification/Worker.thy ===== *)
theory Worker
  imports Queue Outcomes Registry Sandbox Artifacts
begin

text \<open>
  The execution worker: \<open>src/src/verifierci/execution/worker.py\<close>. \<open>run_one\<close> claims a job, resolves its
  inputs, prepares the workspace, runs the build and the verifier, stores the evidence, classifies
  the outcome and submits the attempt to the fenced queue.

  What surrounds one call is a record of answers: the clock, the UUIDs, \<open>git\<close>, the processes and the
  file system, and what other connections do to the database. Since every queue operation is one
  \<open>BEGIN IMMEDIATE\<close> transaction, the others act between two transactions of the worker:
  \<open>s_others n\<close> is their effect before its \<open>n\<close>-th one. The processes are assumed to leave the
  \<open>capture\<close> directory alone.
\<close>

section \<open>Configuration and surroundings\<close>

text \<open>A resolver is a callable, a mapping, or absent.\<close>

datatype 'a resolver = Callable "string \<Rightarrow> 'a res" | Table "(string \<times> 'a) list" | No_resolver

record worker =
  wk_worker_id :: string
  wk_work_dir :: string
  wk_snapshot_resolver :: "string resolver"
  wk_diff_resolver :: "string resolver"
  wk_manifest_resolver :: "VerifierManifest resolver"
  wk_lease_duration_ms :: int

text \<open>
  \<open>s_archive_uri\<close>, \<open>s_diff_digest\<close> and \<open>s_manifest_row\<close> are the three SELECTs over tables that
  never change (the manifest with its JSON columns decoded, or the exception of \<open>json.loads\<close>).
\<close>

record surroundings =
  s_now_ms :: int
  s_fresh :: "nat \<Rightarrow> string \<times> string"
  s_uuid :: string
  s_others :: "nat \<Rightarrow> db \<Rightarrow> db"
  s_running_ms :: int
  s_beats_ms :: "int list"
  s_complete_ms :: int
  s_started_at :: datetime
  s_finished_at :: datetime
  s_stored_at :: datetime
  s_archive_uri :: "string \<Rightarrow> string option"
  s_diff_digest :: "string \<Rightarrow> string option"
  s_manifest_row :: "string \<Rightarrow> VerifierManifest res option"
  s_is_dir :: "string \<Rightarrow> bool"
  s_snapshot :: "string \<Rightarrow> (string \<times> snapshot_entry) list"
  s_git :: "git_mode \<Rightarrow> tree \<Rightarrow> string \<Rightarrow> git_result"
  s_environ :: "string \<Rightarrow> string option"
  s_build_spawn :: "string list \<Rightarrow> string \<Rightarrow> (string \<Rightarrow> string option) \<Rightarrow> int \<Rightarrow> spawned"
  s_build_elapsed :: pyfloat
  s_build_report :: "string \<Rightarrow> string option"
  s_test_spawn :: "string list \<Rightarrow> string \<Rightarrow> (string \<Rightarrow> string option) \<Rightarrow> int \<Rightarrow> spawned"
  s_test_elapsed :: pyfloat
  s_test_report :: "string \<Rightarrow> string option"

text \<open>The library: \<open>sha256\<close>, resolved paths of artifacts, \<open>json.loads\<close> and \<open>float\<close>.\<close>

record library =
  lib_H :: "string \<Rightarrow> string"
  lib_uri :: "string \<Rightarrow> string"
  lib_loads :: "string \<Rightarrow> json res"
  lib_float_str :: "string \<Rightarrow> pyfloat option"

text \<open>What a worker acts on: the database, the artifact store and the attempt directories.\<close>

record world =
  w_db :: db
  w_store :: store
  w_dirs :: "string \<Rightarrow> tree option"

text \<open>Statements in sequence: an exception ends them and keeps the world it left.\<close>

definition then_do :: "'a res \<times> 'w \<Rightarrow> ('a \<Rightarrow> 'w \<Rightarrow> 'b res \<times> 'w) \<Rightarrow> 'b res \<times> 'w" where
  "then_do rw f = (case rw of (Inl e, w) \<Rightarrow> (Inl e, w) | (Inr x, w) \<Rightarrow> f x w)"

lemma then_do_simps [simp]:
  "then_do (Inl e, w) f = (Inl e, w)"
  "then_do (Inr x, w) f = f x w"
  by (simp_all add: then_do_def)

text \<open>A transaction of the worker, after what the other connections did.\<close>

definition on_db :: "(db \<Rightarrow> db) \<Rightarrow> (db \<Rightarrow> 'a res \<times> db) \<Rightarrow> world \<Rightarrow> 'a res \<times> world" where
  "on_db others operation w = (let (r, db') = operation (others (w_db w)) in (r, w\<lparr>w_db := db'\<rparr>))"

section \<open>Resolution of the inputs\<close>

definition look_up :: "'a resolver \<Rightarrow> string \<Rightarrow> 'a res \<Rightarrow> 'a res" where
  "look_up resolver key fallback = (case resolver of
     Callable f \<Rightarrow> f key
   | Table t \<Rightarrow> (case map_of t key of Some v \<Rightarrow> Inr v | None \<Rightarrow> fallback)
   | No_resolver \<Rightarrow> fallback)"

definition validation_error :: "'a res" where
  "validation_error = Inl (make_error ValidationError (Some (ec_value EC_VALIDATION_ERROR)))"

definition default_snapshot :: "worker \<Rightarrow> surroundings \<Rightarrow> string \<Rightarrow> string" where
  "default_snapshot wk s task_key = (case s_archive_uri s task_key of
     Some (c # cs) \<Rightarrow> if prefix ''file://'' (c # cs) then drop 7 (c # cs) else c # cs
   | _ \<Rightarrow> wk_work_dir wk @ ''/snapshots/'' @ task_key)"

definition resolve_snapshot :: "worker \<Rightarrow> surroundings \<Rightarrow> string \<Rightarrow> string res" where
  "resolve_snapshot wk s task_key =
    bind_res (look_up (wk_snapshot_resolver wk) task_key (Inr (default_snapshot wk s task_key)))
      (\<lambda>p. if s_is_dir s p then Inr p else validation_error)"

text \<open>A resolver answers bytes; \<open>str(val).encode()\<close> of other values is excluded by the types.\<close>

definition resolve_diff :: "library \<Rightarrow> worker \<Rightarrow> surroundings \<Rightarrow> store \<Rightarrow> string \<Rightarrow> string res" where
  "resolve_diff lib wk s st case_id = look_up (wk_diff_resolver wk) case_id
    (case s_diff_digest s case_id of
       Some (c # cs) \<Rightarrow> if artifact_exists st (c # cs) then read_bytes (lib_H lib) st (c # cs) else validation_error
     | _ \<Rightarrow> Inr [])"

text \<open>\<open>Path(p).is_absolute() or ".." in Path(p).parts\<close>\<close>

definition path_escapes :: "string \<Rightarrow> bool" where
  "path_escapes p \<longleftrightarrow> prefix ''/'' p \<or> ''..'' \<in> set (split_on (CHR ''/'') p)"

definition resolve_manifest :: "worker \<Rightarrow> surroundings \<Rightarrow> string \<Rightarrow> VerifierManifest res" where
  "resolve_manifest wk s verifier_key =
    bind_res (look_up (wk_manifest_resolver wk) verifier_key
        (case s_manifest_row s verifier_key of None \<Rightarrow> Inl (make_error InfrastructureError None) | Some r \<Rightarrow> r))
      (\<lambda>manifest. if path_escapes (vm_report_path manifest) then validation_error else Inr manifest)"

definition resolve_inputs ::
    "library \<Rightarrow> worker \<Rightarrow> surroundings \<Rightarrow> store \<Rightarrow> Job \<Rightarrow> (string \<times> string \<times> VerifierManifest) res" where
  "resolve_inputs lib wk s st job =
    bind_res (resolve_snapshot wk s (j_task_key job)) (\<lambda>snapshot_dir.
    bind_res (resolve_diff lib wk s st (j_case_id job)) (\<lambda>diff_bytes.
    bind_res (resolve_manifest wk s (j_verifier_key job)) (\<lambda>manifest.
    Inr (snapshot_dir, diff_bytes, manifest))))"

section \<open>The heartbeat thread\<close>

text \<open>
  Beats at the given times while the others act in between; the first exception ends the thread,
  and a lost lease sets the event. The answer is \<open>current_job\<close>, the event and the database.
\<close>

fun heartbeats :: "(nat \<Rightarrow> db \<Rightarrow> db) \<Rightarrow> int \<Rightarrow> nat \<Rightarrow> int list \<Rightarrow> Job \<Rightarrow> db \<Rightarrow> Job \<times> bool \<times> db" where
  "heartbeats others extension n [] job db = (job, False, db)"
| "heartbeats others extension n (hb_time # later) job db =
    (case heartbeat (others n db) job hb_time extension of
       (Inr job', db') \<Rightarrow> heartbeats others extension (Suc n) later job' db'
     | (Inl e, db') \<Rightarrow> (job, is_instance e LeaseLost, db'))"

section \<open>Captures the worker makes up\<close>

definition made_up_usage :: "pyfloat option \<Rightarrow> pyfloat option \<Rightarrow> int option \<Rightarrow> ResourceUsage" where
  "made_up_usage cpu cpu_seconds bytes_written = \<lparr>ru_duration = Some (PFin 0), ru_allocated_cpu = cpu,
     ru_cpu_seconds = cpu_seconds, ru_peak_memory = None, ru_model_usage = None,
     ru_estimated_cost = None, ru_pricing_version = None, ru_bytes_written = bytes_written\<rparr>"

text \<open>The preparation raised: \<open>val_err.code or PATCH_ERROR\<close>, or the text of a foreign exception.\<close>

definition preparation_error :: "exn \<Rightarrow> string" where
  "preparation_error e = (case e of
     VCI _ code \<Rightarrow> if code = [] then ec_value EC_PATCH_ERROR else code
   | PyExc _ msg \<Rightarrow> msg)"

definition preparation_failed :: "string \<Rightarrow> exn \<Rightarrow> ExecutionCapture" where
  "preparation_failed attempt_id e = \<lparr>c_attempt_id = attempt_id, c_exit_code = Some 1, c_timed_out = False,
     c_oom_killed = Some False, c_cancelled = False, c_build_exit_code = None, c_stdout_hash = None,
     c_stderr_hash = None, c_report_digest = None, c_truncated = False,
     c_resources = made_up_usage None None None, c_runtime_error = Some (preparation_error e)\<rparr>"

definition build_failed :: "string \<Rightarrow> int \<Rightarrow> ExecutionCapture" where
  "build_failed attempt_id code = \<lparr>c_attempt_id = attempt_id, c_exit_code = Some code, c_timed_out = False,
     c_oom_killed = Some False, c_cancelled = False, c_build_exit_code = Some code, c_stdout_hash = None,
     c_stderr_hash = None, c_report_digest = None, c_truncated = False,
     c_resources = made_up_usage (Some (PFin 1)) (Some (PFin 0)) (Some 0), c_runtime_error = None\<rparr>"

section \<open>Build and verification\<close>

definition attempt_dir :: "worker \<Rightarrow> string \<Rightarrow> string \<Rightarrow> string" where
  "attempt_dir wk name part = wk_work_dir wk @ ''/attempts/'' @ name @ ''/'' @ part"

text \<open>A capture with the bytes of \<open>stdout.log\<close> and \<open>stderr.log\<close> (empty: no such file) and of the report.\<close>

record run_result =
  rr_capture :: ExecutionCapture
  rr_stdout_log :: string
  rr_stderr_log :: string
  rr_report :: "string option"

text \<open>
  Step 4 of \<open>run_one\<close>. The command of \<open>resolve_command\<close> is run with the default capture limit.
  A log keeps what the build wrote when the verifier writes nothing, because an empty stream
  is not written to the capture directory.
\<close>

definition run_commands ::
    "library \<Rightarrow> worker \<Rightarrow> surroundings \<Rightarrow> string \<Rightarrow> Job \<Rightarrow> VerifierManifest \<Rightarrow> run_result res" where
  "run_commands lib wk s attempt_id job manifest =
    (let name = or_str (j_attempt_id job) ''default'';
         source_dir = attempt_dir wk name ''source'';
         paths = [''workspace'' \<mapsto> source_dir, ''verifier'' \<mapsto> source_dir,
           ''out'' \<mapsto> attempt_dir wk name ''out'', ''seed'' \<mapsto> ''0''];
         resolve = (\<lambda>template. resolve_command template paths (Some source_dir) (vm_timeout_seconds manifest) None);
         run = (\<lambda>spawn elapsed report spec report_path. execute (lib_H lib) spawn (s_environ s) elapsed report
           (j_attempt_id job) (cs_argv spec) source_dir (vm_timeout_seconds manifest) (cs_env spec)
           DEFAULT_MAX_CAPTURE_BYTES report_path);
         verify = (\<lambda>out err. bind_res (resolve (vm_command manifest)) (\<lambda>cmd_spec.
           let x = run (s_test_spawn s) (s_test_elapsed s) (s_test_report s) cmd_spec (vm_report_path manifest)
           in Inr \<lparr>rr_capture = ex_capture x,
                rr_stdout_log = (if ex_stdout x = [] then out else ex_stdout x),
                rr_stderr_log = (if ex_stderr x = [] then err else ex_stderr x),
                rr_report = s_test_report s (vm_report_path manifest)\<rparr>))
     in if vm_build_command manifest = [] then verify [] []
        else bind_res (resolve (vm_build_command manifest)) (\<lambda>build_spec.
          let x = run (s_build_spawn s) (s_build_elapsed s) (s_build_report s) build_spec ''report.json''
          in (case c_exit_code (ex_capture x) of
                Some code \<Rightarrow> if code \<noteq> 0
                  then Inr \<lparr>rr_capture = build_failed attempt_id code, rr_stdout_log = ex_stdout x,
                         rr_stderr_log = ex_stderr x, rr_report = s_build_report s (vm_report_path manifest)\<rparr>
                  else verify (ex_stdout x) (ex_stderr x)
              | None \<Rightarrow> verify (ex_stdout x) (ex_stderr x))))"

section \<open>Evidence\<close>

definition MAX_EVIDENCE_BYTES :: int where
  "MAX_EVIDENCE_BYTES = 16 * 1024 * 1024"

text \<open>\<open>_register_artifact\<close>: like the one of the store, without a retention date. The queue's tables
  know an artifact by its key.\<close>

definition worker_register :: "Artifact \<Rightarrow> world \<Rightarrow> world" where
  "worker_register art w = w\<lparr>
     w_store := (w_store w)\<lparr>st_rows := register_artifact (art\<lparr>art_retention_until := None\<rparr>) (st_rows (w_store w))\<rparr>,
     w_db := (w_db w)\<lparr>artifact_digests := (if art_digest art \<in> set (artifact_digests (w_db w))
       then artifact_digests (w_db w) else artifact_digests (w_db w) @ [art_digest art])\<rparr>\<rparr>"

definition keep_evidence ::
    "library \<Rightarrow> surroundings \<Rightarrow> string \<Rightarrow> string \<Rightarrow> string \<Rightarrow> world \<Rightarrow> string res \<times> world" where
  "keep_evidence lib s kind media_type bytes w =
    (let (r, st') = put_bytes (lib_H lib) (lib_uri lib) (s_stored_at s) (w_store w) bytes MAX_EVIDENCE_BYTES kind
           ''restricted'' media_type None False
     in case r of Inl e \<Rightarrow> (Inl e, w\<lparr>w_store := st'\<rparr>)
        | Inr art \<Rightarrow> (Inr (art_digest art), worker_register art (w\<lparr>w_store := st'\<rparr>)))"

definition keep_log ::
    "library \<Rightarrow> surroundings \<Rightarrow> string \<Rightarrow> string \<Rightarrow> world \<Rightarrow> string option res \<times> world" where
  "keep_log lib s kind bytes w = (if bytes = [] then (Inr None, w)
     else then_do (keep_evidence lib s kind ''application/octet-stream'' bytes w) (\<lambda>d w'. (Inr (Some d), w')))"

text \<open>The report is cut to 16 MiB before it is stored and parsed; an empty report is stored too.\<close>

definition keep_report ::
    "library \<Rightarrow> surroundings \<Rightarrow> string option \<Rightarrow> world \<Rightarrow> string option res \<times> world" where
  "keep_report lib s report w = (case report of
     None \<Rightarrow> (Inr None, w)
   | Some bytes \<Rightarrow> then_do (keep_evidence lib s ''report'' ''application/json'' bytes w) (\<lambda>d w'. (Inr (Some d), w')))"

definition digest_list :: "string option list \<Rightarrow> string list" where
  "digest_list ds = map the (filter (\<lambda>d. d \<noteq> None) ds)"

section \<open>The attempt\<close>

text \<open>Step 6: \<open>parse_capture\<close>, or the worker's own verdict when there is no manifest.\<close>

definition worker_outcome ::
    "library \<Rightarrow> ExecutionCapture \<Rightarrow> VerifierManifest option \<Rightarrow> string option \<Rightarrow> string list \<Rightarrow> ParsedOutcome res" where
  "worker_outcome lib capture manifest report_bytes evidence_digests = (case manifest of
     Some m \<Rightarrow> parse_capture (lib_loads lib) (lib_float_str lib) capture m report_bytes
   | None \<Rightarrow>
     let err_code = or_str (c_runtime_error capture) (ec_value EC_INFRASTRUCTURE_ERROR);
         is_patch_err = patch_error err_code
     in Inr \<lparr>po_outcome = (if is_patch_err then Invalid_evaluation else Error),
          po_evaluation_validity = Invalid,
          po_error_code = Some (if is_patch_err then ec_value EC_PATCH_ERROR else err_code),
          po_report = None, po_evidence_digests = evidence_digests\<rparr>)"

definition status_count :: "test_status \<Rightarrow> TestReport \<Rightarrow> int" where
  "status_count status report = int (length (filter (\<lambda>r. tr_status r = status) (rep_results report)))"

definition built_attempt ::
    "surroundings \<Rightarrow> string \<Rightarrow> Job \<Rightarrow> bool \<Rightarrow> ParsedOutcome \<Rightarrow> ExecutionCapture \<Rightarrow> string list \<Rightarrow> EvaluationAttempt" where
  "built_attempt s attempt_id job lost outcome capture evidence_digests = \<lparr>
     a_attempt_id = attempt_id, a_job_id = j_job_id job, a_fence = j_fence job,
     a_outcome = Some (po_outcome outcome), a_evaluation_validity = po_evaluation_validity outcome,
     a_error_code = po_error_code outcome, a_disposition = (if lost then Stale else Authoritative),
     a_started_at = s_started_at s, a_finished_at = Some (s_finished_at s), a_exit_code = c_exit_code capture,
     a_stdout_hash = c_stdout_hash capture, a_stderr_hash = c_stderr_hash capture,
     a_report_digest = c_report_digest capture,
     a_test_collection = (case po_report outcome of None \<Rightarrow> [] | Some r \<Rightarrow> rep_collected_ids r),
     a_tests_passed = map_option (status_count T_passed) (po_report outcome),
     a_tests_failed = map_option (status_count T_failed) (po_report outcome),
     a_resources = c_resources capture, a_artifact_digests = evidence_digests,
     a_capture_truncated = c_truncated capture\<rparr>"

section \<open>run\_one\<close>

text \<open>Steps 5 to 7: evidence, classification and submission; \<open>n\<close> numbers the transaction.\<close>

definition submit ::
    "library \<Rightarrow> surroundings \<Rightarrow> string \<Rightarrow> nat \<Rightarrow> Job \<Rightarrow> bool \<Rightarrow> VerifierManifest option \<Rightarrow> run_result
     \<Rightarrow> world \<Rightarrow> bool res \<times> world" where
  "submit lib s attempt_id n job lost manifest rr w =
    then_do (keep_log lib s ''stdout'' (rr_stdout_log rr) w) (\<lambda>stdout_hash w.
    then_do (keep_log lib s ''stderr'' (rr_stderr_log rr) w) (\<lambda>stderr_hash w.
    let report_bytes = (if manifest = None then None
          else map_option (take (nat MAX_EVIDENCE_BYTES)) (rr_report rr)) in
    then_do (keep_report lib s report_bytes w) (\<lambda>report_digest w.
    let evidence_digests = digest_list [stdout_hash, stderr_hash, report_digest];
        capture = (if manifest = None then rr_capture rr else (rr_capture rr)\<lparr>c_stdout_hash := stdout_hash,
          c_stderr_hash := stderr_hash, c_report_digest := report_digest\<rparr>)
    in case worker_outcome lib capture manifest report_bytes evidence_digests of
         Inl e \<Rightarrow> (Inl e, w)
       | Inr outcome \<Rightarrow>
           then_do (on_db (s_others s n) (\<lambda>db. complete db job
               (built_attempt s attempt_id job lost outcome capture evidence_digests) (s_complete_ms s)) w)
             (\<lambda>_ w. (Inr True, w)))))"

text \<open>
  Step 3: the heartbeat thread is started before the workspace is prepared and runs until the
  commands have ended. A failed preparation leaves the copied snapshot behind for the clean-up.
\<close>

definition execute_job ::
    "library \<Rightarrow> worker \<Rightarrow> surroundings \<Rightarrow> string \<Rightarrow> Job \<Rightarrow> world \<Rightarrow> bool res \<times> world" where
  "execute_job lib wk s attempt_id job w =
    (case resolve_inputs lib wk s (w_store w) job of
       Inl e \<Rightarrow> submit lib s attempt_id 1 job False None
         \<lparr>rr_capture = preparation_failed attempt_id e, rr_stdout_log = [], rr_stderr_log = [], rr_report = None\<rparr> w
     | Inr (snapshot_dir, diff_bytes, manifest) \<Rightarrow>
       let (job', lost, db') = heartbeats (s_others s) (wk_lease_duration_ms wk) 1 (s_beats_ms s) job (w_db w);
           n = Suc (length (s_beats_ms s));
           name = or_str (j_attempt_id job) ''default'';
           existing = (case w_dirs w name of None \<Rightarrow> Map.empty | Some t \<Rightarrow> t);
           snapshot = (if s_is_dir s snapshot_dir then s_snapshot s snapshot_dir else [])
       in case prepare_workspace (s_git s) existing snapshot (Some diff_bytes) (vm_allowed_edit_paths manifest) of
            Inl e \<Rightarrow> submit lib s attempt_id n job' lost (Some manifest)
              \<lparr>rr_capture = preparation_failed attempt_id e, rr_stdout_log = [], rr_stderr_log = [], rr_report = None\<rparr>
              (w\<lparr>w_db := db', w_dirs := (w_dirs w)(name \<mapsto> copy_snapshot snapshot existing)\<rparr>)
          | Inr source \<Rightarrow>
            let w' = w\<lparr>w_db := db', w_dirs := (w_dirs w)(name \<mapsto> source)\<rparr>
            in case run_commands lib wk s attempt_id job' manifest of
                 Inl e \<Rightarrow> (Inl e, w')
               | Inr rr \<Rightarrow> submit lib s attempt_id n job' lost (Some manifest) rr w')"

definition cleaned_up :: "string \<Rightarrow> 'a res \<times> world \<Rightarrow> 'a res \<times> world" where
  "cleaned_up attempt_id rw = (fst rw, (snd rw)\<lparr>w_dirs := cleanup_attempt attempt_id (w_dirs (snd rw))\<rparr>)"

definition run_one ::
    "library \<Rightarrow> worker \<Rightarrow> surroundings \<Rightarrow> string option \<Rightarrow> world \<Rightarrow> bool res \<times> world" where
  "run_one lib wk s run_id w =
    then_do (on_db (\<lambda>db. db) (\<lambda>db. claim db (wk_worker_id wk) (s_now_ms s) run_id (wk_lease_duration_ms wk) (s_fresh s)) w)
      (\<lambda>claimed w. case claimed of
         None \<Rightarrow> (Inr False, w)
       | Some job \<Rightarrow>
         let attempt_id = or_str (j_attempt_id job) (s_uuid s)
         in cleaned_up attempt_id
              (then_do (on_db (s_others s 0) (\<lambda>db. mark_running db job (s_running_ms s)) w)
                (\<lambda>job w. execute_job lib wk s attempt_id job w)))"

section \<open>run\_until\_terminal\<close>

text \<open>At most one call of \<open>run_one\<close> per element of \<open>ss\<close>, its surroundings.\<close>

fun run_until_terminal ::
    "library \<Rightarrow> worker \<Rightarrow> surroundings list \<Rightarrow> string option \<Rightarrow> world \<Rightarrow> nat res \<times> world" where
  "run_until_terminal lib wk [] run_id w = (Inr 0, w)"
| "run_until_terminal lib wk (s # ss) run_id w =
    then_do (run_one lib wk s run_id w) (\<lambda>claimed w.
      if \<not> claimed then (Inr 0, w)
      else then_do (run_until_terminal lib wk ss run_id w) (\<lambda>n w. (Inr (Suc n), w)))"

end
