(* ===== verification/Worker_Properties.thy ===== *)
theory Worker_Properties
  imports Worker Queue_Claims Outcome_Properties Sandbox_Properties Artifact_Properties
begin

text \<open>
  What one call of \<open>run_one\<close> does to the queue: while the others spare its lease, the attempt it
  submits is always accepted by the fenced queue and by the constraints of the schema, an
  acceptance is earned by a clean run of the verifier on a validated patch, and a call that
  raises leaves the job leased, for the reaper to release. The loop over \<open>run_one\<close> ends.
\<close>

section \<open>Holding the lease\<close>

definition same_handle :: "Job \<Rightarrow> Job \<Rightarrow> bool" where
  "same_handle job job' \<longleftrightarrow> j_job_id job' = j_job_id job \<and> j_fence job' = j_fence job
     \<and> j_lease_token job' = j_lease_token job \<and> j_worker_id job' = j_worker_id job
     \<and> j_attempt_id job' = j_attempt_id job \<and> j_task_key job' = j_task_key job
     \<and> j_case_id job' = j_case_id job \<and> j_verifier_key job' = j_verifier_key job"

text \<open>The invariant holds and \<open>job\<close> is the handle of a lease that runs until \<open>deadline\<close>.\<close>

definition leased_to :: "Job \<Rightarrow> int \<Rightarrow> db \<Rightarrow> bool" where
  "leased_to job deadline db \<longleftrightarrow> db_inv db \<and> (\<exists>row. job_of db (j_job_id job) = Some row \<and> leased row
     \<and> j_lease_expires_ms row = Some deadline \<and> j_fence row = j_fence job
     \<and> j_lease_token row = j_lease_token job \<and> j_worker_id row = j_worker_id job
     \<and> j_attempt_id row = j_attempt_id job)"

lemma leased_to_handle: "same_handle job job' \<Longrightarrow> leased_to job' d db \<longleftrightarrow> leased_to job d db"
  by (simp add: same_handle_def leased_to_def)

text \<open>Others that leave the lease of \<open>job\<close> alone and unregister no artifact.\<close>

definition spares :: "Job \<Rightarrow> (db \<Rightarrow> db) \<Rightarrow> bool" where
  "spares job f \<longleftrightarrow> (\<forall>d db. leased_to job d db \<longrightarrow> leased_to job d (f db))
     \<and> (\<forall>db. set (artifact_digests db) \<subseteq> set (artifact_digests (f db)))"

lemma spares_handle: "same_handle job job' \<Longrightarrow> spares job f \<Longrightarrow> spares job' f"
  by (simp add: spares_def leased_to_handle)

lemma spares_id: "spares job (\<lambda>db. db)"
  by (simp add: spares_def)

lemma claim_leases:
  assumes "db_inv db" and "\<And>n. attempt_of db (fst (fresh n)) = None"
    and "claim db worker now_ms run lease fresh = (Inr (Some job), db')"
  shows "leased_to job (now_ms + lease) db'" and "\<exists>n. j_attempt_id job = Some (fst (fresh n))"
proof -
  have "\<exists>res db'. claim_loop worker run now_ms lease fresh 0 db = Inr (res, db')
      \<and> claim_post worker run now_ms lease fresh db res db'"
    by (rule claim_loop_post) (use assms in auto)
  with assms(3) have "claim_post worker run now_ms lease fresh db (Some job) db'"
    by (auto simp: claim_def in_transaction_def)
  then obtain row n where h: "hands_out worker run now_ms lease db (fst (fresh n)) (snd (fresh n)) row job db'"
    by (auto simp: claim_post_def)
  then have job: "job = claimed_job (fst (fresh n)) (j_fence row + 1) (snd (fresh n)) worker (now_ms + lease)
      (j_attempts_started row + 1) row"
    and row: "job_of db' (j_job_id row) = Some (claimed_row (fst (fresh n)) (j_fence row + 1) (snd (fresh n)) worker
      (now_ms + lease) (j_attempts_started row + 1) row)"
    by (auto simp: hands_out_def)
  have "db' = run_op (Op_claim worker now_ms run lease fresh) db"
    using assms(3) by simp
  then have "db_inv db'"
    using run_op_preserve(1) [OF assms(1)] by blast
  then show "leased_to job (now_ms + lease) db'"
    using row by (auto simp: leased_to_def job claimed_job_def claimed_row_def leased_def)
  show "\<exists>n. j_attempt_id job = Some (fst (fresh n))"
    by (auto simp: job claimed_job_def)
qed

lemma leased_toE:
  assumes "leased_to job d db"
  obtains row where "db_inv db" and "job_of db (j_job_id job) = Some row" and "leased row"
    and "j_lease_expires_ms row = Some d" and "\<not> lease_mismatch row job"
    and "j_fence row = j_fence job" and "j_lease_token row = j_lease_token job"
    and "j_worker_id row = j_worker_id job" and "j_attempt_id row = j_attempt_id job"
  using assms by (auto simp: leased_to_def lease_mismatch_def)

lemma mark_running_keeps_lease:
  assumes "leased_to job d db" and "t < d"
  shows "\<exists>job' db'. mark_running db job t = (Inr job', db') \<and> same_handle job job' \<and> leased_to job' d db'
    \<and> artifact_digests db' = artifact_digests db"
proof -
  from assms(1) obtain row where row: "db_inv db" "job_of db (j_job_id job) = Some row" "leased row"
    "j_lease_expires_ms row = Some d" "\<not> lease_mismatch row job"
    and eqs: "j_fence row = j_fence job" "j_lease_token row = j_lease_token job"
    "j_worker_id row = j_worker_id job" "j_attempt_id row = j_attempt_id job"
    by (rule leased_toE)
  let ?db = "if j_state row = CLAIMED
    then update_jobs (\<lambda>j. j_job_id j = j_job_id job) (\<lambda>j. j\<lparr>j_state := RUNNING\<rparr>) db else db"
  have live: "\<not> lease_expired row t" using row(4) assms(2) by (simp add: lease_expired_def)
  have run: "mark_running db job t = (Inr (job\<lparr>j_state := RUNNING, j_lease_expires_ms := j_lease_expires_ms row,
      j_attempts_started := j_attempts_started row, j_selected_attempt_id := j_selected_attempt_id row,
      j_terminal_reason := j_terminal_reason row\<rparr>), ?db)" (is "_ = (Inr ?job, _)")
    using row live by (simp add: mark_running_def in_transaction_def mark_running_body_def leased_def)
  have "db_inv ?db"
    using run_op_preserve(1) [OF row(1), of "Op_mark_running job t"] run by simp
  moreover have "job_of ?db (j_job_id job) = Some (row\<lparr>j_state := RUNNING\<rparr>)"
    using row(2,3) job_of_id [OF row(2)]
    by (cases "j_state row = CLAIMED") (auto simp: frame_simps table_simps keeps_key_def leased_def)
  ultimately have "leased_to ?job d ?db"
    using row(4) eqs by (auto simp: leased_to_def leased_def)
  then show ?thesis
    unfolding run by (auto simp: same_handle_def frame_simps)
qed

lemma heartbeat_renews_lease:
  assumes "leased_to job d db" and "t < d"
  shows "\<exists>job' db'. heartbeat db job t ext = (Inr job', db') \<and> same_handle job job' \<and> leased_to job' (t + ext) db'
    \<and> artifact_digests db' = artifact_digests db"
proof -
  from assms(1) obtain row where row: "db_inv db" "job_of db (j_job_id job) = Some row" "leased row"
    "j_lease_expires_ms row = Some d" "\<not> lease_mismatch row job"
    and eqs: "j_fence row = j_fence job" "j_lease_token row = j_lease_token job"
    "j_worker_id row = j_worker_id job" "j_attempt_id row = j_attempt_id job"
    by (rule leased_toE)
  let ?db = "update_jobs (\<lambda>j. j_job_id j = j_job_id job) (\<lambda>j. j\<lparr>j_lease_expires_ms := Some (t + ext)\<rparr>) db"
  have live: "\<not> lease_expired row t" using row(4) assms(2) by (simp add: lease_expired_def)
  have run: "heartbeat db job t ext = (Inr (job\<lparr>j_state := j_state row, j_worker_id := j_worker_id row,
      j_lease_expires_ms := Some (t + ext), j_attempts_started := j_attempts_started row,
      j_selected_attempt_id := j_selected_attempt_id row, j_terminal_reason := j_terminal_reason row\<rparr>), ?db)"
    (is "_ = (Inr ?job, _)")
    using row live by (simp add: heartbeat_def in_transaction_def heartbeat_body_def leased_def Let_def)
  have "db_inv ?db"
    using run_op_preserve(1) [OF row(1), of "Op_heartbeat job t ext"] run by simp
  moreover have "job_of ?db (j_job_id job) = Some (row\<lparr>j_lease_expires_ms := Some (t + ext)\<rparr>)"
    using row(2) job_of_id [OF row(2)] by (simp add: frame_simps table_simps keeps_key_def)
  ultimately have "leased_to ?job (t + ext) ?db"
    using row(3) eqs by (auto simp: leased_to_def leased_def)
  then show ?thesis
    unfolding run using eqs by (auto simp: same_handle_def frame_simps)
qed

text \<open>Each beat comes before the deadline the one before it set; the last deadline.\<close>

fun in_time :: "int \<Rightarrow> int \<Rightarrow> int list \<Rightarrow> bool" where
  "in_time ext d [] = True"
| "in_time ext d (t # ts) = (t < d \<and> in_time ext (t + ext) ts)"

fun last_deadline :: "int \<Rightarrow> int \<Rightarrow> int list \<Rightarrow> int" where
  "last_deadline ext d [] = d"
| "last_deadline ext d (t # ts) = last_deadline ext (t + ext) ts"

lemma heartbeats_keep_lease:
  assumes "leased_to job d db" and "in_time ext d beats" and "\<And>n. spares job (others n)"
  shows "\<exists>job' db'. heartbeats others ext n beats job db = (job', False, db') \<and> same_handle job job'
    \<and> leased_to job' (last_deadline ext d beats) db' \<and> set (artifact_digests db) \<subseteq> set (artifact_digests db')"
  using assms
proof (induction beats arbitrary: n job d db)
  case Nil
  then show ?case by (simp add: same_handle_def)
next
  case (Cons t ts)
  have "leased_to job d (others n db)" and grow: "set (artifact_digests db) \<subseteq> set (artifact_digests (others n db))"
    using Cons.prems(1,3) by (auto simp: spares_def)
  from heartbeat_renews_lease [OF this(1), of t ext] Cons.prems(2) obtain job1 db1 where
    beat: "heartbeat (others n db) job t ext = (Inr job1, db1)" "same_handle job job1"
      "leased_to job1 (t + ext) db1" "artifact_digests db1 = artifact_digests (others n db)" by auto
  from Cons.IH [OF beat(3), of "Suc n"] Cons.prems(2,3) spares_handle [OF beat(2)] obtain job2 db2 where
    "heartbeats others ext (Suc n) ts job1 db1 = (job2, False, db2)" "same_handle job1 job2"
    "leased_to job2 (last_deadline ext (t + ext) ts) db2" "set (artifact_digests db1) \<subseteq> set (artifact_digests db2)"
    by auto
  with beat grow show ?case by (auto simp: same_handle_def)
qed

section \<open>Submitting under a live lease\<close>

text \<open>What the schema asks of the attempt, whatever row it is written to.\<close>

definition recordable :: "EvaluationAttempt \<Rightarrow> bool" where
  "recordable att \<longleftrightarrow>
     ((a_evaluation_validity att = Valid \<and> a_outcome att \<in> {Some Accept, Some Reject})
      \<or> (a_evaluation_validity att = Invalid \<and> a_outcome att \<in> {Some Invalid_evaluation, Some Error}))
   \<and> opt_all (\<lambda>n. 0 \<le> n) (a_tests_passed att) \<and> opt_all (\<lambda>n. 0 \<le> n) (a_tests_failed att)
   \<and> json_valid_resources (Some (a_resources att))"

lemma recordable_check:
  assumes "recordable att" and "0 < ar_fence r"
  shows "attempt_check (committed_row att now_ms r)"
proof -
  have "json_valid_resources (Some (resources_dict (a_resources att)))"
    using assms(1) by (simp add: recordable_def json_valid_resources_def resources_dict_def)
  with assms show ?thesis by (auto simp: recordable_def attempt_check_def committed_row_def)
qed

definition registered :: "db \<Rightarrow> string option \<Rightarrow> bool" where
  "registered db h \<longleftrightarrow> opt_all (\<lambda>d. d \<in> set (artifact_digests db)) h"

lemma registered_mono:
  "registered db h \<Longrightarrow> set (artifact_digests db) \<subseteq> set (artifact_digests db') \<Longrightarrow> registered db' h"
  by (cases h) (auto simp: registered_def)

text \<open>No other attempt of a leased job is authoritative, so one more keeps the index unique.\<close>

lemma commit_unique:
  assumes inv: "db_inv db" and row: "job_of db k = Some row" "leased row"
    and r: "attempt_of db a = Some r" "ar_job_id r = k"
  shows "authority_unique (update_where (\<lambda>r. ar_attempt_id r = a) (committed_row att now_ms) (attempts db))"
proof -
  let ?rows = "update_where (\<lambda>r. ar_attempt_id r = a) (committed_row att now_ms) (attempts db)"
  have key: "keeps_key ar_attempt_id (committed_row att now_ms)"
    by (auto simp: committed_row_def)
  have distinct: "distinct (map ar_attempt_id (attempts db))"
    using db_invD(1) [OF inv] by (simp add: db_keys_def)
  have none: "ar_job_id q \<noteq> k" if "q \<in> set (attempts db)" "ar_disposition q = Authoritative" for q
    using that db_invD(3) [OF inv, of "ar_attempt_id q" q] db_keysD(2) [OF db_invD(1) [OF inv] that(1)] row(1)
      leased_not_selected [OF db_invD(2) [OF inv row(1)] row(2)]
    by (auto simp: row_inv_def)
  have mem: "(x = committed_row att now_ms r \<and> ar_job_id x = k) \<or> (x \<in> set (attempts db) \<and> ar_job_id x \<noteq> k)"
    if "x \<in> set ?rows" "ar_disposition x = Authoritative" for x
  proof -
    from that(1) obtain q where q: "q \<in> set (attempts db)"
      "x = (if ar_attempt_id q = a then committed_row att now_ms q else q)"
      by (auto simp: update_where_def)
    show ?thesis
    proof (cases "ar_attempt_id q = a")
      case True
      then have "q = r"
        using q(1) r(1) distinct by (metis lookup_row_mem option.inject)
      with q(2) True r(2) show ?thesis by (simp add: committed_row_def)
    next
      case False
      with q that(2) none show ?thesis by auto
    qed
  qed
  have "inj_on ar_job_id (set (filter (\<lambda>r. ar_disposition r = Authoritative) ?rows))"
  proof (rule inj_onI)
    fix x y
    assume *: "x \<in> set (filter (\<lambda>r. ar_disposition r = Authoritative) ?rows)"
      "y \<in> set (filter (\<lambda>r. ar_disposition r = Authoritative) ?rows)" "ar_job_id x = ar_job_id y"
    consider "ar_job_id x = k" | "x \<in> set (attempts db)" "y \<in> set (attempts db)"
      using mem [of x] mem [of y] * by auto
    then show "x = y"
    proof cases
      case 1
      with mem [of x] mem [of y] * show ?thesis by auto
    next
      case 2
      have "distinct (map ar_job_id (filter (\<lambda>r. ar_disposition r = Authoritative) (attempts db)))"
        using db_inv_authority_unique [OF inv] by (simp add: authority_unique_def)
      with 2 * show ?thesis by (auto simp: distinct_map dest: inj_onD)
    qed
  qed
  moreover have "distinct ?rows"
    using distinct map_key_update_where [OF key, of "\<lambda>r. ar_attempt_id r = a" "attempts db"] distinct_map by metis
  ultimately show ?thesis by (simp add: authority_unique_def distinct_map)
qed

lemma complete_commits:
  assumes lease: "leased_to job d db" and "t < d"
    and ids: "j_attempt_id job = Some (a_attempt_id att)" "a_job_id att = j_job_id job" "a_fence att = j_fence job"
    and att: "recordable att" "registered db (a_stdout_hash att)" "registered db (a_stderr_hash att)"
      "registered db (a_report_digest att)"
  shows "fst (complete db job att t) = Inr Committed"
proof -
  from lease obtain row where row: "db_inv db" "job_of db (j_job_id job) = Some row" "leased row"
    "j_lease_expires_ms row = Some d" "\<not> lease_mismatch row job"
    and eqs: "j_fence row = j_fence job" "j_lease_token row = j_lease_token job"
    "j_worker_id row = j_worker_id job" "j_attempt_id row = j_attempt_id job"
    by (rule leased_toE)
  obtain r where r: "attempt_of db (a_attempt_id att) = Some r" "ar_job_id r = j_job_id job" "ar_fence r = j_fence job"
    by (rule leased_attempt [OF row(1-3)]) (use eqs ids(1) in auto)
  have row_r: "row_inv (job_of db) r"
    using db_invD(3) [OF row(1) r(1)] .
  then have check: "attempt_check (committed_row att t r)"
    using recordable_check [OF att(1), of r t] by (simp add: row_inv_def attempt_check_def)
  have live: "ar_disposition r \<noteq> Authoritative"
    using row_r leased_not_selected [OF db_invD(2) [OF row(1,2)] row(3)] row(2) r(2) by (auto simp: row_inv_def)
  have hit: "q = r" if "q \<in> set (attempts db)" "ar_attempt_id q = a_attempt_id att" for q
    using that db_keysD(2) [OF db_invD(1) [OF row(1)] that(1)] r(1) by simp
  have fk: "attempt_fk db (committed_row att t r)"
    using att(2-4) row(2) r(2) by (simp add: attempt_fk_def committed_row_def registered_def)
  have "update_attempts (\<lambda>r. ar_attempt_id r = a_attempt_id att) (committed_row att t) db
      = Inr (db\<lparr>attempts := update_where (\<lambda>r. ar_attempt_id r = a_attempt_id att) (committed_row att t) (attempts db)\<rparr>)"
    using commit_unique [OF row(1-3) r(1,2), of att t] hit live check fk
    by (auto simp: update_attempts_def Let_def list_ex_iff list_all_iff)
  then show ?thesis
    using row eqs ids r assms(2)
    by (simp add: complete_def in_transaction_def complete_body_def complete_commit_def Let_def lease_expired_def leased_def)
      auto
qed

text \<open>The job is settled by the attempt.\<close>

definition settled :: "Job \<Rightarrow> string \<Rightarrow> outcome \<Rightarrow> db \<Rightarrow> bool" where
  "settled job aid result db \<longleftrightarrow> (\<exists>row r. job_of db (j_job_id job) = Some row \<and> attempt_of db aid = Some r
     \<and> ar_job_id r = j_job_id job \<and> ar_disposition r = Authoritative \<and> ar_outcome r = Some result
     \<and> j_selected_attempt_id row = Some aid \<and> j_lease_token row = None
     \<and> j_state row = (if result = Error then FAILED else DONE))"

lemma complete_settles:
  assumes "leased_to job d db" and "t < d"
    and "j_attempt_id job = Some (a_attempt_id att)" "a_job_id att = j_job_id job" "a_fence att = j_fence job"
    and "recordable att" "registered db (a_stdout_hash att)" "registered db (a_stderr_hash att)"
      "registered db (a_report_digest att)" and "a_outcome att = Some result"
  shows "\<exists>db'. complete db job att t = (Inr Committed, db') \<and> settled job (a_attempt_id att) result db'"
proof -
  have inv: "db_inv db" using assms(1) by (simp add: leased_to_def)
  have ok: "fst (complete db job att t) = Inr Committed"
    by (rule complete_commits) (use assms in auto)
  have "settled job (a_attempt_id att) result (snd (complete db job att t))"
    using commit_effect [OF inv ok] db_invD(3) [OF inv] assms(1,10) attempt_of_id [of db]
    by (auto simp: settled_def committed_row_def settled_row_def terminal_state_of_def)
      (metis assms(1) leased_attempt leased_toE option.inject)+
  with ok show ?thesis by (metis prod.collapse)
qed

section \<open>Evidence keeps the lease\<close>

text \<open>Only artifacts were registered.\<close>

definition only_registers :: "db \<Rightarrow> db \<Rightarrow> bool" where
  "only_registers db db' \<longleftrightarrow> (\<exists>ds. db' = db\<lparr>artifact_digests := ds\<rparr> \<and> set (artifact_digests db) \<subseteq> set ds)"

lemma only_registers_refl [simp]: "only_registers db db"
  unfolding only_registers_def by (rule exI [of _ "artifact_digests db"]) simp

lemma only_registers_trans: "only_registers a b \<Longrightarrow> only_registers b c \<Longrightarrow> only_registers a c"
  unfolding only_registers_def by force

lemma only_registers_lease:
  assumes "only_registers db db'"
  shows "leased_to job d db' \<longleftrightarrow> leased_to job d db" and "registered db h \<Longrightarrow> registered db' h"
proof -
  obtain ds where db': "db' = db\<lparr>artifact_digests := ds\<rparr>" "set (artifact_digests db) \<subseteq> set ds"
    using assms by (auto simp: only_registers_def)
  show "leased_to job d db' \<longleftrightarrow> leased_to job d db"
    unfolding db' leased_to_def by (simp add: db_inv_def db_keys_def)
  show "registered db h \<Longrightarrow> registered db' h"
    by (rule registered_mono) (use db' in simp_all)
qed

lemma only_registers_one: "only_registers db (db\<lparr>artifact_digests := artifact_digests db @ ds\<rparr>)"
  unfolding only_registers_def by (rule exI, rule conjI, rule refl) auto

lemma keep_evidence_registers:
  assumes "keep_evidence lib s kind media bytes w = (r, w')"
  shows "only_registers (w_db w) (w_db w')" and "r = Inr d \<Longrightarrow> registered (w_db w') (Some d)"
  using assms only_registers_one [of "w_db w"]
  by (auto simp: keep_evidence_def worker_register_def registered_def Let_def
    split: prod.splits sum.splits)

lemma keep_log_registers:
  assumes "keep_log lib s kind bytes w = (r, w')"
  shows "only_registers (w_db w) (w_db w')" and "r = Inr h \<Longrightarrow> registered (w_db w') h"
proof -
  obtain q w1 where e: "keep_evidence lib s kind ''application/octet-stream'' bytes w = (q, w1)" by fastforce
  show "only_registers (w_db w) (w_db w')" and "r = Inr h \<Longrightarrow> registered (w_db w') h"
    using assms e keep_evidence_registers [OF e]
    by (cases q; auto simp: keep_log_def registered_def split: if_splits)+
qed

lemma keep_report_registers:
  assumes "keep_report lib s report w = (r, w')"
  shows "only_registers (w_db w) (w_db w')" and "r = Inr h \<Longrightarrow> registered (w_db w') h"
proof -
  have "only_registers (w_db w) (w_db w') \<and> (r = Inr h \<longrightarrow> registered (w_db w') h)"
  proof (cases report)
    case None
    with assms show ?thesis by (auto simp: keep_report_def registered_def)
  next
    case (Some bytes)
    obtain q w1 where e: "keep_evidence lib s ''report'' ''application/json'' bytes w = (q, w1)" by fastforce
    show ?thesis
      using assms Some e keep_evidence_registers [OF e] by (cases q) (auto simp: keep_report_def)
  qed
  then show "only_registers (w_db w) (w_db w')" and "r = Inr h \<Longrightarrow> registered (w_db w') h" by auto
qed

section \<open>The submission\<close>

lemma worker_outcome_classified:
  "worker_outcome lib capture manifest report evidence = Inr po \<Longrightarrow> classified po"
  by (auto simp: worker_outcome_def classified_def Let_def split: option.splits if_splits
    dest: parse_capture_facts [THEN conjunct1, unfolded classified_def])

lemma built_attempt_recordable:
  assumes "classified po" and "json_valid_resources (Some (c_resources capture))"
  shows "recordable (built_attempt s aid job lost po capture evidence)"
  using assms by (cases "po_report po") (auto simp: recordable_def built_attempt_def classified_def status_count_def)

text \<open>The capture of a run that may be accepted, and the report it left.\<close>

definition accepted_run :: "library \<Rightarrow> VerifierManifest option \<Rightarrow> run_result \<Rightarrow> bool" where
  "accepted_run lib manifest rr \<longleftrightarrow> (\<exists>m tests rs. manifest = Some m \<and> clean_execution (rr_capture rr) m
     \<and> holds_tests (lib_loads lib) (map_option (take (nat MAX_EVIDENCE_BYTES)) (rr_report rr)) tests
     \<and> list_all2 (item_ok (lib_float_str lib)) tests rs \<and> accepted_report rs m (rr_capture rr))"

lemma worker_outcome_accept:
  assumes "worker_outcome lib (if manifest = None then rr_capture rr else (rr_capture rr)\<lparr>c_stdout_hash := so,
      c_stderr_hash := se, c_report_digest := rd\<rparr>) manifest (if manifest = None then None
      else map_option (take (nat MAX_EVIDENCE_BYTES)) (rr_report rr)) evidence = Inr po"
    and "po_outcome po = Accept"
  shows "accepted_run lib manifest rr"
proof (cases manifest)
  case None
  with assms show ?thesis by (auto simp: worker_outcome_def Let_def split: if_splits)
next
  case (Some m)
  let ?capture = "(rr_capture rr)\<lparr>c_stdout_hash := so, c_stderr_hash := se, c_report_digest := rd\<rparr>"
  let ?report = "map_option (take (nat MAX_EVIDENCE_BYTES)) (rr_report rr)"
  have "parse_capture (lib_loads lib) (lib_float_str lib) ?capture m ?report = Inr po"
    using assms(1) Some by (simp add: worker_outcome_def)
  from parse_capture_facts [OF this] assms(2) obtain po' where clean: "clean_execution ?capture m"
    and po': "parse (lib_loads lib) (lib_float_str lib) ?report m ?capture = Inr po'" "po_outcome po' = Accept"
    by (auto simp: classified_def)
  from po' parse_accept_iff [of "lib_loads lib" "lib_float_str lib" ?report m ?capture]
  obtain tests rs where "holds_tests (lib_loads lib) ?report tests" "list_all2 (item_ok (lib_float_str lib)) tests rs"
    "accepted_report rs m ?capture" by blast
  with clean Some show ?thesis
    unfolding accepted_run_def by (auto simp: clean_execution_def accepted_report_def)
qed

text \<open>
  Under a live lease a submission settles the job with an attempt the schema accepts, or it raises
  and the lease stays as it is.
\<close>

definition settles_or_keeps :: "Job \<Rightarrow> string \<Rightarrow> int \<Rightarrow> bool \<Rightarrow> bool res \<times> world \<Rightarrow> bool" where
  "settles_or_keeps job aid d may_accept rw = (case rw of
     (Inl e, w) \<Rightarrow> leased_to job d (w_db w)
   | (Inr b, w) \<Rightarrow> b \<and> (\<exists>result. settled job aid result (w_db w) \<and> (result = Accept \<longrightarrow> may_accept)))"

lemma settles_or_keeps_mono:
  "settles_or_keeps job aid d p rw \<Longrightarrow> (p \<Longrightarrow> q) \<Longrightarrow> settles_or_keeps job aid d q rw"
  by (auto simp: settles_or_keeps_def split: prod.splits sum.splits)

lemma submit_settles:
  assumes lease: "leased_to job d (w_db w)" and "s_complete_ms s < d" and spare: "spares job (s_others s n)"
    and aid: "j_attempt_id job = Some aid"
    and usage: "json_valid_resources (Some (c_resources (rr_capture rr)))"
    and bare: "manifest = None \<Longrightarrow> c_stdout_hash (rr_capture rr) = None \<and> c_stderr_hash (rr_capture rr) = None
      \<and> c_report_digest (rr_capture rr) = None"
  shows "settles_or_keeps job aid d (accepted_run lib manifest rr) (submit lib s aid n job lost manifest rr w)"
proof -
  let ?report = "if manifest = None then None else map_option (take (nat MAX_EVIDENCE_BYTES)) (rr_report rr)"
  obtain r1 w1 where k1: "keep_log lib s ''stdout'' (rr_stdout_log rr) w = (r1, w1)" by fastforce
  obtain r2 w2 where k2: "keep_log lib s ''stderr'' (rr_stderr_log rr) w1 = (r2, w2)" by fastforce
  obtain r3 w3 where k3: "keep_report lib s ?report w2 = (r3, w3)" by fastforce
  note g1 = keep_log_registers(1) [OF k1] and g2 = keep_log_registers(1) [OF k2]
    and g3 = keep_report_registers(1) [OF k3]
  have l1: "leased_to job d (w_db w1)" and l2: "leased_to job d (w_db w2)" and l3: "leased_to job d (w_db w3)"
    using lease g1 g2 g3 by (simp_all add: only_registers_lease)
  show ?thesis
  proof (cases r1)
    case (Inl e)
    with k1 l1 show ?thesis by (simp add: submit_def settles_or_keeps_def)
  next
    case so: (Inr so)
    show ?thesis
    proof (cases r2)
      case (Inl e)
      with k1 k2 so l2 show ?thesis by (simp add: submit_def settles_or_keeps_def)
    next
      case se: (Inr se)
      show ?thesis
      proof (cases r3)
        case (Inl e)
        with k1 k2 k3 so se l3 show ?thesis by (simp add: submit_def settles_or_keeps_def Let_def)
      next
        case rd: (Inr rd)
        let ?evidence = "digest_list [so, se, rd]"
        let ?capture = "if manifest = None then rr_capture rr else (rr_capture rr)\<lparr>c_stdout_hash := so,
          c_stderr_hash := se, c_report_digest := rd\<rparr>"
        have unfolded: "submit lib s aid n job lost manifest rr w =
            (case worker_outcome lib ?capture manifest ?report ?evidence of
               Inl e \<Rightarrow> (Inl e, w3)
             | Inr po \<Rightarrow> then_do (on_db (s_others s n) (\<lambda>db. complete db job
                   (built_attempt s aid job lost po ?capture ?evidence) (s_complete_ms s)) w3) (\<lambda>_ w. (Inr True, w)))"
          using k1 k2 k3 so se rd by (simp add: submit_def Let_def)
        show ?thesis
        proof (cases "worker_outcome lib ?capture manifest ?report ?evidence")
          case (Inl e)
          with unfolded l3 show ?thesis by (simp add: settles_or_keeps_def)
        next
          case (Inr po)
          let ?att = "built_attempt s aid job lost po ?capture ?evidence" and ?db = "s_others s n (w_db w3)"
          have grow: "set (artifact_digests (w_db w3)) \<subseteq> set (artifact_digests ?db)"
            and lease': "leased_to job d ?db"
            using spare l3 by (auto simp: spares_def)
          have reg: "registered (w_db w3) so" "registered (w_db w3) se" "registered (w_db w3) rd"
            using keep_log_registers(2) [OF k1 so] keep_log_registers(2) [OF k2 se] keep_report_registers(2) [OF k3 rd]
              only_registers_lease(2) [OF g2] only_registers_lease(2) [OF g3] by blast+
          then have "registered (w_db w3) (a_stdout_hash ?att)" "registered (w_db w3) (a_stderr_hash ?att)"
            "registered (w_db w3) (a_report_digest ?att)"
            using bare by (simp_all add: built_attempt_def registered_def)
          then have reg': "registered ?db (a_stdout_hash ?att)" "registered ?db (a_stderr_hash ?att)"
            "registered ?db (a_report_digest ?att)"
            using registered_mono grow by blast+
          have rec: "recordable ?att"
            by (rule built_attempt_recordable [OF worker_outcome_classified [OF Inr]]) (use usage in simp)
          obtain db' where db': "complete ?db job ?att (s_complete_ms s) = (Inr Committed, db')"
            "settled job (a_attempt_id ?att) (po_outcome po) db'"
            using complete_settles [OF lease' assms(2) _ _ _ rec reg', of "po_outcome po"] aid
            by (auto simp: built_attempt_def)
          moreover have "a_attempt_id ?att = aid" by (simp add: built_attempt_def)
          moreover have "po_outcome po = Accept \<longrightarrow> accepted_run lib manifest rr"
            using worker_outcome_accept [OF Inr] by blast
          ultimately show ?thesis
            unfolding unfolded Inr by (auto simp: on_db_def settles_or_keeps_def)
        qed
      qed
    qed
  qed
qed

section \<open>The commands\<close>

text \<open>How the worker runs a command, and what the process did.\<close>

definition source_of :: "worker \<Rightarrow> Job \<Rightarrow> string" where
  "source_of wk job = attempt_dir wk (or_str (j_attempt_id job) ''default'') ''source''"

definition command_paths :: "worker \<Rightarrow> Job \<Rightarrow> string \<Rightarrow> string option" where
  "command_paths wk job = [''workspace'' \<mapsto> source_of wk job, ''verifier'' \<mapsto> source_of wk job,
     ''out'' \<mapsto> attempt_dir wk (or_str (j_attempt_id job) ''default'') ''out'', ''seed'' \<mapsto> ''0'']"

definition resolved :: "worker \<Rightarrow> Job \<Rightarrow> VerifierManifest \<Rightarrow> string list \<Rightarrow> CommandSpec res" where
  "resolved wk job m template =
    resolve_command template (command_paths wk job) (Some (source_of wk job)) (vm_timeout_seconds m) None"

definition process_of ::
    "(string list \<Rightarrow> string \<Rightarrow> (string \<Rightarrow> string option) \<Rightarrow> int \<Rightarrow> spawned) \<Rightarrow> worker \<Rightarrow> surroundings \<Rightarrow> Job
     \<Rightarrow> VerifierManifest \<Rightarrow> CommandSpec \<Rightarrow> spawned" where
  "process_of spawn wk s job m spec = spawn (cs_argv spec) (source_of wk job)
     (clean_env (s_environ s) (source_of wk job) (cs_env spec)) (vm_timeout_seconds m)"

text \<open>The build is absent or exited with 0.\<close>

definition build_passed :: "worker \<Rightarrow> surroundings \<Rightarrow> Job \<Rightarrow> VerifierManifest \<Rightarrow> bool" where
  "build_passed wk s job m \<longleftrightarrow> vm_build_command m = [] \<or>
     (\<exists>spec outs errs. resolved wk job m (vm_build_command m) = Inr spec
        \<and> process_of (s_build_spawn s) wk s job m spec = Process (Some 0) outs errs)"

definition test_execution :: "library \<Rightarrow> worker \<Rightarrow> surroundings \<Rightarrow> Job \<Rightarrow> VerifierManifest \<Rightarrow> CommandSpec \<Rightarrow> execution" where
  "test_execution lib wk s job m spec = execute (lib_H lib) (s_test_spawn s) (s_environ s) (s_test_elapsed s)
     (s_test_report s) (j_attempt_id job) (cs_argv spec) (source_of wk job) (vm_timeout_seconds m) (cs_env spec)
     DEFAULT_MAX_CAPTURE_BYTES (vm_report_path m)"

lemma execute_fields:
  "c_exit_code (ex_capture (execute H spawn environ elapsed report attempt argv cwd timeout env limit path))
    = (case spawn argv cwd (clean_env environ cwd env) timeout of Process (Some n) _ _ \<Rightarrow> Some n | _ \<Rightarrow> Some (- 1))"
  "c_timed_out (ex_capture (execute H spawn environ elapsed report attempt argv cwd timeout env limit path))
    = (case spawn argv cwd (clean_env environ cwd env) timeout of Process None _ _ \<Rightarrow> True | _ \<Rightarrow> False)"
  "c_runtime_error (ex_capture (execute H spawn environ elapsed report attempt argv cwd timeout env limit path))
    = (case spawn argv cwd (clean_env environ cwd env) timeout of
         Launch_failed msg \<Rightarrow> Some (''Subprocess launch failed: '' @ msg) | _ \<Rightarrow> None)"
  "json_valid_resources (Some (c_resources (ex_capture (execute H spawn environ elapsed report attempt argv cwd timeout env limit path))))
    = is_finite elapsed"
  by (simp_all add: execute_def Let_def case_prod_beta usage_def json_valid_resources_def
    split: spawned.split option.split)

definition build_execution :: "library \<Rightarrow> worker \<Rightarrow> surroundings \<Rightarrow> Job \<Rightarrow> VerifierManifest \<Rightarrow> CommandSpec \<Rightarrow> execution" where
  "build_execution lib wk s job m spec = execute (lib_H lib) (s_build_spawn s) (s_environ s) (s_build_elapsed s)
     (s_build_report s) (j_attempt_id job) (cs_argv spec) (source_of wk job) (vm_timeout_seconds m) (cs_env spec)
     DEFAULT_MAX_CAPTURE_BYTES ''report.json''"

definition verify_step ::
    "library \<Rightarrow> worker \<Rightarrow> surroundings \<Rightarrow> Job \<Rightarrow> VerifierManifest \<Rightarrow> string \<Rightarrow> string \<Rightarrow> run_result res" where
  "verify_step lib wk s job m out err = bind_res (resolved wk job m (vm_command m)) (\<lambda>spec.
     let x = test_execution lib wk s job m spec
     in Inr \<lparr>rr_capture = ex_capture x, rr_stdout_log = (if ex_stdout x = [] then out else ex_stdout x),
          rr_stderr_log = (if ex_stderr x = [] then err else ex_stderr x),
          rr_report = s_test_report s (vm_report_path m)\<rparr>)"

lemma run_commands_eq:
  "run_commands lib wk s aid job m =
    (if vm_build_command m = [] then verify_step lib wk s job m [] []
     else bind_res (resolved wk job m (vm_build_command m)) (\<lambda>spec.
       let x = build_execution lib wk s job m spec
       in case c_exit_code (ex_capture x) of
            Some code \<Rightarrow> if code \<noteq> 0
              then Inr \<lparr>rr_capture = build_failed aid code, rr_stdout_log = ex_stdout x,
                     rr_stderr_log = ex_stderr x, rr_report = s_build_report s (vm_report_path m)\<rparr>
              else verify_step lib wk s job m (ex_stdout x) (ex_stderr x)
          | None \<Rightarrow> verify_step lib wk s job m (ex_stdout x) (ex_stderr x)))"
  unfolding run_commands_def Let_def source_of_def command_paths_def resolved_def test_execution_def
    build_execution_def verify_step_def by (rule refl)

lemma verify_step_Inr:
  assumes "verify_step lib wk s job m out err = Inr rr"
  obtains spec where "resolved wk job m (vm_command m) = Inr spec"
    and "rr_capture rr = ex_capture (test_execution lib wk s job m spec)"
    and "rr_report rr = s_test_report s (vm_report_path m)"
  using assms by (auto simp: verify_step_def bind_res_Inr_iff Let_def)

lemma run_commands_cases:
  assumes "run_commands lib wk s aid job m = Inr rr"
  obtains code where "code \<noteq> 0" and "rr_capture rr = build_failed aid code"
  | spec where "build_passed wk s job m" and "resolved wk job m (vm_command m) = Inr spec"
    and "rr_capture rr = ex_capture (test_execution lib wk s job m spec)"
    and "rr_report rr = s_test_report s (vm_report_path m)"
proof (cases "vm_build_command m = []")
  case True
  then have "build_passed wk s job m" by (simp add: build_passed_def)
  moreover have "verify_step lib wk s job m [] [] = Inr rr"
    using assms True by (simp add: run_commands_eq)
  ultimately show thesis by (metis verify_step_Inr that(2))
next
  case False
  with assms obtain spec where spec: "resolved wk job m (vm_build_command m) = Inr spec"
    by (auto simp: run_commands_eq bind_res_Inr_iff)
  let ?x = "build_execution lib wk s job m spec"
  have "\<exists>code. c_exit_code (ex_capture ?x) = Some code"
    unfolding build_execution_def execute_fields by (auto split: spawned.splits option.splits)
  then obtain code where code: "c_exit_code (ex_capture ?x) = Some code" ..
  show thesis
  proof (cases "code = 0")
    case True
    with code spec have "build_passed wk s job m"
      unfolding build_execution_def execute_fields
      by (auto simp: build_passed_def process_of_def split: spawned.splits option.splits)
    moreover have "verify_step lib wk s job m (ex_stdout ?x) (ex_stderr ?x) = Inr rr"
      using assms False spec code True by (simp add: run_commands_eq Let_def)
    ultimately show thesis by (metis verify_step_Inr that(2))
  next
    case nonzero: False
    with False assms spec code have "rr_capture rr = build_failed aid code"
      by (auto simp: run_commands_eq Let_def)
    with nonzero that(1) show thesis by blast
  qed
qed

section \<open>Earned acceptance\<close>

text \<open>
  What an acceptance rests on: the inputs were resolved, the patch is empty or was validated against
  the manifest's paths and applied by \<open>git\<close>, the build passed, and the verifier exited with 0 within
  its limits, leaving a complete report that shows acceptance.
\<close>

definition patched :: "surroundings \<Rightarrow> string \<Rightarrow> string list \<Rightarrow> bool" where
  "patched s diff allowed \<longleftrightarrow> bytes_blank diff \<or> (validate_patch diff allowed = Inr ()
     \<and> (\<exists>source t source'. s_git s Check source diff = Exited 0 t \<and> s_git s Apply source diff = Exited 0 source'))"

definition earned :: "library \<Rightarrow> worker \<Rightarrow> surroundings \<Rightarrow> store \<Rightarrow> Job \<Rightarrow> bool" where
  "earned lib wk s st job \<longleftrightarrow> (\<exists>dir diff m spec outs errs report tests rs capture.
     resolve_inputs lib wk s st job = Inr (dir, diff, m)
     \<and> patched s diff (vm_allowed_edit_paths m) \<and> build_passed wk s job m
     \<and> resolved wk job m (vm_command m) = Inr spec
     \<and> process_of (s_test_spawn s) wk s job m spec = Process (Some 0) outs errs
     \<and> int (length (fst (delivered (Process (Some 0) outs errs)))) \<le> DEFAULT_MAX_CAPTURE_BYTES
     \<and> int (length (snd (delivered (Process (Some 0) outs errs)))) \<le> DEFAULT_MAX_CAPTURE_BYTES
     \<and> s_test_report s (vm_report_path m) = Some report \<and> int (length report) \<le> DEFAULT_MAX_CAPTURE_BYTES
     \<and> holds_tests (lib_loads lib) (Some report) tests \<and> list_all2 (item_ok (lib_float_str lib)) tests rs
     \<and> accepted_report rs m capture)"

lemma test_execution_clean:
  assumes "clean_execution (ex_capture (test_execution lib wk s job m spec)) m"
    and "c_exit_code (ex_capture (test_execution lib wk s job m spec)) \<in> {None, Some 0}"
  obtains outs errs where "process_of (s_test_spawn s) wk s job m spec = Process (Some 0) outs errs"
    and "int (length (fst (delivered (Process (Some 0) outs errs)))) \<le> DEFAULT_MAX_CAPTURE_BYTES"
    and "int (length (snd (delivered (Process (Some 0) outs errs)))) \<le> DEFAULT_MAX_CAPTURE_BYTES"
    and "\<And>report. s_test_report s (vm_report_path m) = Some report \<Longrightarrow> int (length report) \<le> DEFAULT_MAX_CAPTURE_BYTES"
proof -
  let ?spawn = "s_test_spawn s (cs_argv spec) (source_of wk job)
    (clean_env (s_environ s) (source_of wk job) (cs_env spec)) (vm_timeout_seconds m)"
  obtain out err where d: "delivered ?spawn = (out, err)" by fastforce
  have "\<not> c_truncated (ex_capture (test_execution lib wk s job m spec))"
    using assms(1) by (simp add: clean_execution_def)
  then have fits: "\<not> (DEFAULT_MAX_CAPTURE_BYTES < int (length out) \<or> DEFAULT_MAX_CAPTURE_BYTES < int (length err)
      \<or> (\<exists>content. s_test_report s (vm_report_path m) = Some content \<and> DEFAULT_MAX_CAPTURE_BYTES < int (length content)))"
    unfolding test_execution_def
    using execute_streams(6) [where limit = DEFAULT_MAX_CAPTURE_BYTES and spawn = "s_test_spawn s"
        and command = "cs_argv spec" and workspace = "source_of wk job" and environ = "s_environ s"
        and env = "cs_env spec" and timeout = "vm_timeout_seconds m", OF _ d refl]
    by (simp add: DEFAULT_MAX_CAPTURE_BYTES_def)
  obtain outs errs where p: "?spawn = Process (Some 0) outs errs"
    using assms unfolding clean_execution_def test_execution_def execute_fields
    by (auto split: spawned.splits option.splits)
  show thesis
    by (rule that [of outs errs]) (use p d fits in \<open>auto simp: process_of_def not_less\<close>)
qed

lemma take_small: "int (length xs) \<le> DEFAULT_MAX_CAPTURE_BYTES \<Longrightarrow> take (nat MAX_EVIDENCE_BYTES) xs = xs"
  by (simp add: DEFAULT_MAX_CAPTURE_BYTES_def MAX_EVIDENCE_BYTES_def take_all_iff)

lemma prepared_patched:
  assumes "prepare_workspace (s_git s) existing snapshot (Some diff) allowed = Inr source"
  shows "patched s diff allowed"
  using assms
  by (auto simp: prepare_workspace_def patched_def git_run_def bind_res_Inr_iff Let_def
    split: if_splits git_result.splits)

lemma accepted_run_earned:
  assumes "accepted_run lib (Some m) rr" and "run_commands lib wk s aid job m = Inr rr"
    and "resolve_inputs lib wk s st job = Inr (dir, diff, m)" and "patched s diff (vm_allowed_edit_paths m)"
  shows "earned lib wk s st job"
proof -
  from assms(1) obtain tests rs where ok: "clean_execution (rr_capture rr) m"
    "holds_tests (lib_loads lib) (map_option (take (nat MAX_EVIDENCE_BYTES)) (rr_report rr)) tests"
    "list_all2 (item_ok (lib_float_str lib)) tests rs" "accepted_report rs m (rr_capture rr)"
    by (auto simp: accepted_run_def)
  from assms(2) show ?thesis
  proof (cases rule: run_commands_cases)
    case (1 code)
    with ok(1) show ?thesis by (auto simp: clean_execution_def build_failed_def)
  next
    case (2 spec)
    have "c_exit_code (ex_capture (test_execution lib wk s job m spec)) \<in> {None, Some 0}"
      using ok(4) unfolding 2(3) by (simp add: accepted_report_def)
    from test_execution_clean [OF ok(1) [unfolded 2(3)] this] obtain outs errs where
      p: "process_of (s_test_spawn s) wk s job m spec = Process (Some 0) outs errs"
      "int (length (fst (delivered (Process (Some 0) outs errs)))) \<le> DEFAULT_MAX_CAPTURE_BYTES"
      "int (length (snd (delivered (Process (Some 0) outs errs)))) \<le> DEFAULT_MAX_CAPTURE_BYTES"
      "\<And>report. s_test_report s (vm_report_path m) = Some report \<Longrightarrow> int (length report) \<le> DEFAULT_MAX_CAPTURE_BYTES"
      by blast
    obtain report where report: "s_test_report s (vm_report_path m) = Some report"
      using ok(2) 2(4) by (auto simp: holds_tests_def)
    then have "holds_tests (lib_loads lib) (Some report) tests"
      using ok(2) 2(4) p(4) by (simp add: take_small)
    with assms(3,4) 2(1,2) p report ok(3,4) show ?thesis
      unfolding earned_def by blast
  qed
qed

section \<open>run\_one\<close>

lemma preparation_failed_fields:
  "json_valid_resources (Some (c_resources (preparation_failed aid e)))"
  "c_stdout_hash (preparation_failed aid e) = None \<and> c_stderr_hash (preparation_failed aid e) = None
    \<and> c_report_digest (preparation_failed aid e) = None"
  by (simp_all add: preparation_failed_def made_up_usage_def json_valid_resources_def)

lemma preparation_failed_rejected:
  "\<not> accepted_run lib manifest \<lparr>rr_capture = preparation_failed aid e, rr_stdout_log = [], rr_stderr_log = [], rr_report = None\<rparr>"
  by (simp add: accepted_run_def holds_tests_def)

lemma run_commands_usage:
  assumes "run_commands lib wk s aid job m = Inr rr" and "is_finite (s_test_elapsed s)"
  shows "json_valid_resources (Some (c_resources (rr_capture rr)))"
  using assms(1)
proof (cases rule: run_commands_cases)
  case (1 code)
  then show ?thesis by (simp add: build_failed_def made_up_usage_def json_valid_resources_def)
next
  case (2 spec)
  with assms(2) show ?thesis by (simp add: test_execution_def execute_fields)
qed

lemma settles_or_keeps_handle:
  assumes "same_handle job job'"
  shows "settles_or_keeps job' aid d p rw \<longleftrightarrow> settles_or_keeps job aid d p rw"
proof -
  have "j_job_id job' = j_job_id job" using assms by (simp add: same_handle_def)
  then have "settled job' = settled job" by (intro ext) (simp only: settled_def)
  moreover have "leased_to job' = leased_to job" by (intro ext) (rule leased_to_handle [OF assms])
  ultimately show ?thesis by (simp only: settles_or_keeps_def)
qed

lemma earned_handle:
  assumes "same_handle job job'"
  shows "earned lib wk s st job' \<longleftrightarrow> earned lib wk s st job"
  using assms
  by (simp add: earned_def same_handle_def resolve_inputs_def build_passed_def resolved_def process_of_def
    command_paths_def source_of_def)

text \<open>
  The worker keeps time: \<open>mark_running\<close> and each beat come before the deadline, and so does the
  submission, which without resolved inputs is not preceded by beats.
\<close>

definition timely :: "library \<Rightarrow> worker \<Rightarrow> surroundings \<Rightarrow> store \<Rightarrow> Job \<Rightarrow> bool" where
  "timely lib wk s st job \<longleftrightarrow> (let lease = wk_lease_duration_ms wk; d = s_now_ms s + lease in
     s_running_ms s < d \<and> in_time lease d (s_beats_ms s)
     \<and> s_complete_ms s < (if is_ok (resolve_inputs lib wk s st job) then last_deadline lease d (s_beats_ms s) else d))"

lemma execute_job_settles:
  assumes lease: "leased_to job d (w_db w)" and spare: "\<And>n. spares job (s_others s n)"
    and aid: "j_attempt_id job = Some aid" and finite: "is_finite (s_test_elapsed s)"
    and beats: "in_time (wk_lease_duration_ms wk) d (s_beats_ms s)"
    and submit: "s_complete_ms s < (if is_ok (resolve_inputs lib wk s (w_store w) job)
      then last_deadline (wk_lease_duration_ms wk) d (s_beats_ms s) else d)"
  shows "\<exists>d. settles_or_keeps job aid d (earned lib wk s (w_store w) job) (execute_job lib wk s aid job w)"
proof (cases "resolve_inputs lib wk s (w_store w) job")
  case (Inl e)
  have "settles_or_keeps job aid d (accepted_run lib None \<lparr>rr_capture = preparation_failed aid e,
      rr_stdout_log = [], rr_stderr_log = [], rr_report = None\<rparr>) (execute_job lib wk s aid job w)"
    unfolding execute_job_def Inl sum.case
    by (rule submit_settles [OF lease _ spare aid])
      (use submit Inl preparation_failed_fields in simp_all)
  then show ?thesis
    using preparation_failed_rejected by (metis settles_or_keeps_mono)
next
  case (Inr inputs)
  then obtain dir diff m where inputs: "resolve_inputs lib wk s (w_store w) job = Inr (dir, diff, m)"
    by (cases inputs) auto
  let ?d = "last_deadline (wk_lease_duration_ms wk) d (s_beats_ms s)" and ?n = "Suc (length (s_beats_ms s))"
  obtain job' db' where hb: "heartbeats (s_others s) (wk_lease_duration_ms wk) 1 (s_beats_ms s) job (w_db w) = (job', False, db')"
    "same_handle job job'" "leased_to job' ?d db'"
    using heartbeats_keep_lease [where n = 1 and others = "s_others s", OF lease beats spare] by blast
  have in_time: "s_complete_ms s < ?d" using submit inputs by simp
  have aid': "j_attempt_id job' = Some aid" using hb(2) aid by (simp add: same_handle_def)
  note spare' = spares_handle [OF hb(2) spare]
  let ?name = "or_str (j_attempt_id job) ''default''"
  let ?existing = "case w_dirs w ?name of None \<Rightarrow> Map.empty | Some t \<Rightarrow> t"
  let ?snapshot = "if s_is_dir s dir then s_snapshot s dir else []"
  have job: "execute_job lib wk s aid job w =
    (case prepare_workspace (s_git s) ?existing ?snapshot (Some diff) (vm_allowed_edit_paths m) of
       Inl e \<Rightarrow> submit lib s aid ?n job' False (Some m)
         \<lparr>rr_capture = preparation_failed aid e, rr_stdout_log = [], rr_stderr_log = [], rr_report = None\<rparr>
         (w\<lparr>w_db := db', w_dirs := (w_dirs w)(?name \<mapsto> copy_snapshot ?snapshot ?existing)\<rparr>)
     | Inr source \<Rightarrow>
       let w' = w\<lparr>w_db := db', w_dirs := (w_dirs w)(?name \<mapsto> source)\<rparr>
       in case run_commands lib wk s aid job' m of
            Inl e \<Rightarrow> (Inl e, w') | Inr rr \<Rightarrow> submit lib s aid ?n job' False (Some m) rr w')"
    unfolding execute_job_def inputs sum.case prod.case Let_def hb(1) by (rule refl)
  have "\<exists>d. settles_or_keeps job' aid d (earned lib wk s (w_store w) job') (execute_job lib wk s aid job w)"
  proof (cases "prepare_workspace (s_git s) ?existing ?snapshot (Some diff) (vm_allowed_edit_paths m)")
    case (Inl e)
    have "settles_or_keeps job' aid ?d (accepted_run lib (Some m) \<lparr>rr_capture = preparation_failed aid e,
        rr_stdout_log = [], rr_stderr_log = [], rr_report = None\<rparr>) (execute_job lib wk s aid job w)"
      unfolding job Inl sum.case
      by (rule submit_settles [OF _ in_time spare' aid']) (use hb(3) preparation_failed_fields in simp_all)
    then show ?thesis
      using preparation_failed_rejected by (metis settles_or_keeps_mono)
  next
    case prepared: (Inr source)
    let ?w = "w\<lparr>w_db := db', w_dirs := (w_dirs w)(?name \<mapsto> source)\<rparr>"
    have lease': "leased_to job' ?d (w_db ?w)" using hb(3) by simp
    show ?thesis
    proof (cases "run_commands lib wk s aid job' m")
      case (Inl e)
      with job prepared lease' show ?thesis by (auto simp: settles_or_keeps_def Let_def)
    next
      case rr: (Inr rr)
      have "settles_or_keeps job' aid ?d (accepted_run lib (Some m) rr) (submit lib s aid ?n job' False (Some m) rr ?w)"
        by (rule submit_settles [OF lease' in_time spare' aid' run_commands_usage [OF rr finite]]) simp
      moreover have "resolve_inputs lib wk s (w_store w) job' = Inr (dir, diff, m)"
        using inputs hb(2) by (simp add: resolve_inputs_def same_handle_def)
      then have "accepted_run lib (Some m) rr \<Longrightarrow> earned lib wk s (w_store w) job'"
        using prepared_patched [OF prepared] accepted_run_earned [OF _ rr] by blast
      ultimately have "settles_or_keeps job' aid ?d (earned lib wk s (w_store w) job')
          (submit lib s aid ?n job' False (Some m) rr ?w)"
        by (rule settles_or_keeps_mono)
      then show ?thesis
        using job prepared rr by (auto simp: Let_def)
    qed
  qed
  then show ?thesis
    by (simp only: settles_or_keeps_handle [OF hb(2)] earned_handle [OF hb(2)])
qed

text \<open>
  C29. What a call of \<open>run_one\<close> does with the job it claims, while the others spare its lease and the
  heartbeats keep it alive. Either it answers true: the attempt was committed, because no constraint of
  the schema can refuse it, the job is \<open>DONE\<close>, or \<open>FAILED\<close> for an error, and an acceptance was
  earned by a validated patch, a passing build and a clean, complete, accepting run of the verifier. Or it
  raises, and the job is still leased to it, for the reaper to release. In both cases the attempt's
  directory is gone.
\<close>

theorem run_one_settles_or_keeps_lease:
  assumes inv: "db_inv (w_db w)"
    and fresh: "\<And>n. fst (s_fresh s n) \<noteq> [] \<and> attempt_of (w_db w) (fst (s_fresh s n)) = None"
    and claimed: "fst (claim (w_db w) (wk_worker_id wk) (s_now_ms s) run (wk_lease_duration_ms wk) (s_fresh s)) = Inr (Some job)"
    and aid: "j_attempt_id job = Some aid"
    and spare: "\<And>n. spares job (s_others s n)" and "timely lib wk s (w_store w) job"
    and finite: "is_finite (s_test_elapsed s)"
  shows "case run_one lib wk s run w of
     (Inr answer, w') \<Rightarrow> answer \<and> w_dirs w' aid = None
       \<and> (\<exists>result. settled job aid result (w_db w') \<and> (result = Accept \<longrightarrow> earned lib wk s (w_store w) job))
   | (Inl e, w') \<Rightarrow> w_dirs w' aid = None \<and> (\<exists>deadline. leased_to job deadline (w_db w'))"
proof -
  let ?d = "s_now_ms s + wk_lease_duration_ms wk"
  obtain db1 where claim: "claim (w_db w) (wk_worker_id wk) (s_now_ms s) run (wk_lease_duration_ms wk) (s_fresh s)
      = (Inr (Some job), db1)"
    using claimed by (metis prod.collapse)
  have lease: "leased_to job ?d db1" and "\<exists>n. j_attempt_id job = Some (fst (s_fresh s n))"
    using claim_leases [OF inv _ claim] fresh by auto
  then have "aid \<noteq> []" using aid fresh by auto
  then have or_aid: "or_str (j_attempt_id job) x = aid" for x using aid by (simp add: or_str_def)
  have "leased_to job ?d (s_others s 0 db1)" "s_running_ms s < ?d"
    using lease spare [of 0] assms(6) by (auto simp: spares_def timely_def Let_def)
  from mark_running_keeps_lease [OF this] obtain job1 db2 where run: "mark_running (s_others s 0 db1) job (s_running_ms s) = (Inr job1, db2)"
    "same_handle job job1" "leased_to job1 ?d db2" by blast
  let ?w = "w\<lparr>w_db := db2\<rparr>"
  have keys: "resolve_inputs lib wk s st job1 = resolve_inputs lib wk s st job" for st
    using run(2) by (simp add: resolve_inputs_def same_handle_def)
  have "\<exists>d. settles_or_keeps job1 aid d (earned lib wk s (w_store ?w) job1) (execute_job lib wk s aid job1 ?w)"
    by (rule execute_job_settles [where d = ?d])
      (use run(2,3) assms(6) aid finite spares_handle [OF run(2) spare] in \<open>simp_all add: keys timely_def Let_def same_handle_def\<close>)
  then obtain d where "settles_or_keeps job aid d (earned lib wk s (w_store w) job) (execute_job lib wk s aid job1 ?w)"
    by (auto simp: settles_or_keeps_handle [OF run(2)] earned_handle [OF run(2)])
  moreover have "run_one lib wk s run w = cleaned_up aid (execute_job lib wk s aid job1 ?w)"
    using claim run(1) by (simp add: run_one_def on_db_def or_aid Let_def)
  ultimately show ?thesis
    by (auto simp: settles_or_keeps_def cleaned_up_def cleanup_attempt_def split: prod.splits sum.splits)
qed

text \<open>A worker that claims the job \<open>a\<close> of the example database, with one heartbeat.\<close>

definition ex_worker :: worker where
  "ex_worker = \<lparr>wk_worker_id = ''w'', wk_work_dir = ''/tmp'', wk_snapshot_resolver = Callable (\<lambda>_. Inr ''/snap''),
     wk_diff_resolver = Callable (\<lambda>_. Inr []), wk_manifest_resolver = Callable (\<lambda>_. Inr ex_vmanifest),
     wk_lease_duration_ms = 50\<rparr>"

definition ex_surroundings :: surroundings where
  "ex_surroundings = \<lparr>s_now_ms = 100, s_fresh = ex_fresh, s_uuid = ''u'', s_others = (\<lambda>_ db. db), s_running_ms = 101,
     s_beats_ms = [140], s_complete_ms = 180, s_started_at = 0, s_finished_at = 1, s_stored_at = 1,
     s_archive_uri = (\<lambda>_. None), s_diff_digest = (\<lambda>_. None), s_manifest_row = (\<lambda>_. None), s_is_dir = (\<lambda>_. True),
     s_snapshot = (\<lambda>_. []), s_git = (\<lambda>_ _ _. Git_timeout), s_environ = (\<lambda>_. None),
     s_build_spawn = (\<lambda>_ _ _ _. Process (Some 0) [] []), s_build_elapsed = PFin 1, s_build_report = (\<lambda>_. None),
     s_test_spawn = (\<lambda>_ _ _ _. Process (Some 0) [''ok''] []), s_test_elapsed = PFin 1,
     s_test_report = (\<lambda>_. Some ''{}'')\<rparr>"

definition ex_library :: library where
  "ex_library = \<lparr>lib_H = ex_digest, lib_uri = id, lib_loads = ex_loads, lib_float_str = (\<lambda>_. None)\<rparr>"

definition ex_world :: world where
  "ex_world = \<lparr>w_db = ex_db, w_store = empty_store, w_dirs = Map.empty\<rparr>"

theorem run_one_settles_or_keeps_lease_witness:
  "case run_one ex_library ex_worker ex_surroundings None ex_world of
     (Inr answer, w') \<Rightarrow> answer \<and> (\<exists>result. settled ex_handle ''attempt'' result (w_db w')
       \<and> (result = Accept \<longrightarrow> earned ex_library ex_worker ex_surroundings empty_store ex_handle))
   | (Inl e, w') \<Rightarrow> \<exists>deadline. leased_to ex_handle deadline (w_db w')"
proof -
  have inputs: "is_ok (resolve_inputs ex_library ex_worker ex_surroundings (w_store ex_world) ex_handle)"
    by (simp add: resolve_inputs_def resolve_snapshot_def resolve_diff_def resolve_manifest_def look_up_def
      ex_worker_def ex_surroundings_def ex_vmanifest_def path_escapes_def)
  have timely: "timely ex_library ex_worker ex_surroundings (w_store ex_world) ex_handle"
    unfolding timely_def Let_def using inputs by (simp add: ex_worker_def ex_surroundings_def)
  have inv: "db_inv (w_db ex_world)"
    using planned_db_inv [OF ex_planned] by (simp add: ex_world_def)
  have claimed: "fst (claim (w_db ex_world) (wk_worker_id ex_worker) (s_now_ms ex_surroundings) None
      (wk_lease_duration_ms ex_worker) (s_fresh ex_surroundings)) = Inr (Some ex_handle)"
    using ex_claim by (simp add: ex_world_def ex_worker_def ex_surroundings_def)
  have fresh: "fst (s_fresh ex_surroundings n) \<noteq> [] \<and> attempt_of (w_db ex_world) (fst (s_fresh ex_surroundings n)) = None"
    "spares ex_handle (s_others ex_surroundings n)" "is_finite (s_test_elapsed ex_surroundings)"
    "w_store ex_world = empty_store" "j_attempt_id ex_handle = Some ''attempt''" for n
    by (simp_all add: ex_world_def ex_surroundings_def ex_fresh_def ex_db_def spares_id ex_handle_def claimed_job_def)
  from run_one_settles_or_keeps_lease [OF inv fresh(1) claimed fresh(5) fresh(2) timely fresh(3)]
  show ?thesis unfolding fresh(4) by (auto split: prod.splits sum.splits)
qed

end
