(* ===== verification/Worker_Loop.thy ===== *)
theory Worker_Loop
  imports Worker_Properties Queue_Lifecycle
begin

text \<open>
  The worker under arbitrary interference. A locale says what a relation on databases needs for every
  call of \<open>run_one\<close> and of \<open>run_until_terminal\<close> to be in it; it is interpreted for the safety of
  the queue and for the number of pending jobs, which bounds the loop.
\<close>

lemma then_do_stop: "\<not> is_ok r \<Longrightarrow> snd (then_do (r, w) f) = w"
  by (cases r) simp_all

section \<open>Relations that every step of the worker respects\<close>

locale worker_moves =
  fixes R :: "db \<Rightarrow> db \<Rightarrow> bool"
  assumes refl: "R db db"
    and trans: "R a b \<Longrightarrow> R b c \<Longrightarrow> R a c"
    and claim: "R db (snd (claim db worker now_ms run lease fresh))"
    and mark_running: "R db (snd (mark_running db job now_ms))"
    and heartbeat: "R db (snd (heartbeat db job now_ms ext))"
    and complete: "R db (snd (complete db job attempt now_ms))"
    and registers: "only_registers db db' \<Longrightarrow> R db db'"
begin

lemma heartbeats_R:
  assumes "\<And>n db. R db (others n db)"
  shows "R db (snd (snd (heartbeats others ext n beats job db)))"
proof (induction beats arbitrary: n job db)
  case Nil
  show ?case by (simp add: refl)
next
  case (Cons t ts)
  obtain r db1 where b: "heartbeat (others n db) job t ext = (r, db1)" by fastforce
  have "R db db1"
    using trans [OF assms [where n = n and db = db] heartbeat [where db = "others n db" and job = job and now_ms = t and ext = ext]] b by simp
  with b Cons.IH show ?case by (cases r) (auto intro: trans)
qed

lemma submit_R:
  assumes "\<And>n db. R db (s_others s n db)"
  shows "R (w_db w) (w_db (snd (submit lib s aid n job lost manifest rr w)))"
proof -
  let ?report = "if manifest = None then None else map_option (take (nat MAX_EVIDENCE_BYTES)) (rr_report rr)"
  obtain r1 w1 where k1: "keep_log lib s ''stdout'' (rr_stdout_log rr) w = (r1, w1)" by fastforce
  obtain r2 w2 where k2: "keep_log lib s ''stderr'' (rr_stderr_log rr) w1 = (r2, w2)" by fastforce
  obtain r3 w3 where k3: "keep_report lib s ?report w2 = (r3, w3)" by fastforce
  have g1: "R (w_db w) (w_db w1)" by (rule registers [OF keep_log_registers(1) [OF k1]])
  have g2: "R (w_db w) (w_db w2)" by (rule trans [OF g1 registers [OF keep_log_registers(1) [OF k2]]])
  have g3: "R (w_db w) (w_db w3)" by (rule trans [OF g2 registers [OF keep_report_registers(1) [OF k3]]])
  have fin: "R (w_db w) (snd (complete (s_others s n (w_db w3)) job att t))" for att t
    by (rule trans [OF g3 trans [OF assms complete]])
  show ?thesis
  proof (cases "is_ok r1 \<and> is_ok r2 \<and> is_ok r3")
    case False
    then consider "\<not> is_ok r1" | so where "r1 = Inr so" "\<not> is_ok r2"
      | so se where "r1 = Inr so" "r2 = Inr se" "\<not> is_ok r3"
      by (auto simp: is_ok_iff)
    then show ?thesis
      by cases (use k1 k2 k3 g1 g2 g3 in \<open>simp_all add: submit_def Let_def then_do_stop\<close>)
  next
    case True
    then obtain so se rd where ok: "r1 = Inr so" "r2 = Inr se" "r3 = Inr rd"
      by (auto simp: is_ok_iff)
    let ?evidence = "digest_list [so, se, rd]"
    let ?capture = "if manifest = None then rr_capture rr else (rr_capture rr)\<lparr>c_stdout_hash := so,
      c_stderr_hash := se, c_report_digest := rd\<rparr>"
    have "submit lib s aid n job lost manifest rr w =
        (case worker_outcome lib ?capture manifest ?report ?evidence of
           Inl e \<Rightarrow> (Inl e, w3)
         | Inr po \<Rightarrow> then_do (on_db (s_others s n) (\<lambda>db. complete db job
               (built_attempt s aid job lost po ?capture ?evidence) (s_complete_ms s)) w3) (\<lambda>_ w. (Inr True, w)))"
      using k1 k2 k3 ok by (simp add: submit_def Let_def)
    moreover have "R (w_db w) (w_db (snd (then_do (on_db (s_others s n) (\<lambda>db. complete db job att t) w3) (\<lambda>_ w. (Inr True, w)))))"
      for att t
      using fin [of att t] by (auto simp: on_db_def then_do_def split: prod.splits sum.splits)
    ultimately show ?thesis
      using g3 by (simp split: sum.split)
  qed
qed

lemma execute_job_R:
  assumes "\<And>n db. R db (s_others s n db)"
  shows "R (w_db w) (w_db (snd (execute_job lib wk s aid job w)))"
proof (cases "resolve_inputs lib wk s (w_store w) job")
  case (Inl e)
  then show ?thesis by (simp add: execute_job_def submit_R [OF assms])
next
  case (Inr inputs)
  then obtain dir diff m where inputs: "resolve_inputs lib wk s (w_store w) job = Inr (dir, diff, m)"
    by (cases inputs) auto
  obtain job' lost db' where hb: "heartbeats (s_others s) (wk_lease_duration_ms wk) 1 (s_beats_ms s) job (w_db w) = (job', lost, db')"
    by (metis prod_cases3)
  have beats: "R (w_db w) db'"
    using heartbeats_R [where others = "s_others s", OF assms] hb by (metis snd_conv)
  have "R (w_db w) (w_db (snd (submit lib s aid n job' lost manifest rr (w\<lparr>w_db := db', w_dirs := dirs\<rparr>))))"
    for n manifest rr dirs
    using trans [OF beats] submit_R [where s = s and w = "w\<lparr>w_db := db', w_dirs := dirs\<rparr>", OF assms] by simp
  with beats show ?thesis
    unfolding execute_job_def inputs sum.case prod.case Let_def hb by (simp split: sum.split)
qed

lemma run_one_R:
  assumes "\<And>n db. R db (s_others s n db)"
  shows "R (w_db w) (w_db (snd (run_one lib wk s run w)))"
proof -
  obtain r db1 where c: "claim (w_db w) (wk_worker_id wk) (s_now_ms s) run (wk_lease_duration_ms wk) (s_fresh s) = (r, db1)"
    by fastforce
  have c1: "R (w_db w) db1"
    using claim [where db = "w_db w"] c by (metis snd_conv)
  show ?thesis
  proof (cases "\<exists>job. r = Inr (Some job)")
    case False
    with c c1 show ?thesis
      by (cases r) (auto simp: run_one_def on_db_def split: option.splits)
  next
    case True
    then obtain job where job: "r = Inr (Some job)" by blast
    obtain q db2 where m: "Queue.mark_running (s_others s 0 db1) job (s_running_ms s) = (q, db2)" by fastforce
    have m1: "R (w_db w) db2"
      using trans [OF c1 trans [OF assms mark_running]] m by (metis snd_conv)
    have "R (w_db w) (w_db (snd (execute_job lib wk s aid job' (w\<lparr>w_db := db2\<rparr>))))" for aid job'
      using trans [OF m1] execute_job_R [where s = s and w = "w\<lparr>w_db := db2\<rparr>", OF assms] by simp
    with c m m1 job show ?thesis
      by (cases q) (auto simp: run_one_def on_db_def cleaned_up_def Let_def)
  qed
qed

lemma run_until_terminal_R:
  assumes "\<And>s n db. s \<in> set ss \<Longrightarrow> R db (s_others s n db)"
  shows "R (w_db w) (w_db (snd (run_until_terminal lib wk ss run w)))"
  using assms
proof (induction ss arbitrary: w)
  case Nil
  show ?case by (simp add: refl)
next
  case (Cons s ss)
  obtain r w1 where one: "run_one lib wk s run w = (r, w1)" by fastforce
  have "R (w_db w) (w_db w1)"
    using run_one_R [where s = s and w = w and lib = lib and wk = wk and run = run] Cons.prems [of s] one by simp
  moreover have "R (w_db w1) (w_db (snd (run_until_terminal lib wk ss run w1)))"
    using Cons.IH Cons.prems by simp
  ultimately show ?case
    using one by (cases r) (auto simp: then_do_def intro: trans split: prod.splits sum.splits)
qed

end

section \<open>Safety of the queue\<close>

text \<open>The database keeps the invariant, its tables evolve, so nothing settled changes, and the identities
  of jobs and runs stay as they are.\<close>

definition safely_moves :: "db \<Rightarrow> db \<Rightarrow> bool" where
  "safely_moves db db' \<longleftrightarrow> (if db_inv db then db_inv db' \<and> db_evolves db db' \<and> static db' = static db else True)"

lemma run_op_safe: "safely_moves db (run_op p db)"
  using run_op_preserve [of db p] run_op_static [of db p] by (simp add: safely_moves_def)

lemma queue_steps_safe: "queue_steps db db' \<Longrightarrow> safely_moves db db'"
proof (induction rule: queue_steps.induct)
  case (step db db' db'')
  then show ?case
    using run_op_safe by (auto simp: safely_moves_def queue_step_iff intro: db_evolves_trans split: if_splits)
qed (simp add: safely_moves_def)

lemma only_registers_safe: "only_registers db db' \<Longrightarrow> safely_moves db db'"
  by (auto simp: only_registers_def safely_moves_def db_inv_def db_keys_def db_evolves_def table_evolves_refl static_def)

interpretation safe: worker_moves safely_moves
proof
  show "safely_moves db db" for db by (simp add: safely_moves_def)
  show "safely_moves a b \<Longrightarrow> safely_moves b c \<Longrightarrow> safely_moves a c" for a b c
    by (auto simp: safely_moves_def intro: db_evolves_trans split: if_splits)
  show "safely_moves db (snd (claim db worker now_ms run lease fresh))" for db worker now_ms run lease fresh
    using run_op_safe [of db "Op_claim worker now_ms run lease fresh"] by simp
  show "safely_moves db (snd (mark_running db job now_ms))" for db job now_ms
    using run_op_safe [of db "Op_mark_running job now_ms"] by simp
  show "safely_moves db (snd (heartbeat db job now_ms ext))" for db job now_ms ext
    using run_op_safe [of db "Op_heartbeat job now_ms ext"] by simp
  show "safely_moves db (snd (complete db job attempt now_ms))" for db job attempt now_ms
    using run_op_safe [of db "Op_complete job attempt now_ms"] by simp
qed (rule only_registers_safe)

text \<open>
  The worker keeps the queue safe whatever happens around it. However many calls of \<open>run_one\<close> are
  made, with whatever patches, manifests, processes, reports and clocks, and whatever queue operations
  the other connections run in between, the invariant of the queue holds afterwards: at most one attempt
  of a job is authoritative, and every attempt that was authoritative before is still there, unchanged.
\<close>

lemma worker_keeps_queue_safe:
  assumes "db_inv (w_db w)" and "\<And>s n db. s \<in> set ss \<Longrightarrow> queue_steps db (s_others s n db)"
  shows "let db' = w_db (snd (run_until_terminal lib wk ss run w)) in
    db_inv db' \<and> authority_unique (attempts db')
    \<and> list_all (\<lambda>r. if ar_disposition r = Authoritative then attempt_of db' (ar_attempt_id r) = Some r else True)
        (attempts (w_db w))"
proof -
  let ?db' = "w_db (snd (run_until_terminal lib wk ss run w))"
  have "safely_moves (w_db w) ?db'"
    by (rule safe.run_until_terminal_R) (rule queue_steps_safe [OF assms(2)])
  then have inv: "db_inv ?db'" and ev: "db_evolves (w_db w) ?db'"
    using assms(1) by (simp_all add: safely_moves_def)
  have "attempt_of ?db' (ar_attempt_id r) = Some r"
    if "r \<in> set (attempts (w_db w))" "ar_disposition r = Authoritative" for r
    using db_evolvesD(2) [OF ev db_keysD(2) [OF db_invD(1) [OF assms(1)] that(1)]] that(2)
    by (auto simp: row_evolves_def)
  with inv db_inv_authority_unique [OF inv] show ?thesis by (auto simp: list_all_iff Let_def)
qed

lemma worker_keeps_queue_safe_witness:
  "db_inv (w_db (snd (run_until_terminal ex_library ex_worker [ex_surroundings, ex_surroundings] None ex_world)))"
  using worker_keeps_queue_safe [of ex_world "[ex_surroundings, ex_surroundings]" ex_library ex_worker None]
    planned_db_inv [OF ex_planned]
  by (auto simp: ex_world_def ex_surroundings_def Let_def intro: queue_steps.start)

section \<open>The loop ends with an empty queue\<close>

definition pending_shrinks :: "db \<Rightarrow> db \<Rightarrow> bool" where
  "pending_shrinks db db' \<longleftrightarrow> pending_count db' \<le> pending_count db"

lemma pending_shrinks_jobs: "jobs db' = jobs db \<Longrightarrow> pending_shrinks db db'"
  by (simp add: pending_shrinks_def pending_count_def)

lemma pending_shrinks_update:
  assumes "\<And>j. j_state (f j) = PENDING \<Longrightarrow> j_state j = PENDING"
  shows "pending_shrinks db (update_jobs p f db)"
proof -
  have "length (filter (\<lambda>j. j_state j = PENDING) (update_where p f js)) \<le> length (filter (\<lambda>j. j_state j = PENDING) js)" for js
  proof (induction js)
    case (Cons j js)
    then show ?case using assms [of j] by (cases "p j") auto
  qed simp
  then show ?thesis by (simp add: pending_shrinks_def pending_count_def update_jobs_frame)
qed

lemma pending_count_frame [frame_simps]:
  "pending_count (update_run_state rid now_ms db) = pending_count db"
  "pending_count (db\<lparr>attempts := rows\<rparr>) = pending_count db"
  "pending_count (db\<lparr>artifact_digests := ds\<rparr>) = pending_count db"
  by (simp_all add: pending_count_def frame_simps)

text \<open>A claim that hands out a job leaves one pending job less, a claim that does not leaves none.\<close>

lemma claim_loop_pending:
  assumes "claim_loop worker run now_ms lease fresh n db = Inr (res, db')"
  shows "case res of None \<Rightarrow> next_pending db' run = None \<and> pending_count db' \<le> pending_count db
    | Some _ \<Rightarrow> pending_count db' < pending_count db"
  using assms
proof (induction worker run now_ms lease fresh n db rule: claim_loop.induct)
  case (1 worker run now_ms lease fresh n db)
  note unf = claim_loop.simps [of worker run now_ms lease fresh n db]
  show ?case
  proof (cases "next_pending db run")
    case None
    with "1.prems" show ?thesis by (auto simp: unf)
  next
    case (Some row)
    note row = next_pending_SomeD(1,2) [OF Some]
    show ?thesis
    proof (cases "run_cancelled db (j_run_id row)")
      case True
      have "pending_count (update_run_state (j_run_id row) now_ms (fail_pending (j_run_id row) db)) < pending_count db"
        using fail_pending_count [OF row] by (simp add: frame_simps)
      with "1.IH"(1) [OF Some True] "1.prems" Some True show ?thesis
        by (fastforce simp: unf split: option.splits)
    next
      case False
      let ?hit = "\<lambda>j. j_job_id j = j_job_id row \<and> j_state j = PENDING"
      let ?f = "claimed_row (fst (fresh n)) (j_fence row + 1) (snd (fresh n)) worker (now_ms + lease)
        (j_attempts_started row + 1)"
      have hit: "filter ?hit (jobs db) \<noteq> []" using row by (auto simp: filter_empty_conv)
      have "pending_count (update_jobs ?hit ?f db) < pending_count db"
        unfolding pending_count_def update_jobs_frame update_where_def
        by (rule length_filter_map_less [where x = row]) (use row in \<open>auto simp: claimed_row_def split: if_splits\<close>)
      with "1.prems" Some False hit show ?thesis
        by (auto simp: unf Let_def bind_res_Inr_iff frame_simps dest!: insert_attempt_InrD(1))
    qed
  qed
qed

lemma claim_pending:
  assumes "claim db worker now_ms run lease fresh = (r, db')"
  shows "case r of Inl e \<Rightarrow> db' = db
    | Inr None \<Rightarrow> next_pending db' run = None \<and> pending_count db' \<le> pending_count db
    | Inr (Some _) \<Rightarrow> pending_count db' < pending_count db"
proof (cases "claim_loop worker run now_ms lease fresh 0 db")
  case (Inl e)
  with assms show ?thesis by (auto simp: claim_def in_transaction_def)
next
  case (Inr v)
  with assms claim_loop_pending [of worker run now_ms lease fresh 0 db "fst v" "snd v"] show ?thesis
    by (auto simp: claim_def in_transaction_def split: prod.splits option.splits)
qed

lemma claim_shrinks: "pending_shrinks db (snd (claim db worker now_ms run lease fresh))"
proof -
  obtain r db' where c: "claim db worker now_ms run lease fresh = (r, db')" by fastforce
  from claim_pending [OF c] have "pending_count db' \<le> pending_count db"
    by (auto split: sum.splits option.splits)
  with c show ?thesis by (simp add: pending_shrinks_def)
qed

lemma complete_pending: "pending_shrinks db (snd (complete db job att t))"
proof (cases "complete_body job att t db")
  case (Inl e)
  then show ?thesis by (simp add: complete_def in_transaction_def pending_shrinks_def)
next
  case (Inr v)
  then obtain c db' where body: "complete_body job att t db = Inr (c, db')" by (cases v) auto
  have "pending_shrinks db db'"
  proof (cases "c = Committed")
    case True
    with body obtain db1 where upd: "update_attempts (\<lambda>r. ar_attempt_id r = a_attempt_id att) (committed_row att t) db = Inr db1"
      and db': "db' = update_run_state (j_run_id job) t (update_jobs (\<lambda>j. j_job_id j = j_job_id job) (settled_row att) db1)"
      by (auto simp: complete_commit_def bind_res_Inr_iff split: if_splits elim!: complete_body_Committed)
    have "pending_shrinks db1 (update_jobs (\<lambda>j. j_job_id j = j_job_id job) (settled_row att) db1)"
      by (rule pending_shrinks_update) (simp add: settled_row_def terminal_state_of_def split: if_splits)
    with update_attempts_InrD(1) [OF upd] show ?thesis
      by (simp add: db' pending_shrinks_def frame_simps)
  next
    case False
    have stale: "stale_result db att t = Inr (c', d) \<Longrightarrow> jobs d = jobs db" for c' d
      by (rule stale_result_frame(1))
    have settled_before: "complete_terminal row att t db = Inr (c', d) \<Longrightarrow> jobs d = jobs db" for row c' d
      using complete_terminal_Inr [of row att t db c' d] stale by auto
    have "jobs db' = jobs db"
      using body False stale settled_before
      by (auto simp: complete_body_def complete_commit_def bind_res_Inr_iff Let_def split: option.splits if_splits)
    then show ?thesis by (rule pending_shrinks_jobs)
  qed
  with body show ?thesis by (simp add: complete_def in_transaction_def)
qed

interpretation shrinks: worker_moves pending_shrinks
proof
  show "pending_shrinks db db" for db by (simp add: pending_shrinks_def)
  show "pending_shrinks a b \<Longrightarrow> pending_shrinks b c \<Longrightarrow> pending_shrinks a c" for a b c
    by (simp add: pending_shrinks_def)
  show "pending_shrinks db (snd (claim db worker now_ms run lease fresh))" for db worker now_ms run lease fresh
    by (rule claim_shrinks)
  show "pending_shrinks db (snd (mark_running db job now_ms))" for db job now_ms
    using pending_shrinks_update [of "\<lambda>j. j\<lparr>j_state := RUNNING\<rparr>" db "\<lambda>j. j_job_id j = j_job_id job"]
    by (auto simp: mark_running_def in_transaction_def mark_running_body_def Let_def pending_shrinks_def split: option.splits)
  show "pending_shrinks db (snd (heartbeat db job now_ms ext))" for db job now_ms ext
    using pending_shrinks_update [of "\<lambda>j. j\<lparr>j_lease_expires_ms := Some (now_ms + ext)\<rparr>" db "\<lambda>j. j_job_id j = j_job_id job"]
    by (auto simp: heartbeat_def in_transaction_def heartbeat_body_def Let_def pending_shrinks_def split: option.splits)
  show "pending_shrinks db (snd (complete db job attempt now_ms))" for db job attempt now_ms
    by (rule complete_pending)
  show "only_registers db db' \<Longrightarrow> pending_shrinks db db'" for db db'
    by (auto simp: only_registers_def intro: pending_shrinks_jobs)
qed

text \<open>No pending job is left for the run.\<close>

definition drained :: "db \<Rightarrow> string option \<Rightarrow> bool" where
  "drained db run \<longleftrightarrow> list_all (\<lambda>j. \<not> (j_state j = PENDING
     \<and> (case run of None \<Rightarrow> True | Some rid \<Rightarrow> j_run_id j = rid))) (jobs db)"

lemma drained_iff: "drained db run \<longleftrightarrow> next_pending db run = None"
  unfolding next_pending_None_iff by (auto simp: drained_def list_all_iff split: option.splits)

lemma submit_true: "submit lib s aid n job lost manifest rr w = (Inr answer, w') \<Longrightarrow> answer"
  by (auto simp: submit_def then_do_def Let_def split: prod.splits sum.splits)

lemma execute_job_true: "execute_job lib wk s aid job w = (Inr answer, w') \<Longrightarrow> answer"
  by (auto simp: execute_job_def Let_def split: sum.splits prod.splits dest: submit_true)

lemma run_one_progress:
  assumes "run_one lib wk s run w = (Inr answer, w')" and "\<And>n db. pending_shrinks db (s_others s n db)"
  shows "if answer then pending_count (w_db w') < pending_count (w_db w)
    else drained (w_db w') run \<and> pending_count (w_db w') \<le> pending_count (w_db w)"
proof -
  obtain r db1 where c: "claim (w_db w) (wk_worker_id wk) (s_now_ms s) run (wk_lease_duration_ms wk) (s_fresh s) = (r, db1)"
    by fastforce
  note claimed = claim_pending [OF c]
  show ?thesis
  proof (cases r)
    case (Inl e)
    with assms(1) c show ?thesis by (simp add: run_one_def on_db_def)
  next
    case (Inr found)
    show ?thesis
    proof (cases found)
      case None
      with assms(1) c Inr claimed show ?thesis by (auto simp: run_one_def on_db_def drained_iff)
    next
      case (Some job)
      then have less: "pending_count db1 < pending_count (w_db w)" using claimed Inr by simp
      obtain q db2 where m: "mark_running (s_others s 0 db1) job (s_running_ms s) = (q, db2)" by fastforce
      have le: "pending_count db2 \<le> pending_count db1"
        using shrinks.trans [OF assms(2) [of db1 0] shrinks.mark_running [where db = "s_others s 0 db1" and job = job and now_ms = "s_running_ms s"]] m
        by (simp add: pending_shrinks_def)
      obtain job' where q: "q = Inr job'"
        using assms(1) c Inr Some m by (cases q) (auto simp: run_one_def on_db_def cleaned_up_def Let_def)
      let ?aid = "or_str (j_attempt_id job) (s_uuid s)" and ?w = "w\<lparr>w_db := db2\<rparr>"
      obtain x w3 where e: "execute_job lib wk s ?aid job' ?w = (x, w3)" by fastforce
      have "pending_count (w_db w3) \<le> pending_count db2"
        using shrinks.execute_job_R [where s = s and w = ?w and lib = lib and wk = wk and aid = ?aid and job = job', OF assms(2)] e
        by (simp add: pending_shrinks_def)
      moreover have "x = Inr answer" "w_db w' = w_db w3"
        using assms(1) c Inr Some m q e by (auto simp: run_one_def on_db_def cleaned_up_def Let_def)
      moreover have "answer" if "x = Inr answer"
        using e that by (auto dest: execute_job_true)
      ultimately show ?thesis using less le by simp
    qed
  qed
qed

lemma run_until_terminal_progress:
  assumes "run_until_terminal lib wk ss run w = (Inr n, w')"
    and "\<And>s n db. s \<in> set ss \<Longrightarrow> pending_shrinks db (s_others s n db)"
  shows "n + pending_count (w_db w') \<le> pending_count (w_db w) \<and> (n < length ss \<longrightarrow> drained (w_db w') run)"
  using assms
proof (induction ss arbitrary: w n)
  case Nil
  then show ?case by simp
next
  case (Cons s ss)
  obtain r w1 where one: "run_one lib wk s run w = (r, w1)" by fastforce
  then obtain answer where r: "r = Inr answer"
    using Cons.prems(1) by (cases r) auto
  note step = run_one_progress [OF one [unfolded r]]
  show ?case
  proof (cases answer)
    case False
    with Cons.prems one r step show ?thesis by auto
  next
    case True
    then obtain m where m: "run_until_terminal lib wk ss run w1 = (Inr m, w')" "n = Suc m"
      using Cons.prems(1) one r by (cases "run_until_terminal lib wk ss run w1"; cases "fst (run_until_terminal lib wk ss run w1)") auto
    from Cons.IH [OF m(1)] Cons.prems(2) True step m(2) show ?thesis by fastforce
  qed
qed

text \<open>
  C30. \<open>run_until_terminal\<close> drains the queue. While the others plan no further pending jobs, each claimed
  job leaves one pending job less, so with more iterations than pending jobs the loop does not stop at its
  limit: it answers the number of jobs it ran, at most the number that was pending, and no pending job of
  the run is left. If a call raises, the loop raises with it, and never with more pending jobs than before.
\<close>

theorem run_until_terminal_drains:
  assumes "\<And>s n db. s \<in> set ss \<Longrightarrow> pending_count (s_others s n db) \<le> pending_count db"
    and "pending_count (w_db w) < length ss"
  shows "case run_until_terminal lib wk ss run w of
     (Inr n, w') \<Rightarrow> n + pending_count (w_db w') \<le> pending_count (w_db w) \<and> drained (w_db w') run
   | (Inl e, w') \<Rightarrow> pending_count (w_db w') \<le> pending_count (w_db w)"
proof -
  have others: "pending_shrinks db (s_others s n db)" if "s \<in> set ss" for s n db
    using assms(1) [OF that] by (simp add: pending_shrinks_def)
  obtain r w' where run: "run_until_terminal lib wk ss run w = (r, w')" by fastforce
  have "pending_count (w_db w') \<le> pending_count (w_db w)"
    using shrinks.run_until_terminal_R [where ss = ss and w = w and lib = lib and wk = wk and run = run, OF others] run
    by (simp add: pending_shrinks_def)
  then show ?thesis
    using run run_until_terminal_progress [where ss = ss, OF _ others] assms(2) by (cases r) fastforce+
qed

theorem run_until_terminal_drains_witness:
  "case run_until_terminal ex_library ex_worker [ex_surroundings, ex_surroundings, ex_surroundings] None ex_world of
     (Inr n, w') \<Rightarrow> n \<le> 2 \<and> drained (w_db w') None
   | (Inl e, w') \<Rightarrow> pending_count (w_db w') \<le> 2"
proof -
  have "pending_count (w_db ex_world) = 2"
    by (simp add: ex_world_def pending_count_def ex_db_def ex_job_def)
  then show ?thesis
    using run_until_terminal_drains [where ss = "[ex_surroundings, ex_surroundings, ex_surroundings]" and w = ex_world
        and lib = ex_library and wk = ex_worker and run = None]
    by (auto simp: ex_surroundings_def split: prod.splits sum.splits)
qed

end
