(* ===== verification/Json_Loads.thy ===== *)
theory Json_Loads
  imports Canonical_Json Py_Strings
begin

text \<open>
  The fragment of \<open>json.loads\<close> that reads what \<open>json.dumps\<close> writes, and everything else a caller may
  be handed: \<open>decode("utf-8")\<close>, the grammar of the scanner of the standard library, and the hook
  \<open>_json_no_duplicates\<close> of \<open>src/src/verifierci/models/protocol.py\<close>. The reader of a number with a
  point or an exponent (\<open>float\<close>) is the parameter \<open>flt\<close>. The recursion limit of Python is not
  represented. A parser answers the value with the rest of the text, or \<open>None\<close> where Python raises.
\<close>

section \<open>UTF-8\<close>

text \<open>\<open>bytes.decode("utf-8")\<close> does not raise.\<close>

function utf8_valid :: "string \<Rightarrow> bool" where
  "utf8_valid [] = True"
| "utf8_valid (c # cs) =
    (let (n, ok) = utf8_step (of_char c) (map of_char cs) in ok \<and> utf8_valid (drop n (c # cs)))"
  by pat_completeness auto
termination
proof (relation "measure length", goal_cases)
  case (2 c cs x n ok)
  with utf8_step_pos [of "of_char c" "map of_char cs"] show ?case
    by (metis fst_conv in_measure length_drop length_greater_0_conv diff_less list.discI)
qed simp

declare utf8_valid.simps(2) [simp del]

text \<open>The UTF-8 bytes of a code point; a lone surrogate gets the three bytes it would have.\<close>

definition utf8_char :: "int \<Rightarrow> string" where
  "utf8_char n = map char_of
    (if n < 128 then [n]
     else if n < 2048 then [192 + n div 64, 128 + n mod 64]
     else if n < 65536 then [224 + n div 4096, 128 + n div 64 mod 64, 128 + n mod 64]
     else [240 + n div 262144, 128 + n div 4096 mod 64, 128 + n div 64 mod 64, 128 + n mod 64])"

section \<open>Strings\<close>

type_synonym 'a parser = "string \<Rightarrow> ('a \<times> string) option"

definition hex_of_char :: "char \<Rightarrow> int option" where
  "hex_of_char c = (let n = int (of_char c) in
     if 48 \<le> n \<and> n \<le> 57 then Some (n - 48)
     else if 65 \<le> n \<and> n \<le> 70 then Some (n - 55)
     else if 97 \<le> n \<and> n \<le> 102 then Some (n - 87) else None)"

text \<open>Four hexadecimal digits.\<close>

fun four_hex :: "int parser" where
  "four_hex (a # b # c # d # r) =
    (case (hex_of_char a, hex_of_char b, hex_of_char c, hex_of_char d) of
       (Some w, Some x, Some y, Some z) \<Rightarrow> Some (4096 * w + 256 * x + 16 * y + z, r)
     | _ \<Rightarrow> None)"
| "four_hex _ = None"

text \<open>The low half of a surrogate pair.\<close>

definition low_surrogate :: "int parser" where
  "low_surrogate r = (case r of
     x # y # r' \<Rightarrow> if x = backslash \<and> y = CHR ''u'' then
         (case four_hex r' of
            Some (l, r'') \<Rightarrow> if 0xDC00 \<le> l \<and> l \<le> 0xDFFF then Some (l, r'') else None
          | None \<Rightarrow> None)
       else None
   | _ \<Rightarrow> None)"

text \<open>What follows a backslash.\<close>

definition escaped :: "string parser" where
  "escaped s = (case s of
     [] \<Rightarrow> None
   | x # r \<Rightarrow>
     if x = CHR 0x22 \<or> x = backslash \<or> x = CHR ''/'' then Some ([x], r)
     else if x = CHR ''b'' then Some ([char_of (8 :: nat)], r)
     else if x = CHR ''f'' then Some ([char_of (12 :: nat)], r)
     else if x = CHR ''n'' then Some ([char_of (10 :: nat)], r)
     else if x = CHR ''r'' then Some ([char_of (13 :: nat)], r)
     else if x = CHR ''t'' then Some ([char_of (9 :: nat)], r)
     else if x = CHR ''u'' then
       (case four_hex r of
          None \<Rightarrow> None
        | Some (h, r') \<Rightarrow>
          if 0xD800 \<le> h \<and> h \<le> 0xDBFF then
            (case low_surrogate r' of
               Some (l, r'') \<Rightarrow> Some (utf8_char (0x10000 + (h - 0xD800) * 1024 + (l - 0xDC00)), r'')
             | None \<Rightarrow> Some (utf8_char h, r'))
          else Some (utf8_char h, r'))
     else None)"

lemma four_hex_shorter: "four_hex s = Some (n, r) \<Longrightarrow> length r < length s"
  by (induction s rule: four_hex.induct) (auto split: option.splits)

lemma low_surrogate_shorter: "low_surrogate s = Some (n, r) \<Longrightarrow> length r < length s"
  by (auto simp: low_surrogate_def split: list.splits if_splits option.splits dest!: four_hex_shorter)

lemma escaped_shorter: "escaped s = Some (t, r) \<Longrightarrow> length r < length s"
  by (auto simp: escaped_def split: list.splits if_splits option.splits
      dest!: four_hex_shorter low_surrogate_shorter)

text \<open>\<open>scanstring\<close> after the opening quote, with \<open>strict=True\<close>.\<close>

function scanstring :: "string parser" where
  "scanstring [] = None"
| "scanstring (c # r) =
    (if c = CHR 0x22 then Some ([], r)
     else if c = backslash then
       (case escaped r of
          None \<Rightarrow> None
        | Some (s, r') \<Rightarrow> map_option (apfst ((@) s)) (scanstring r'))
     else if of_char c < (32 :: nat) then None
     else map_option (apfst ((#) c)) (scanstring r))"
  by pat_completeness auto
termination
  by (relation "measure length") (auto dest: escaped_shorter)

declare scanstring.simps(2) [simp del]

lemma scanstring_shorter: "scanstring s = Some (t, r) \<Longrightarrow> length r < length s"
proof (induction s arbitrary: t r rule: scanstring.induct)
  case (2 c cs)
  show ?case
  proof (cases "c = CHR 0x22")
    case True
    with "2.prems" show ?thesis by (simp add: scanstring.simps)
  next
    case False
    with 2 show ?thesis
      by (fastforce simp: scanstring.simps split: if_splits option.splits dest: escaped_shorter)
  qed
qed simp

section \<open>Numbers\<close>

definition scan_int :: "string parser" where
  "scan_int s =
    (let (sign, r) = (case s of x # r \<Rightarrow> if x = CHR ''-'' then (''-'', r) else ([], s) | [] \<Rightarrow> ([], s))
     in case r of
       [] \<Rightarrow> None
     | d # r' \<Rightarrow>
       if d = CHR ''0'' then Some (sign @ [d], r')
       else if digit_char d then Some (sign @ takeWhile digit_char r, dropWhile digit_char r)
       else None)"

definition scan_frac :: "string \<Rightarrow> string \<times> string" where
  "scan_frac s = (case s of
     x # r \<Rightarrow> if x = CHR ''.'' \<and> takeWhile digit_char r \<noteq> []
       then (x # takeWhile digit_char r, dropWhile digit_char r) else ([], s)
   | [] \<Rightarrow> ([], s))"

definition scan_exp :: "string \<Rightarrow> string \<times> string" where
  "scan_exp s = (case s of
     e # r \<Rightarrow>
       (let (sign, r') = (case r of
            x # r' \<Rightarrow> if x = CHR ''+'' \<or> x = CHR ''-'' then ([x], r') else ([], r) | [] \<Rightarrow> ([], r))
        in if (e = CHR ''e'' \<or> e = CHR ''E'') \<and> takeWhile digit_char r' \<noteq> []
           then (e # sign @ takeWhile digit_char r', dropWhile digit_char r') else ([], s))
   | [] \<Rightarrow> ([], s))"

text \<open>\<open>int(token)\<close>, which refuses more than \<open>sys.int_info.default_max_str_digits\<close> digits.\<close>

definition max_str_digits :: nat where "max_str_digits = 4300"

definition int_of_token :: "string \<Rightarrow> int option" where
  "int_of_token t =
    (let ds = dropWhile (\<lambda>c. c = CHR ''-'') t in
     if length ds > max_str_digits then None
     else Some (if t \<noteq> ds then - int (digits_value ds) else int (digits_value ds)))"

definition scan_number :: "(string \<Rightarrow> pyfloat option) \<Rightarrow> json parser" where
  "scan_number flt s = (case scan_int s of
     None \<Rightarrow> None
   | Some (i, r) \<Rightarrow>
     (let (f, r1) = scan_frac r; (e, r2) = scan_exp r1 in
      if f = [] \<and> e = [] then map_option (\<lambda>n. (J_int n, r2)) (int_of_token i)
      else map_option (\<lambda>x. (J_float x, r2)) (flt (i @ f @ e))))"

lemma scan_int_shorter: "scan_int s = Some (t, r) \<Longrightarrow> length r < length s"
  using length_dropWhile_le [of digit_char s] length_dropWhile_le [of digit_char "tl s"]
  by (auto simp: scan_int_def split: list.splits if_splits)

lemma scan_frac_length: "scan_frac s = (t, r) \<Longrightarrow> length r \<le> length s"
  using length_dropWhile_le [of digit_char "tl s"]
  by (auto simp: scan_frac_def split: list.splits if_splits)

lemma scan_exp_length: "scan_exp s = (t, r) \<Longrightarrow> length r \<le> length s"
  using length_dropWhile_le [of digit_char "tl s"] length_dropWhile_le [of digit_char "tl (tl s)"]
  by (auto simp: scan_exp_def Let_def split: list.splits if_splits)

lemma scan_number_shorter: "scan_number flt s = Some (j, r) \<Longrightarrow> length r < length s"
  by (fastforce simp: scan_number_def Let_def split: option.splits prod.splits if_splits
      dest: scan_int_shorter scan_frac_length scan_exp_length)

section \<open>Values\<close>

definition json_space :: "char \<Rightarrow> bool" where
  "json_space c \<longleftrightarrow> of_char c \<in> {9, 10, 13, 32 :: nat}"

definition skip_space :: "string \<Rightarrow> string" where
  "skip_space s = dropWhile json_space s"

lemma skip_space_length: "length (skip_space s) \<le> length s"
  by (simp add: skip_space_def length_dropWhile_le)

lemma skip_space_ConsD: "skip_space s = c # r \<Longrightarrow> length r < length s"
  using skip_space_length [of s] by simp

text \<open>\<open>_json_no_duplicates\<close>\<close>

definition json_no_duplicates :: "(string \<times> json) list \<Rightarrow> json option" where
  "json_no_duplicates kvs = (if distinct (map fst kvs) then Some (J_obj kvs) else None)"

definition literals :: "(string \<times> json) list" where
  "literals = [(''null'', J_null), (''true'', J_bool True), (''false'', J_bool False),
     (''NaN'', J_float PNaN), (''Infinity'', J_float PInf), (''-Infinity'', J_float PNegInf)]"

definition scan_literal :: "json parser" where
  "scan_literal s = (case List.find (\<lambda>(w, j). prefix w s) literals of
     Some (w, j) \<Rightarrow> Some (j, drop (length w) s) | None \<Rightarrow> None)"

lemma scan_literal_shorter: "scan_literal s = Some (j, r) \<Longrightarrow> length r < length s"
  by (auto simp: scan_literal_def literals_def split: if_splits option.splits
      dest!: prefix_length_le)

text \<open>
  \<open>scan_once\<close> with the loops of arrays (from the first element) and of objects (after the quote that
  opens a key).
\<close>

function json_value :: "(string \<Rightarrow> pyfloat option) \<Rightarrow> json parser"
  and json_elements :: "(string \<Rightarrow> pyfloat option) \<Rightarrow> json list parser"
  and json_members :: "(string \<Rightarrow> pyfloat option) \<Rightarrow> (string \<times> json) list parser" where
  "json_value flt s = (case s of
     [] \<Rightarrow> None
   | c # r \<Rightarrow>
     if c = CHR 0x22 then map_option (apfst J_str) (scanstring r)
     else if c = CHR ''{'' then
       (case skip_space r of
          [] \<Rightarrow> None
        | x # r' \<Rightarrow>
          if x = CHR ''}'' then Some (J_obj [], r')
          else if x = CHR 0x22 then
            (case json_members flt r' of
               None \<Rightarrow> None
             | Some (kvs, r'') \<Rightarrow> map_option (\<lambda>j. (j, r'')) (json_no_duplicates kvs))
          else None)
     else if c = CHR ''['' then
       (case skip_space r of
          [] \<Rightarrow> None
        | x # r' \<Rightarrow>
          if x = CHR '']'' then Some (J_arr [], r')
          else map_option (apfst J_arr) (json_elements flt (x # r')))
     else (case scan_literal s of Some jr \<Rightarrow> Some jr | None \<Rightarrow> scan_number flt s))"
| "json_elements flt s = (case json_value flt s of
     None \<Rightarrow> None
   | Some (v, r) \<Rightarrow>
     (case skip_space r of
        [] \<Rightarrow> None
      | x # r' \<Rightarrow>
        if x = CHR '']'' then Some ([v], r')
        else if x = CHR '','' then map_option (apfst ((#) v)) (json_elements flt (skip_space r'))
        else None))"
| "json_members flt s = (case scanstring s of
     None \<Rightarrow> None
   | Some (k, r) \<Rightarrow>
     (case skip_space r of
        [] \<Rightarrow> None
      | x # r1 \<Rightarrow>
        if x \<noteq> CHR '':'' then None
        else (case json_value flt (skip_space r1) of
          None \<Rightarrow> None
        | Some (v, r2) \<Rightarrow>
          (case skip_space r2 of
             [] \<Rightarrow> None
           | y # r3 \<Rightarrow>
             if y = CHR ''}'' then Some ([(k, v)], r3)
             else if y = CHR '','' then
               (case skip_space r3 of
                  [] \<Rightarrow> None
                | q # r4 \<Rightarrow>
                  if q = CHR 0x22 then map_option (apfst ((#) (k, v))) (json_members flt r4) else None)
             else None))))"
  by pat_completeness auto

lemma json_shorter_dom:
  "json_value_json_elements_json_members_dom (Inl (flt, s)) \<Longrightarrow> json_value flt s = Some (v, r) \<Longrightarrow>
    length r < length s"
  "json_value_json_elements_json_members_dom (Inr (Inl (flt, s))) \<Longrightarrow> json_elements flt s = Some (vs, r) \<Longrightarrow>
    length r < length s"
  "json_value_json_elements_json_members_dom (Inr (Inr (flt, s))) \<Longrightarrow> json_members flt s = Some (kvs, r) \<Longrightarrow>
    length r < length s"
proof (induction flt s and flt s and flt s arbitrary: v r and vs r and kvs r
    rule: json_value_json_elements_json_members.pinduct)
  case (1 flt s)
  from 1(4) show ?case
    unfolding json_value.psimps [OF 1(1)]
    by (auto split: list.splits if_splits option.splits
        dest: skip_space_ConsD scanstring_shorter scan_literal_shorter scan_number_shorter 1(2,3))
      (fastforce dest: skip_space_ConsD 1(2,3))+
next
  case (2 flt s)
  have step: "length r < length s" if "json_value flt s = Some (w, y)" "skip_space y = CHR '','' # z"
    "json_elements flt (skip_space z) = Some (vs', r)" for w y z vs'
    using 2(2) [OF that(1)] 2(3) [OF that(1) refl that(2) _ refl that(3)] skip_space_ConsD [OF that(2)]
      skip_space_length [of z] by simp
  from 2(4) obtain w y where first: "json_value flt s = Some (w, y)"
    and more: "skip_space y = CHR '']'' # r
      \<or> (\<exists>z vs'. skip_space y = CHR '','' # z \<and> json_elements flt (skip_space z) = Some (vs', r))"
    unfolding json_elements.psimps [OF 2(1)] by (auto split: list.splits if_splits option.splits)
  from more show ?case
    using 2(2) [OF first] skip_space_ConsD [of y] step [OF first] by fastforce
next
  case (3 flt s)
  have val: "length y < length s" if "scanstring s = Some (k, x)" "skip_space x = CHR '':'' # z"
    "json_value flt (skip_space z) = Some (v, y)" for k x z v y
    using 3(2) [OF that(1) refl that(2) _ that(3)] skip_space_ConsD [OF that(2)]
      skip_space_length [of z] scanstring_shorter [OF that(1)] by simp
  have step: "length r < length s" if "scanstring s = Some (k, x)" "skip_space x = CHR '':'' # z"
    "json_value flt (skip_space z) = Some (v, y)" "skip_space y = CHR '','' # u"
    "skip_space u = CHR 0x22 # w" "json_members flt w = Some (kvs', r)" for k x z v y u w kvs'
    using val [OF that(1-3)] 3(3) [OF that(1) refl that(2) _ that(3) refl that(4) _ refl that(5) refl that(6)]
      skip_space_ConsD [OF that(4)] skip_space_ConsD [OF that(5)] by simp
  from 3(4) obtain k x z v y where first: "scanstring s = Some (k, x)" "skip_space x = CHR '':'' # z"
      "json_value flt (skip_space z) = Some (v, y)"
    and more: "skip_space y = CHR ''}'' # r
      \<or> (\<exists>u w kvs'. skip_space y = CHR '','' # u \<and> skip_space u = CHR 0x22 # w
          \<and> json_members flt w = Some (kvs', r))"
    unfolding json_members.psimps [OF 3(1)] by (auto split: list.splits if_splits option.splits)
  from more show ?case
    using val [OF first] skip_space_ConsD [of y] step [OF first] by fastforce
qed


termination json_value
proof (relation "measure (\<lambda>x. case x of Inl (flt, s) \<Rightarrow> 2 * length s
    | Inr (Inl (flt, s)) \<Rightarrow> 2 * length s + 1 | Inr (Inr (flt, s)) \<Rightarrow> 2 * length s + 1)", goal_cases)
  case (2 flt s c r x r')
  then show ?case using skip_space_ConsD [of r x r'] by simp
next
  case (3 flt s c r x r')
  then show ?case using skip_space_length [of r] by simp
next
  case (5 flt s jr v r x r')
  then show ?case using json_shorter_dom(1) [of flt s v r] skip_space_ConsD [of r x r'] skip_space_length [of r'] by simp
next
  case (6 flt s kr k r x r1)
  then show ?case using scanstring_shorter [of s k r] skip_space_ConsD [of r x r1] skip_space_length [of r1] by simp
next
  case (7 flt s kr k r x r1 vr v r2 y r3 q r4)
  then show ?case
    using scanstring_shorter [of s k r] skip_space_ConsD [of r x r1] skip_space_length [of r1]
      json_shorter_dom(1) [of flt "skip_space r1" v r2] skip_space_ConsD [of r2 y r3]
      skip_space_ConsD [of r3 q r4] by simp
qed simp_all

declare json_value.simps [simp del] json_elements.simps [simp del] json_members.simps [simp del]

text \<open>\<open>json.loads(payload.decode("utf-8"), object_pairs_hook=_json_no_duplicates)\<close>\<close>

definition byte_order_mark :: string where
  "byte_order_mark = [CHR 0xEF, CHR 0xBB, CHR 0xBF]"

definition json_loads :: "(string \<Rightarrow> pyfloat option) \<Rightarrow> string \<Rightarrow> json option" where
  "json_loads flt payload =
    (if \<not> utf8_valid payload \<or> prefix byte_order_mark payload then None
     else case json_value flt (skip_space payload) of
       None \<Rightarrow> None
     | Some (j, r) \<Rightarrow> if skip_space r = [] then Some j else None)"

section \<open>Reading back what was written\<close>

lemma hex_of_char_digit: "d < 16 \<Longrightarrow> hex_of_char (hex_digit d) = Some (int d)"
  by (auto simp: hex_of_char_def hex_digit_def Let_def)

lemma hex_of_char_0: "hex_of_char (CHR ''0'') = Some 0"
  by (simp add: hex_of_char_def)

lemma escaped_control:
  assumes "n < 32"
  shows "escaped (CHR ''u'' # CHR ''0'' # CHR ''0'' # hex_digit (n div 16) # hex_digit (n mod 16) # r)
    = Some ([char_of n], r)"
proof -
  have "16 * int (n div 16) + int (n mod 16) = int n"
    by (metis div_mult_mod_eq mult.commute of_nat_add of_nat_mult of_nat_numeral)
  then show ?thesis
    using assms by (simp add: escaped_def hex_of_char_digit hex_of_char_0 utf8_char_def)
qed

lemma escaped_simple:
  assumes "(of_char c :: nat) \<in> {34, 92, 10, 13, 9, 12, 8}"
  obtains x where "esc c = [backslash, x]" and "\<And>r. escaped (x # r) = Some ([c], r)"
proof -
  have "\<exists>x. esc c = [backslash, x] \<and> (\<forall>r. escaped (x # r) = Some ([c], r))"
    using assms by (auto simp: esc_def escaped_def Let_def dest: of_char_quote of_char_backslash of_char_eqD)
  then show ?thesis using that by blast
qed

lemma scanstring_esc: "scanstring (esc c @ r) = map_option (apfst ((#) c)) (scanstring r)"
proof (cases "(of_char c :: nat) \<in> {34, 92, 10, 13, 9, 12, 8}")
  case True
  then obtain x where "esc c = [backslash, x]" and "escaped (x # r) = Some ([c], r)"
    by (rule escaped_simple) auto
  then show ?thesis
    by (cases "scanstring r") (simp_all add: scanstring.simps(2) [of backslash])
next
  case no: False
  then have ne: "c \<noteq> CHR 0x22" "c \<noteq> backslash" by (auto dest: of_char_eqD)
  show ?thesis
  proof (cases "(of_char c :: nat) < 32")
    case True
    with no have "esc c = [backslash, CHR ''u'', CHR ''0'', CHR ''0'', hex_digit (of_char c div 16),
        hex_digit (of_char c mod 16)]"
      by (simp add: esc_def Let_def)
    then show ?thesis
      using escaped_control [OF True]
      by (cases "scanstring r") (simp_all add: scanstring.simps(2) [of backslash])
  next
    case False
    with no have "esc c = [c]" by (simp add: esc_def Let_def)
    with ne False show ?thesis by (simp add: scanstring.simps(2) [of c])
  qed
qed

lemma scanstring_quoted: "scanstring (quoted s @ r) = Some (s, r)"
  by (induction s) (simp_all add: scanstring.simps(2) scanstring_esc)

lemma delim_digit: "delim r \<Longrightarrow> takeWhile digit_char r = [] \<and> dropWhile digit_char r = r"
  by (cases r) (auto simp: delim_def digit_char_def)

lemma takeWhile_delim: "delim r \<Longrightarrow> takeWhile digit_char (u @ r) = takeWhile digit_char u"
  and dropWhile_delim: "delim r \<Longrightarrow> dropWhile digit_char (u @ r) = dropWhile digit_char u @ r"
  by (induction u) (auto simp: delim_digit)

lemma scan_int_append:
  assumes "scan_int t = Some (i, u)" and "delim r"
  shows "scan_int (t @ r) = Some (i, u @ r)"
  using assms takeWhile_delim [OF assms(2)] dropWhile_delim [OF assms(2)] delim_digit [OF assms(2)]
  by (cases t; cases "tl t") (auto simp: scan_int_def split: if_splits)

lemma scan_frac_append:
  assumes "scan_frac t = (i, u)" and "delim r"
  shows "scan_frac (t @ r) = (i, u @ r)"
  using assms takeWhile_delim [OF assms(2)] dropWhile_delim [OF assms(2)]
  by (auto simp: scan_frac_def delim_def split: list.splits if_splits)

lemma scan_exp_append:
  assumes "scan_exp t = (i, u)" and "delim r"
  shows "scan_exp (t @ r) = (i, u @ r)"
proof -
  note ends = takeWhile_delim [OF assms(2)] dropWhile_delim [OF assms(2)] delim_digit [OF assms(2)]
  have r: "r = [] \<or> (\<exists>c cs. r = c # cs \<and> c \<notin> {CHR ''e'', CHR ''E'', CHR ''+'', CHR ''-''} \<and> \<not> digit_char c)"
    using assms(2) by (cases r) (auto simp: delim_def digit_char_def)
  show ?thesis
  proof (cases t)
    case Nil
    with assms(1) r show ?thesis by (auto simp: scan_exp_def split: list.splits)
  next
    case (Cons e t')
    note t = this
    show ?thesis
    proof (cases t')
      case Nil
      with assms(1) r t show ?thesis by (elim disjE) (auto simp: scan_exp_def ends delim_digit)
    next
      case (Cons x t'')
      with assms(1) t show ?thesis
        by (cases "x = CHR ''+'' \<or> x = CHR ''-''") (auto simp: scan_exp_def ends split: if_splits)
    qed
  qed
qed

text \<open>The text of a float is a number token with a point or an exponent, and \<open>float\<close> reads it back.\<close>

definition float_token :: "string \<Rightarrow> bool" where
  "float_token t \<longleftrightarrow> (case scan_int t of
     None \<Rightarrow> False
   | Some (i, r) \<Rightarrow>
     (let (f, r1) = scan_frac r; (e, r2) = scan_exp r1 in (f \<noteq> [] \<or> e \<noteq> []) \<and> r2 = []))"

definition float_reads :: "(pyfloat \<Rightarrow> string) \<Rightarrow> (string \<Rightarrow> pyfloat option) \<Rightarrow> pyfloat \<Rightarrow> bool" where
  "float_reads fr flt f \<longleftrightarrow> is_finite f \<and> float_token (fr f) \<and> flt (fr f) = Some f"

lemma scan_int_split: "scan_int t = Some (i, u) \<Longrightarrow> t = i @ u"
  by (cases t; cases "tl t") (auto simp: scan_int_def split: if_splits)

lemma scan_frac_split: "scan_frac t = (i, u) \<Longrightarrow> t = i @ u"
  by (auto simp: scan_frac_def split: list.splits if_splits)

lemma scan_exp_split: "scan_exp t = (i, u) \<Longrightarrow> t = i @ u"
  by (auto simp: scan_exp_def Let_def split: list.splits if_splits)

lemma scan_number_float:
  assumes "float_reads fr flt f" and "delim r"
  shows "scan_number flt (fr f @ r) = Some (J_float f, r)"
proof -
  from assms(1) obtain i u g v e where parts: "scan_int (fr f) = Some (i, u)" "scan_frac u = (g, v)"
      "scan_exp v = (e, [])" "g \<noteq> [] \<or> e \<noteq> []"
    by (auto simp: float_reads_def float_token_def split: option.splits prod.splits)
  have tok: "fr f = i @ g @ e"
    using parts(1-3) by (auto dest!: scan_int_split scan_frac_split scan_exp_split)
  have "flt (i @ g @ e) = Some f"
    using assms(1) by (simp add: float_reads_def tok)
  then show ?thesis
    using parts(4) scan_int_append [OF parts(1) assms(2)] scan_frac_append [OF parts(2) assms(2)]
      scan_exp_append [OF parts(3) assms(2)]
    by (auto simp: scan_number_def)
qed

lemma digits_hd_digit:
  assumes "digits n = d # ds"
  shows "digit_char d"
  using digits_digit [of n] assms by simp

lemma digits_no_zero: "0 < n \<Longrightarrow> hd (digits n) \<noteq> CHR ''0''"
proof (induction n rule: digits.induct)
  case (1 n)
  have "char_of (48 + n) \<noteq> CHR ''0''" if "n < 10"
  proof
    assume "char_of (48 + n) = CHR ''0''"
    then have "of_char (char_of (48 + n) :: char) = (48 :: nat)" by simp
    with that 1(2) show False by simp
  qed
  with 1 show ?case by (subst digits.simps) (auto simp: hd_append)
qed

lemma takeWhile_digits: "takeWhile digit_char (digits n) = digits n" "dropWhile digit_char (digits n) = []"
  using digits_digit [of n] by (auto simp: takeWhile_eq_all_conv list_all_iff)

lemma char_zero: "char_of (48 :: nat) = CHR ''0''"
  by (rule of_char_eqD [symmetric]) simp

lemma scan_nat: "scan_int (digits n) = Some (digits n, [])"
proof (cases "n = 0")
  case True
  then show ?thesis by (simp add: digits.simps scan_int_def char_zero)
next
  case False
  obtain d ds where ds: "digits n = d # ds" by (cases "digits n") auto
  moreover have "d \<noteq> CHR ''0''" "digit_char d" "d \<noteq> CHR ''-''"
    using False digits_no_zero [of n] digits_hd_digit [OF ds] ds digits_hd [of n ds] by auto
  ultimately show ?thesis
    using takeWhile_digits [of n] by (auto simp: scan_int_def)
qed

lemma scan_str_of_int: "scan_int (str_of_int n) = Some (str_of_int n, [])"
proof (cases "n < 0")
  case True
  obtain d ds where ds: "digits (nat (- n)) = d # ds" by (cases "digits (nat (- n))") auto
  moreover have "d \<noteq> CHR ''0''" "digit_char d"
    using True digits_no_zero [of "nat (- n)"] digits_hd_digit [OF ds] ds by auto
  ultimately show ?thesis
    using True takeWhile_digits [of "nat (- n)"] by (simp add: str_of_int_def scan_int_def)
next
  case False
  then show ?thesis by (simp add: str_of_int_def scan_nat)
qed

definition int_fits :: "int \<Rightarrow> bool" where
  "int_fits n \<longleftrightarrow> length (digits (nat \<bar>n\<bar>)) \<le> max_str_digits"

lemma int_of_token_str:
  assumes "int_fits n"
  shows "int_of_token (str_of_int n) = Some n"
proof -
  have no_sign: "dropWhile (\<lambda>c. c = CHR ''-'') (digits k) = digits k" for k
    using digits_hd [of k] by (cases "digits k") auto
  show ?thesis
  proof (cases "n < 0")
    case True
    have "CHR ''-'' # digits k \<noteq> digits k" for k by (metis length_Cons n_not_Suc_n)
    with True assms show ?thesis
      by (auto simp: int_of_token_def str_of_int_def no_sign int_fits_def digits_value_digits abs_if)
  next
    case False
    with assms show ?thesis
      by (simp add: int_of_token_def str_of_int_def no_sign int_fits_def digits_value_digits)
  qed
qed

lemma scan_number_int:
  assumes "int_fits n" and "delim r"
  shows "scan_number flt (str_of_int n @ r) = Some (J_int n, r)"
proof -
  have "scan_frac r = ([], r)" "scan_exp r = ([], r)"
    using assms(2) by (cases r; auto simp: delim_def scan_frac_def scan_exp_def Let_def)+
  then show ?thesis
    using scan_int_append [OF scan_str_of_int assms(2)] int_of_token_str [OF assms(1)]
    by (simp add: scan_number_def)
qed

lemma scan_int_first:
  assumes "scan_int (c # s) = Some (i, u)"
  shows "digit_char c \<or> c = CHR ''-'' \<and> (\<exists>d ds. s = d # ds \<and> digit_char d)"
  using assms by (cases s) (auto simp: scan_int_def digit_char_def split: if_splits)

lemma number_not_literal:
  assumes "scan_int t = Some (i, u)"
  shows "scan_literal (t @ r) = None"
proof -
  have "\<not> digit_char (CHR ''n'')" "\<not> digit_char (CHR ''t'')" "\<not> digit_char (CHR ''f'')"
    "\<not> digit_char (CHR ''N'')" "\<not> digit_char (CHR ''I'')" "\<not> digit_char (CHR ''-'')"
    by (simp_all add: digit_char_def)
  moreover obtain c s where t: "t = c # s" using assms by (cases t) (auto simp: scan_int_def)
  moreover have "digit_char c \<or> c = CHR ''-'' \<and> (\<exists>d ds. s = d # ds \<and> digit_char d)"
    using assms unfolding t by (rule scan_int_first)
  ultimately have "\<not> prefix w (t @ r)" if "(w, j) \<in> set literals" for w j
    using that by (auto simp: literals_def)
  then have "List.find (\<lambda>(w, j). prefix w (t @ r)) literals = None"
    by (auto simp: find_None_iff)
  then show ?thesis by (simp add: scan_literal_def)
qed


section \<open>The parser inverts the printer\<close>

text \<open>
  What \<open>json.dumps\<close> can write and \<open>json.loads\<close> reads back: integers within the limit of digits,
  floats that are read back, well-formed strings, keys that are distinct.
\<close>

fun readable :: "(pyfloat \<Rightarrow> string) \<Rightarrow> (string \<Rightarrow> pyfloat option) \<Rightarrow> json \<Rightarrow> bool"
  and readable_items :: "(pyfloat \<Rightarrow> string) \<Rightarrow> (string \<Rightarrow> pyfloat option) \<Rightarrow> (string \<times> json) list \<Rightarrow> bool"
  and readable_seq :: "(pyfloat \<Rightarrow> string) \<Rightarrow> (string \<Rightarrow> pyfloat option) \<Rightarrow> json list \<Rightarrow> bool" where
  "readable fr flt (J_int n) = int_fits n"
| "readable fr flt (J_float f) = float_reads fr flt f"
| "readable fr flt (J_arr vs) = readable_seq fr flt vs"
| "readable fr flt (J_obj kvs) = (distinct (map fst kvs) \<and> readable_items fr flt kvs)"
| "readable fr flt J_null = True"
| "readable fr flt (J_bool b) = True"
| "readable fr flt (J_str s) = utf8_valid s"
| "readable_items fr flt [] = True"
| "readable_items fr flt ((k, v) # kvs) =
    (utf8_valid k \<and> readable fr flt v \<and> readable_items fr flt kvs)"
| "readable_seq fr flt [] = True"
| "readable_seq fr flt (v # vs) = (readable fr flt v \<and> readable_seq fr flt vs)"

lemma float_reads_scan: "float_reads fr flt f \<Longrightarrow> \<exists>i u. scan_int (fr f) = Some (i, u)"
  by (auto simp: float_reads_def float_token_def split: option.splits)

lemma json_value_number:
  assumes "scan_int t = Some (i, u)" and "scan_number flt (t @ r) = Some (j, r)"
  shows "json_value flt (t @ r) = Some (j, r)"
proof -
  obtain c s where t: "t = c # s" using assms(1) by (cases t) (auto simp: scan_int_def)
  have "c \<noteq> CHR 0x22 \<and> c \<noteq> CHR ''{'' \<and> c \<noteq> CHR ''[''"
    using scan_int_first [of c s i u] assms(1) t by (auto simp: digit_char_def)
  then show ?thesis
    using assms(2) number_not_literal [OF assms(1), of r] by (subst json_value.simps) (simp add: t)
qed

lemma render_first:
  assumes "readable fr flt v"
  shows "\<exists>c s. render fr v = c # s \<and> \<not> json_space c \<and> c \<noteq> CHR '']'' \<and> of_char c < (128 :: nat)"
proof -
  have num: ?thesis if rt: "render fr v = t" and sc: "scan_int t = Some (i, u)" for t i u
  proof -
    obtain c s where t: "t = c # s" using sc by (cases t) (auto simp: scan_int_def)
    have "digit_char c \<or> c = CHR ''-''" using scan_int_first [of c s i u] sc t by auto
    then show ?thesis using rt t by (auto simp: json_space_def digit_char_def)
  qed
  show ?thesis
  proof (cases v)
    case (J_int n)
    then show ?thesis by (intro num [OF _ scan_str_of_int]) simp
  next
    case (J_float f)
    with assms show ?thesis using num [of "fr f"] by (auto dest!: float_reads_scan)
  next
    case (J_arr vs)
    then show ?thesis by (cases vs) (simp_all add: json_space_def)
  next
    case (J_obj kvs)
    then show ?thesis by (cases kvs) (auto simp: json_space_def)
  qed (simp_all add: json_space_def quote_def)
qed

lemma skip_render: "readable fr flt v \<Longrightarrow> skip_space (render fr v @ r) = render fr v @ r"
  by (auto simp: skip_space_def dest!: render_first)

lemma skip_visible: "\<not> json_space c \<Longrightarrow> skip_space (c # s) = c # s"
  by (simp add: skip_space_def)

lemma visible: "\<not> json_space (CHR '','')" "\<not> json_space (CHR '']'')" "\<not> json_space (CHR ''}'')"
    "\<not> json_space (CHR '':'')" "\<not> json_space (CHR 0x22)"
  by (simp_all add: json_space_def)

lemma json_value_word:
  "json_value flt (''null'' @ r) = Some (J_null, r)"
  "json_value flt (''true'' @ r) = Some (J_bool True, r)"
  "json_value flt (''false'' @ r) = Some (J_bool False, r)"
  by (subst json_value.simps; simp add: scan_literal_def literals_def)+

lemma json_elements_last:
  assumes "json_value flt s = Some (v, CHR '']'' # r)"
  shows "json_elements flt s = Some ([v], r)"
  using assms by (subst json_elements.simps) (simp add: skip_visible visible)

lemma json_elements_more:
  assumes "json_value flt s = Some (v, CHR '','' # t)" and "skip_space t = t"
    and "json_elements flt t = Some (vs, r)"
  shows "json_elements flt s = Some (v # vs, r)"
  using assms by (subst json_elements.simps) (simp add: skip_visible visible)

lemma json_members_last:
  assumes "json_value flt s = Some (v, CHR ''}'' # r)" and "skip_space s = s"
  shows "json_members flt (quoted k @ CHR '':'' # s) = Some ([(k, v)], r)"
  using assms by (subst json_members.simps) (simp add: scanstring_quoted skip_visible visible)

lemma json_members_more:
  assumes "json_value flt s = Some (v, CHR '','' # CHR 0x22 # t)" and "skip_space s = s"
    and "json_members flt t = Some (kvs, r)"
  shows "json_members flt (quoted k @ CHR '':'' # s) = Some ((k, v) # kvs, r)"
  using assms by (subst json_members.simps) (simp add: scanstring_quoted skip_visible visible)

lemma json_value_render:
  "readable fr flt v \<Longrightarrow> delim r \<Longrightarrow> json_value flt (render fr v @ r) = Some (v, r)"
  "readable_seq fr flt vs \<Longrightarrow> json_value flt (s @ arr_tail fr vs @ r) = Some (w, arr_tail fr vs @ r) \<Longrightarrow>
    json_elements flt (s @ arr_tail fr vs @ r) = Some (w # vs, r)"
  "readable_items fr flt kvs \<Longrightarrow> json_value flt (s @ obj_tail fr kvs @ r) = Some (w, obj_tail fr kvs @ r) \<Longrightarrow>
    skip_space (s @ obj_tail fr kvs @ r) = s @ obj_tail fr kvs @ r \<Longrightarrow>
    json_members flt (quoted k @ CHR '':'' # s @ obj_tail fr kvs @ r) = Some ((k, w) # kvs, r)"
proof (induction fr v and fr vs and fr kvs arbitrary: r and s w r and s w k r
    rule: render_arr_tail_obj_tail.induct)
  case (3 fr n)
  then show ?case
    by (simp add: json_value_number [OF scan_str_of_int] scan_number_int)
next
  case (4 fr f)
  then obtain i u where "scan_int (fr f) = Some (i, u)" by (auto dest: float_reads_scan)
  with 4 show ?case by (simp add: json_value_number scan_number_float)
next
  case (5 fr s)
  then show ?case by (subst json_value.simps) (simp add: quote_def scanstring_quoted)
next
  case (6 fr)
  then show ?case by (subst json_value.simps) (simp add: skip_visible visible)
next
  case (7 fr v vs)
  have "json_elements flt (render fr v @ arr_tail fr vs @ r) = Some (v # vs, r)"
    using 7 by (auto intro!: 7(2) 7(1) tails_delim)
  moreover obtain c t where "render fr v = c # t" "c \<noteq> CHR '']''" "\<not> json_space c"
    using 7(3) render_first [of fr flt v] by auto
  ultimately show ?case by (subst json_value.simps) (simp add: skip_visible)
next
  case (8 fr)
  then show ?case by (subst json_value.simps) (simp add: skip_visible visible)
next
  case (9 fr k v kvs)
  have "json_members flt (quoted k @ CHR '':'' # render fr v @ obj_tail fr kvs @ r) = Some ((k, v) # kvs, r)"
    using 9 by (auto intro!: 9(2) 9(1) tails_delim skip_render)
  moreover have "json_no_duplicates ((k, v) # kvs) = Some (J_obj ((k, v) # kvs))"
    using 9(3) by (simp add: json_no_duplicates_def)
  ultimately show ?case by (subst json_value.simps) (simp add: skip_visible visible quote_def)
next
  case (10 fr)
  then show ?case by (simp add: json_elements_last)
next
  case (11 fr v vs)
  then have "json_elements flt (render fr v @ arr_tail fr vs @ r) = Some (v # vs, r)"
    by (auto intro!: 11(2) 11(1) tails_delim)
  moreover have "skip_space (render fr v @ arr_tail fr vs @ r) = render fr v @ arr_tail fr vs @ r"
    using 11(3) by (auto intro: skip_render)
  ultimately show ?case
    using json_elements_more [of flt "s @ arr_tail fr (v # vs) @ r"] 11(4) by simp
next
  case (12 fr)
  then show ?case by (simp add: json_members_last)
next
  case (13 fr k' v kvs)
  then have "json_members flt (quoted k' @ CHR '':'' # render fr v @ obj_tail fr kvs @ r) = Some ((k', v) # kvs, r)"
    by (auto intro!: 13(2) 13(1) tails_delim skip_render)
  then show ?case
    using json_members_more [of flt "s @ obj_tail fr ((k', v) # kvs) @ r"] 13(4,5) by (simp add: quote_def)
qed (simp_all add: json_value_word [simplified])


lemma cont_run_append: "cont_run n lo hi bs = n \<Longrightarrow> cont_run n lo hi (take n bs @ cs) = n"
  by (induction n lo hi bs rule: cont_run.induct) (auto split: if_splits)

lemma cont_run_high:
  "cont_run n lo hi bs = n \<Longrightarrow> 128 \<le> lo \<Longrightarrow> n \<le> length bs \<and> list_all (\<lambda>b. 128 \<le> b) (take n bs)"
  by (induction n lo hi bs rule: cont_run.induct) (auto split: if_splits)

text \<open>A well-formed character reads its own bytes only, all of them from 128 on unless it is ASCII.\<close>

lemma utf8_step_ok:
  assumes "utf8_step a bs = (n, True)"
  shows "utf8_step a (take (n - 1) bs @ cs) = (n, True) \<and> n - 1 \<le> length bs
    \<and> (if a < 128 then n = 1 else list_all (\<lambda>b. 128 \<le> b) (take (n - 1) bs))"
  using assms cont_run_append cont_run_high
  by (auto simp: utf8_step_def Let_def split: if_splits)

lemma utf8_valid_Cons:
  "utf8_valid (c # s) \<longleftrightarrow> (\<exists>n. utf8_step (of_char c) (map of_char s) = (n, True) \<and> utf8_valid (drop (n - 1) s))"
proof -
  obtain n ok where step: "utf8_step (of_char c) (map of_char s) = (n, ok)" by fastforce
  then have "0 < n" using utf8_step_pos [of "of_char c" "map of_char s"] by simp
  then have "drop n (c # s) = drop (n - 1) s" by (cases n) auto
  with step show ?thesis by (simp add: utf8_valid.simps(2))
qed

lemma utf8_valid_append: "utf8_valid s \<Longrightarrow> utf8_valid t \<Longrightarrow> utf8_valid (s @ t)"
proof (induction s rule: utf8_valid.induct)
  case (2 c cs)
  from "2.prems"(1) obtain n where n: "utf8_step (of_char c) (map of_char cs) = (n, True)"
      "utf8_valid (drop (n - 1) cs)"
    by (auto simp: utf8_valid_Cons)
  have pos: "0 < n" using utf8_step_pos [of "of_char c" "map of_char cs"] n(1) by simp
  have len: "n - 1 \<le> length cs" using utf8_step_ok [OF n(1)] by simp
  have "take (n - 1) (map of_char cs) @ map of_char (drop (n - 1) cs @ t) = map of_char (cs @ t)"
    by (metis append_assoc append_take_drop_id map_append take_map)
  then have "utf8_step (of_char c) (map of_char (cs @ t)) = (n, True)"
    using utf8_step_ok [OF n(1), of "map of_char (drop (n - 1) cs @ t)"] by metis
  moreover have "utf8_valid (drop (n - 1) cs @ t)"
    using "2.IH" [OF refl _ _ "2.prems"(2)] n pos by (cases n) auto
  ultimately show ?case
    using len by (auto simp: utf8_valid_Cons)
qed simp

lemma utf8_valid_ascii: "list_all (\<lambda>c. of_char c < (128 :: nat)) s \<Longrightarrow> utf8_valid s"
  by (induction s) (auto simp: utf8_valid_Cons utf8_step_def)

lemma esc_high: "128 \<le> (of_char c :: nat) \<Longrightarrow> esc c = [c]"
  by (simp add: esc_def)

lemma quoted_high: "list_all (\<lambda>c. 128 \<le> (of_char c :: nat)) s \<Longrightarrow> quoted (s @ t) = s @ quoted t"
  by (induction s) (auto simp: esc_high)

lemma esc_ascii: "of_char c < (128 :: nat) \<Longrightarrow> utf8_valid (esc c)"
  by (rule utf8_valid_ascii) (auto simp: esc_def Let_def hex_digit_def)

lemma utf8_valid_quoted: "utf8_valid s \<Longrightarrow> utf8_valid (quoted s)"
proof (induction s rule: utf8_valid.induct)
  case 1
  show ?case by (simp add: utf8_valid_ascii)
next
  case (2 c cs)
  from "2.prems" obtain n where n: "utf8_step (of_char c) (map of_char cs) = (n, True)"
      "utf8_valid (drop (n - 1) cs)"
    by (auto simp: utf8_valid_Cons)
  have pos: "0 < n" using utf8_step_pos [of "of_char c" "map of_char cs"] n(1) by simp
  have IH: "utf8_valid (quoted (drop (n - 1) cs))"
    using "2.IH" [OF refl] n pos by (cases n) auto
  note ok = utf8_step_ok [OF n(1)]
  show ?case
  proof (cases "of_char c < (128 :: nat)")
    case True
    with ok [of "[]"] IH have "utf8_valid (quoted cs)" by simp
    with True show ?thesis by (simp add: esc_ascii utf8_valid_append)
  next
    case False
    with ok [of "[]"] have "list_all (\<lambda>c. 128 \<le> (of_char c :: nat)) (take (n - 1) cs)"
      by (simp add: take_map list.pred_map comp_def)
    from quoted_high [OF this, of "drop (n - 1) cs"] have q: "quoted cs = take (n - 1) cs @ quoted (drop (n - 1) cs)"
      by simp
    have "take (n - 1) (map of_char cs) @ map of_char (quoted (drop (n - 1) cs)) = map of_char (quoted cs)"
      by (simp add: q take_map)
    then have "utf8_step (of_char c) (map of_char (quoted cs)) = (n, True)"
      using ok [of "map of_char (quoted (drop (n - 1) cs))"] by metis
    moreover have "drop (n - 1) (quoted cs) = quoted (drop (n - 1) cs)"
      using ok [of "[]"] by (simp add: q)
    ultimately show ?thesis
      using False IH by (auto simp: esc_high utf8_valid_Cons)
  qed
qed

lemma num_char_ascii: "list_all num_char t \<Longrightarrow> utf8_valid t"
  by (rule utf8_valid_ascii) (auto simp: list_all_iff num_char_def digit_char_def)

abbreviation ascii :: "string \<Rightarrow> bool" where
  "ascii s \<equiv> list_all (\<lambda>c. of_char c < (128 :: nat)) s"

lemma ascii_digits: "ascii (takeWhile digit_char s)"
  by (auto dest!: set_takeWhileD simp: list_all_iff digit_char_def)

lemma scan_int_ascii: "scan_int t = Some (i, u) \<Longrightarrow> ascii i"
  using ascii_digits [of t] ascii_digits [of "tl t"]
  by (cases t; cases "tl t") (auto simp: scan_int_def split: if_splits)

lemma scan_frac_ascii: "scan_frac t = (i, u) \<Longrightarrow> ascii i"
  using ascii_digits [of "tl t"] by (cases t) (auto simp: scan_frac_def split: if_splits)

lemma scan_exp_ascii: "scan_exp t = (i, u) \<Longrightarrow> ascii i"
  using ascii_digits [of "tl t"] ascii_digits [of "tl (tl t)"]
  by (cases t; cases "tl t") (auto simp: scan_exp_def Let_def split: if_splits)

lemma float_token_ascii:
  assumes "float_token t"
  shows "utf8_valid t"
proof -
  from assms obtain i u g v e where parts: "scan_int t = Some (i, u)" "scan_frac u = (g, v)" "scan_exp v = (e, [])"
    by (auto simp: float_token_def split: option.splits prod.splits)
  then have "t = i @ g @ e" by (auto dest!: scan_int_split scan_frac_split scan_exp_split)
  with parts show ?thesis
    by (auto intro!: utf8_valid_ascii dest: scan_int_ascii scan_frac_ascii scan_exp_ascii)
qed

lemma utf8_valid_render:
  "readable fr flt v \<Longrightarrow> utf8_valid (render fr v)"
  "readable_seq fr flt vs \<Longrightarrow> utf8_valid (arr_tail fr vs)"
  "readable_items fr flt kvs \<Longrightarrow> utf8_valid (obj_tail fr kvs)"
proof (induction fr v and fr vs and fr kvs rule: render_arr_tail_obj_tail.induct)
  case (3 fr n)
  then show ?case by (simp add: num_char_ascii str_of_int_num)
next
  case (4 fr f)
  then show ?case by (simp add: float_reads_def float_token_ascii)
qed (simp_all add: utf8_valid_ascii quote_def utf8_valid_Cons utf8_step_def utf8_valid_append utf8_valid_quoted)

lemma json_loads_dumps:
  assumes "readable fr flt v"
  shows "json_loads flt (render fr v) = Some v"
proof -
  have "json_value flt (render fr v) = Some (v, [])"
    using json_value_render(1) [OF assms, of "[]"] by (simp add: delim_def)
  moreover have "skip_space (render fr v) = render fr v"
    using skip_render [OF assms, of "[]"] by simp
  moreover have "\<not> prefix byte_order_mark (render fr v)"
    using render_first [OF assms] by (auto simp: byte_order_mark_def)
  ultimately show ?thesis
    using utf8_valid_render(1) [OF assms] by (simp add: json_loads_def skip_space_def)
qed

end
