(* ===== verification/Codec.thy ===== *)
theory Codec
  imports Json_Loads Registry Outcomes
begin

text \<open>
  The codec of records: \<open>encode_record\<close>, \<open>decode_record\<close>, \<open>_instantiate_dataclass\<close>,
  \<open>_convert_field\<close> and the wire version of \<open>src/src/verifierci/models/protocol.py\<close>, with the field
  types of the 45 registered dataclasses of \<open>src/src/verifierci/models/\<close>. A decoded dataclass is
  \<open>V_dataclass\<close> with its fields in the order of the class. \<open>flt\<close> is \<open>float\<close> of a number token and
  \<open>fromiso\<close> is \<open>datetime.fromisoformat\<close>, \<open>None\<close> where it raises. All refusals are the same
  exception: \<open>ValidationError\<close> with its default code.
\<close>

section \<open>Field types\<close>

text \<open>
  The annotations that occur: \<open>T | None\<close> is \<open>T_opt\<close>, \<open>tuple[T, ...]\<close> is \<open>T_tuple\<close>,
  \<open>Mapping[str, T]\<close> is \<open>T_mapping\<close>, a dataclass is \<open>T_record\<close> with its name.
\<close>

datatype field_type =
    T_any
  | T_str
  | T_int
  | T_float
  | T_bool
  | T_datetime
  | T_literal "string list"
  | T_opt field_type
  | T_tuple field_type
  | T_mapping field_type
  | T_record string

definition ReviewVote_fields :: "(string \<times> field_type) list" where
  "ReviewVote_fields =
   [(''reviewer_id'', T_str), (''label'', T_literal [''valid'', ''invalid'', ''unresolved'']),
    (''rationale'', T_str), (''minutes'', T_opt T_float), (''blinded_to_verifier'', T_bool),
    (''independent_of_author'', T_bool), (''recorded_at'', T_datetime)]"

definition TaskPin_fields :: "(string \<times> field_type) list" where
  "TaskPin_fields =
   [(''task_key'', T_str), (''task_version'', T_str), (''contract_hash'', T_str),
    (''repository_snapshot_digest'', T_str), (''environment_id'', T_str),
    (''environment_image_digest'', T_opt T_str), (''verifier_baseline_version'', T_str),
    (''verifier_candidate_version'', T_str), (''baseline_manifest_hash'', T_str),
    (''candidate_manifest_hash'', T_str), (''case_ids'', T_tuple T_str)]"

definition ResourceUsage_fields :: "(string \<times> field_type) list" where
  "ResourceUsage_fields =
   [(''duration'', T_opt T_float), (''allocated_cpu'', T_opt T_float), (''cpu_seconds'', T_opt T_float),
    (''peak_memory'', T_opt T_int), (''model_usage'', T_opt (T_mapping T_int)),
    (''estimated_cost'', T_opt T_str), (''pricing_version'', T_opt T_str), (''bytes_written'', T_opt T_int)]"

definition Job_fields :: "(string \<times> field_type) list" where
  "Job_fields =
   [(''job_id'', T_str), (''run_id'', T_str), (''task_key'', T_str), (''case_id'', T_str),
    (''verifier_key'', T_str), (''repetition'', T_int),
    (''state'', T_literal [''PENDING'', ''CLAIMED'', ''RUNNING'', ''DONE'', ''FAILED'', ''ABANDONED'']),
    (''fence'', T_int), (''attempt_id'', T_opt T_str), (''lease_token'', T_opt T_str),
    (''worker_id'', T_opt T_str), (''lease_expires_ms'', T_opt T_int), (''attempts_started'', T_int),
    (''selected_attempt_id'', T_opt T_str), (''terminal_reason'', T_opt T_str)]"

definition AcceptanceCell_fields :: "(string \<times> field_type) list" where
  "AcceptanceCell_fields =
   [(''task_key'', T_str), (''repository_id'', T_str), (''case_id'', T_str), (''verifier_key'', T_str),
    (''adjudication_id'', T_str), (''label'', T_literal [''valid'', ''invalid'', ''unresolved'']),
    (''role'', T_literal [''challenge'', ''reference'', ''noop'']),
    (''outcome'', T_literal [''accept'', ''reject'', ''invalid_evaluation'', ''flaky'', ''error'']),
    (''evaluation_validity'', T_literal [''valid'', ''invalid'']), (''planned_repetitions'', T_int),
    (''selected_attempt_ids'', T_tuple T_str), (''excluded_attempt_ids'', T_tuple T_str),
    (''repetition_outcomes'', T_tuple T_str), (''diagnostic_codes'', T_tuple T_str)]"

definition MetricTerm_fields :: "(string \<times> field_type) list" where
  "MetricTerm_fields =
   [(''task_key'', T_str), (''numerator'', T_int), (''denominator'', T_int),
    (''excluded'', T_mapping T_int)]"

definition GateEvidence_fields :: "(string \<times> field_type) list" where
  "GateEvidence_fields =
   [(''rule_id'', T_str), (''case_id'', T_str), (''adjudication_id'', T_str), (''contract_hash'', T_str),
    (''baseline_outcome'', T_str), (''candidate_outcome'', T_str), (''witness_ids'', T_tuple T_str),
    (''artifact_digests'', T_tuple T_str), (''explanation'', T_str)]"

definition ImportRequest_fields :: "(string \<times> field_type) list" where
  "ImportRequest_fields =
   [(''adapter'', T_str), (''instance'', T_str), (''source'', T_str), (''source_revision'', T_str),
    (''environment_manifest'', T_opt T_str), (''output_dir'', T_str), (''dry_run'', T_bool)]"

definition ImportBundle_fields :: "(string \<times> field_type) list" where
  "ImportBundle_fields =
   [(''task'', T_record ''Task''), (''contract'', T_record ''Contract''),
    (''requirements'', T_tuple (T_record ''Requirement'')),
    (''snapshot'', T_record ''RepositorySnapshot''), (''environment'', T_record ''Environment''),
    (''verifier'', T_record ''VerifierVersion''), (''verifier_manifest'', T_record ''VerifierManifest''),
    (''controls'', T_tuple (T_record ''PatchCase'')), (''upstream_artifact'', T_record ''Artifact''),
    (''diagnostics'', T_tuple T_str)]"

definition LocalImportManifest_fields :: "(string \<times> field_type) list" where
  "LocalImportManifest_fields =
   [(''schema_version'', T_str), (''task'', T_record ''Task''), (''contract_file'', T_str),
    (''snapshot_file'', T_str), (''environment_file'', T_str), (''requirement_files'', T_tuple T_str),
    (''verifier_file'', T_str), (''control_files'', T_tuple T_str)]"

definition SandboxPolicy_fields :: "(string \<times> field_type) list" where
  "SandboxPolicy_fields =
   [(''policy_hash'', T_str), (''cpus'', T_float), (''memory_bytes'', T_int), (''pids'', T_int),
    (''wall_seconds'', T_int), (''cleanup_grace_seconds'', T_int), (''workspace_bytes'', T_int),
    (''workspace_inodes'', T_int), (''tmp_bytes'', T_int), (''artifact_bytes'', T_int),
    (''stream_bytes'', T_int), (''artifact_files'', T_int), (''network'', T_literal [''none'']),
    (''seccomp_digest'', T_str), (''max_jobs'', T_int), (''max_concurrency'', T_int)]"

definition GatePolicy_fields :: "(string \<times> field_type) list" where
  "GatePolicy_fields =
   [(''policy_hash'', T_str), (''scope'', T_literal [''diagnostic'', ''panel_release'', ''research'']),
    (''max_flaky_rate'', T_float), (''max_invalid_evaluation_rate'', T_float),
    (''max_error_rate'', T_float), (''min_valid_per_task'', T_int), (''min_invalid_per_task'', T_int),
    (''min_paired_tasks'', T_int), (''min_pair_coverage'', T_float), (''min_caught_invalid'', T_int),
    (''min_iar_improvement'', T_float), (''max_vrr_increase'', T_float),
    (''require_independent_review'', T_bool), (''require_no_new_invalid_acceptance'', T_bool),
    (''require_controls_match'', T_bool)]"

definition AnalysisPlan_fields :: "(string \<times> field_type) list" where
  "AnalysisPlan_fields =
   [(''plan_hash'', T_str), (''registered_at'', T_datetime), (''cohort_digest'', T_str),
    (''verifier_candidates'', T_tuple T_str), (''primary_outcomes'', T_tuple T_str),
    (''min_iar_improvement'', T_float), (''vrr_noninferiority_margin'', T_float), (''alpha'', T_float),
    (''bootstrap_draws'', T_int), (''seed'', T_int), (''budgets'', T_mapping T_float),
    (''exclusions'', T_tuple T_str), (''secondary_hypotheses'', T_tuple T_str), (''stopping_rule'', T_str)]"

definition TestResult_fields :: "(string \<times> field_type) list" where
  "TestResult_fields =
   [(''test_id'', T_str), (''status'', T_literal [''passed'', ''failed'', ''skipped'', ''error'']),
    (''duration'', T_opt T_float), (''failure_digest'', T_opt T_str)]"

definition TestReport_fields :: "(string \<times> field_type) list" where
  "TestReport_fields =
   [(''schema_version'', T_str), (''collected_ids'', T_tuple T_str),
    (''results'', T_tuple (T_record ''TestResult'')), (''completed'', T_bool),
    (''runner_error'', T_opt T_str)]"

definition ExecutionCapture_fields :: "(string \<times> field_type) list" where
  "ExecutionCapture_fields =
   [(''attempt_id'', T_str), (''exit_code'', T_opt T_int), (''timed_out'', T_bool),
    (''oom_killed'', T_opt T_bool), (''cancelled'', T_bool), (''build_exit_code'', T_opt T_int),
    (''stdout_hash'', T_opt T_str), (''stderr_hash'', T_opt T_str), (''report_digest'', T_opt T_str),
    (''truncated'', T_bool), (''resources'', T_record ''ResourceUsage''), (''runtime_error'', T_opt T_str)]"

definition ParsedOutcome_fields :: "(string \<times> field_type) list" where
  "ParsedOutcome_fields =
   [(''outcome'', T_literal [''accept'', ''reject'', ''invalid_evaluation'', ''error'']),
    (''evaluation_validity'', T_literal [''valid'', ''invalid'']), (''error_code'', T_opt T_str),
    (''report'', T_opt (T_record ''TestReport'')), (''evidence_digests'', T_tuple T_str)]"

definition CommandSpec_fields :: "(string \<times> field_type) list" where
  "CommandSpec_fields =
   [(''argv'', T_tuple T_str), (''cwd'', T_str), (''env'', T_mapping T_str),
    (''stdin_digest'', T_opt T_str), (''timeout_seconds'', T_int)]"

definition AuditOptions_fields :: "(string \<times> field_type) list" where
  "AuditOptions_fields =
   [(''task_files'', T_tuple T_str), (''benchmark_file'', T_opt T_str), (''panel_file'', T_str),
    (''baseline_file'', T_str), (''candidate_file'', T_str), (''repetitions'', T_int),
    (''backend'', T_literal [''fixture'', ''docker'']), (''trusted_fixture'', T_bool),
    (''sandbox_policy_file'', T_str), (''max_attempts'', T_int), (''offline'', T_bool),
    (''output_dir'', T_opt T_str), (''dry_run'', T_bool), (''resume_run_id'', T_opt T_str),
    (''parent_run_id'', T_opt T_str), (''policy_file'', T_str), (''analysis_plan_file'', T_opt T_str),
    (''max_jobs'', T_int), (''concurrency'', T_int), (''timeout_seconds'', T_int), (''seed'', T_opt T_int),
    (''collect_only'', T_bool), (''diagnostic'', T_bool)]"

definition AuditResult_fields :: "(string \<times> field_type) list" where
  "AuditResult_fields =
   [(''manifest'', T_any), (''matrix'', T_opt (T_record ''AcceptanceMatrix'')),
    (''metrics'', T_tuple (T_record ''MetricResult'')), (''gate'', T_opt (T_record ''GateDecision'')),
    (''diagnostics'', T_tuple T_str), (''artifacts'', T_tuple (T_record ''Artifact''))]"

definition TelemetryEvent_fields :: "(string \<times> field_type) list" where
  "TelemetryEvent_fields =
   [(''run_id'', T_str), (''attempt_id'', T_str), (''task_id'', T_str), (''patch_digest'', T_str),
    (''verifier_version'', T_str), (''action_type'', T_str), (''duration'', T_opt T_float),
    (''exit_code'', T_opt T_int), (''stdout_hash'', T_opt T_str), (''stderr_hash'', T_opt T_str),
    (''test_collection'', T_tuple T_str), (''tests_passed'', T_opt T_int), (''tests_failed'', T_opt T_int),
    (''allocated_cpu'', T_opt T_float), (''cpu_seconds'', T_opt T_float), (''peak_memory'', T_opt T_int),
    (''model_usage'', T_opt (T_mapping T_int)), (''estimated_cost'', T_opt T_str),
    (''pricing_version'', T_opt T_str)]"

definition BootstrapResult_fields :: "(string \<times> field_type) list" where
  "BootstrapResult_fields =
   [(''estimate'', T_opt T_float), (''low'', T_opt T_float), (''high'', T_opt T_float), (''seed'', T_int),
    (''valid_draws'', T_int), (''total_draws'', T_int), (''method'', T_str), (''warnings'', T_tuple T_str)]"

definition ReviewAgreement_fields :: "(string \<times> field_type) list" where
  "ReviewAgreement_fields =
   [(''paired_cases'', T_int), (''raw_agreement'', T_opt T_float), (''cohens_kappa'', T_opt T_float),
    (''unresolved_cases'', T_int), (''warnings'', T_tuple T_str)]"

definition TrainingExample_fields :: "(string \<times> field_type) list" where
  "TrainingExample_fields =
   [(''case_id'', T_str), (''task_key'', T_str), (''contract_hash'', T_str),
    (''label'', T_literal [''valid'', ''invalid'']), (''adjudication_id'', T_str),
    (''patch_digest'', T_str), (''witness_ids'', T_tuple T_str), (''family_id'', T_str),
    (''parent_case_ids'', T_tuple T_str), (''agent_run_id'', T_opt T_str), (''licence'', T_str),
    (''exposure_digest'', T_str), (''source_panel_key'', T_str)]"

definition BenchmarkVersion_fields :: "(string \<times> field_type) list" where
  "BenchmarkVersion_fields =
   [(''benchmark_key'', T_str), (''task_keys'', T_tuple T_str), (''panel_keys'', T_tuple T_str),
    (''analysis_plan_hash'', T_opt T_str), (''release_digest'', T_str), (''created_at'', T_datetime)]"

definition Task_fields :: "(string \<times> field_type) list" where
  "Task_fields =
   [(''task_key'', T_str), (''task_id'', T_str), (''version'', T_str), (''statement'', T_str),
    (''adapter'', T_str), (''contract_hash'', T_str), (''snapshot_digest'', T_str),
    (''environment_id'', T_str), (''licence'', T_str), (''provenance'', T_str),
    (''eligibility'', T_literal [''eligible'', ''excluded'', ''pending'']), (''notes'', T_str),
    (''created_at'', T_datetime)]"

definition Requirement_fields :: "(string \<times> field_type) list" where
  "Requirement_fields =
   [(''requirement_hash'', T_str), (''requirement_id'', T_str), (''text'', T_str),
    (''source_kind'', T_literal [''explicit'', ''repository'', ''clarification'']),
    (''evidence_digests'', T_tuple T_str), (''source_locator'', T_str), (''allowed_variation'', T_str)]"

definition Contract_fields :: "(string \<times> field_type) list" where
  "Contract_fields =
   [(''contract_hash'', T_str), (''task_id'', T_str), (''version'', T_str),
    (''requirement_hashes'', T_tuple T_str), (''allowed_variation'', T_str),
    (''unresolved_questions'', T_tuple T_str), (''evidence_digests'', T_tuple T_str),
    (''created_at'', T_datetime)]"

definition RepositorySnapshot_fields :: "(string \<times> field_type) list" where
  "RepositorySnapshot_fields =
   [(''snapshot_digest'', T_str), (''repository_id'', T_str), (''commit_oid'', T_str),
    (''archive_uri'', T_str), (''tree_digest'', T_str), (''submodule_digests'', T_tuple T_str),
    (''lock_digests'', T_tuple T_str), (''licence'', T_str), (''created_at'', T_datetime)]"

definition Environment_fields :: "(string \<times> field_type) list" where
  "Environment_fields =
   [(''environment_id'', T_str), (''backend'', T_literal [''fixture'', ''docker'']),
    (''image_digest'', T_opt T_str), (''platform'', T_str), (''recipe_digest'', T_str),
    (''lock_digests'', T_tuple T_str), (''service_manifests'', T_tuple T_str),
    (''resource_policy_hash'', T_str), (''runtime_fingerprint'', T_str), (''mirror_uris'', T_tuple T_str)]"

definition PatchCase_fields :: "(string \<times> field_type) list" where
  "PatchCase_fields =
   [(''case_id'', T_str), (''task_key'', T_str), (''diff_digest'', T_str),
    (''base_snapshot_digest'', T_str),
    (''source'', T_literal [''human'', ''agent'', ''mutation'', ''reference'', ''noop'']),
    (''source_run_id'', T_opt T_str), (''parent_case_ids'', T_tuple T_str), (''family_id'', T_str),
    (''role'', T_literal [''challenge'', ''reference'', ''noop'']), (''provenance_digest'', T_str),
    (''licence'', T_str), (''created_at'', T_datetime)]"

definition Witness_fields :: "(string \<times> field_type) list" where
  "Witness_fields =
   [(''witness_id'', T_str), (''case_id'', T_str), (''contract_hash'', T_str),
    (''requirement_hashes'', T_tuple T_str), (''input_digest'', T_str), (''expected_digest'', T_str),
    (''observed_digest'', T_str), (''reproducer_command'', T_tuple T_str), (''environment_id'', T_str),
    (''reviewed_by'', T_tuple T_str), (''reproduced_at'', T_opt T_datetime)]"

definition Adjudication_fields :: "(string \<times> field_type) list" where
  "Adjudication_fields =
   [(''adjudication_id'', T_str), (''case_id'', T_str), (''contract_hash'', T_str), (''version'', T_int),
    (''label'', T_literal [''valid'', ''invalid'', ''unresolved'']),
    (''review_status'', T_literal [''provisional'', ''independent'', ''disputed'']),
    (''votes'', T_tuple (T_record ''ReviewVote'')), (''rationale'', T_str),
    (''requirement_hashes'', T_tuple T_str), (''witness_ids'', T_tuple T_str), (''uncertainty'', T_str),
    (''supersedes_id'', T_opt T_str), (''created_at'', T_datetime)]"

definition PatchPanel_fields :: "(string \<times> field_type) list" where
  "PatchPanel_fields =
   [(''panel_key'', T_str), (''panel_id'', T_str), (''version'', T_str),
    (''split'', T_literal [''development'', ''assessment'', ''train'']), (''membership_digest'', T_str),
    (''sampling_policy'', T_str), (''exposed_at'', T_opt T_datetime),
    (''development_used_at'', T_opt T_datetime), (''sealed_at'', T_opt T_datetime),
    (''retired_at'', T_opt T_datetime), (''parent_panel_key'', T_opt T_str)]"

definition PatchPanelMembership_fields :: "(string \<times> field_type) list" where
  "PatchPanelMembership_fields =
   [(''panel_key'', T_str), (''case_id'', T_str), (''adjudication_id'', T_str), (''ordinal'', T_int),
    (''expected_control_outcomes'', T_mapping T_str)]"

definition AgentRun_fields :: "(string \<times> field_type) list" where
  "AgentRun_fields =
   [(''agent_run_id'', T_str), (''agent_version'', T_str), (''model_identifier'', T_str),
    (''prompt_digest'', T_str), (''config_hash'', T_str), (''budget'', T_mapping (T_opt T_float)),
    (''patch_digest'', T_str), (''trajectory_digest'', T_opt T_str),
    (''model_usage'', T_opt (T_mapping T_int)), (''exposure_record_digest'', T_str),
    (''created_at'', T_datetime)]"

definition VerifierVersion_fields :: "(string \<times> field_type) list" where
  "VerifierVersion_fields =
   [(''verifier_key'', T_str), (''verifier_id'', T_str), (''version'', T_str),
    (''parent_key'', T_opt T_str), (''manifest_hash'', T_str), (''payload_digest'', T_str),
    (''compatible_contract_hashes'', T_tuple T_str), (''created_at'', T_datetime)]"

definition VerifierManifest_fields :: "(string \<times> field_type) list" where
  "VerifierManifest_fields =
   [(''manifest_hash'', T_str), (''mode'', T_literal [''compatibility'', ''blackbox'']),
    (''command'', T_tuple T_str), (''build_command'', T_tuple T_str),
    (''expected_collection'', T_tuple T_str), (''parser_id'', T_str), (''report_path'', T_str),
    (''payload_digest'', T_str), (''allowed_edit_paths'', T_tuple T_str),
    (''required_pass_ids'', T_tuple T_str), (''permitted_skips'', T_tuple T_str),
    (''timeout_seconds'', T_int)]"

definition EvaluationAttempt_fields :: "(string \<times> field_type) list" where
  "EvaluationAttempt_fields =
   [(''attempt_id'', T_str), (''job_id'', T_str), (''fence'', T_int),
    (''outcome'', T_opt (T_literal [''accept'', ''reject'', ''invalid_evaluation'', ''error''])),
    (''evaluation_validity'', T_literal [''pending'', ''valid'', ''invalid'']),
    (''error_code'', T_opt T_str),
    (''disposition'', T_literal [''active'', ''authoritative'', ''stale'', ''abandoned'']),
    (''started_at'', T_datetime), (''finished_at'', T_opt T_datetime), (''exit_code'', T_opt T_int),
    (''stdout_hash'', T_opt T_str), (''stderr_hash'', T_opt T_str), (''report_digest'', T_opt T_str),
    (''test_collection'', T_tuple T_str), (''tests_passed'', T_opt T_int), (''tests_failed'', T_opt T_int),
    (''resources'', T_record ''ResourceUsage''), (''artifact_digests'', T_tuple T_str),
    (''capture_truncated'', T_bool)]"

definition AcceptanceMatrix_fields :: "(string \<times> field_type) list" where
  "AcceptanceMatrix_fields =
   [(''matrix_id'', T_str), (''run_id'', T_str), (''reducer_version'', T_str),
    (''cells'', T_tuple (T_record ''AcceptanceCell'')), (''complete'', T_bool),
    (''source_attempts_digest'', T_str), (''created_at'', T_datetime)]"

definition MetricResult_fields :: "(string \<times> field_type) list" where
  "MetricResult_fields =
   [(''metric_id'', T_str), (''matrix_id'', T_str), (''name'', T_str), (''definition_version'', T_str),
    (''verifier_key'', T_opt T_str), (''cohort'', T_literal [''challenge'', ''controls'', ''all'']),
    (''value'', T_opt T_float), (''numerator'', T_opt T_int), (''denominator'', T_opt T_int),
    (''task_terms'', T_tuple (T_record ''MetricTerm'')), (''ci_low'', T_opt T_float),
    (''ci_high'', T_opt T_float), (''analysis_plan_hash'', T_opt T_str), (''coverage'', T_mapping T_int)]"

definition GateDecision_fields :: "(string \<times> field_type) list" where
  "GateDecision_fields =
   [(''decision_id'', T_str), (''run_id'', T_str), (''matrix_id'', T_opt T_str), (''policy_hash'', T_str),
    (''state'', T_literal [''PASSED'', ''BLOCKED'', ''INCONCLUSIVE'', ''INSUFFICIENT_EVIDENCE'', ''INFRASTRUCTURE_ERROR'']),
    (''exit_code'', T_int), (''reasons'', T_tuple T_str),
    (''evidence'', T_tuple (T_record ''GateEvidence'')), (''reliability_flags'', T_tuple T_str),
    (''created_at'', T_datetime)]"

definition Artifact_fields :: "(string \<times> field_type) list" where
  "Artifact_fields =
   [(''digest'', T_str), (''kind'', T_str), (''size_bytes'', T_int), (''storage_uri'', T_str),
    (''media_type'', T_str), (''access_policy'', T_literal [''public'', ''restricted'', ''sealed'']),
    (''retention_until'', T_opt T_datetime), (''available'', T_bool), (''created_at'', T_datetime)]"

definition AuditManifest_fields :: "(string \<times> field_type) list" where
  "AuditManifest_fields =
   [(''manifest_hash'', T_str), (''run_id'', T_str), (''benchmark_version'', T_str),
    (''task_pins'', T_tuple (T_record ''TaskPin'')), (''panel_key'', T_str),
    (''adjudication_version'', T_str), (''evaluation_harness_version'', T_str), (''config_hash'', T_str),
    (''policy_hash'', T_str), (''analysis_plan_hash'', T_opt T_str), (''timestamp'', T_datetime),
    (''host_fingerprint'', T_str), (''seed'', T_opt T_int), (''agent_version'', T_opt T_str),
    (''model_identifier'', T_opt T_str), (''max_repetitions'', T_int), (''max_attempts_per_job'', T_int),
    (''timeout_seconds'', T_int), (''resource_policy'', T_str), (''expansion_digest'', T_str),
    (''parent_run_id'', T_opt T_str)]"

definition AuditRun_fields :: "(string \<times> field_type) list" where
  "AuditRun_fields =
   [(''run_id'', T_str), (''manifest_hash'', T_str),
    (''state'', T_literal [''PLANNED'', ''RUNNING'', ''COMPLETE'', ''CANCELLED'', ''FAILED'']),
    (''cancel_requested'', T_bool), (''created_at'', T_datetime), (''finished_at'', T_opt T_datetime),
    (''diagnostic_code'', T_opt T_str)]"

text \<open>\<open>_KIND_REGISTRY\<close>\<close>

definition kind_registry :: "(string \<times> (string \<times> field_type) list) list" where
  "kind_registry =
   [(''ReviewVote'', ReviewVote_fields), (''TaskPin'', TaskPin_fields),
    (''ResourceUsage'', ResourceUsage_fields), (''Job'', Job_fields),
    (''AcceptanceCell'', AcceptanceCell_fields), (''MetricTerm'', MetricTerm_fields),
    (''GateEvidence'', GateEvidence_fields), (''ImportRequest'', ImportRequest_fields),
    (''ImportBundle'', ImportBundle_fields), (''LocalImportManifest'', LocalImportManifest_fields),
    (''SandboxPolicy'', SandboxPolicy_fields), (''GatePolicy'', GatePolicy_fields),
    (''AnalysisPlan'', AnalysisPlan_fields), (''TestResult'', TestResult_fields),
    (''TestReport'', TestReport_fields), (''ExecutionCapture'', ExecutionCapture_fields),
    (''ParsedOutcome'', ParsedOutcome_fields), (''CommandSpec'', CommandSpec_fields),
    (''AuditOptions'', AuditOptions_fields), (''AuditResult'', AuditResult_fields),
    (''TelemetryEvent'', TelemetryEvent_fields), (''BootstrapResult'', BootstrapResult_fields),
    (''ReviewAgreement'', ReviewAgreement_fields), (''TrainingExample'', TrainingExample_fields),
    (''BenchmarkVersion'', BenchmarkVersion_fields), (''Task'', Task_fields),
    (''Requirement'', Requirement_fields), (''Contract'', Contract_fields),
    (''RepositorySnapshot'', RepositorySnapshot_fields), (''Environment'', Environment_fields),
    (''PatchCase'', PatchCase_fields), (''Witness'', Witness_fields),
    (''Adjudication'', Adjudication_fields), (''PatchPanel'', PatchPanel_fields),
    (''PatchPanelMembership'', PatchPanelMembership_fields), (''AgentRun'', AgentRun_fields),
    (''VerifierVersion'', VerifierVersion_fields), (''VerifierManifest'', VerifierManifest_fields),
    (''EvaluationAttempt'', EvaluationAttempt_fields), (''AcceptanceMatrix'', AcceptanceMatrix_fields),
    (''MetricResult'', MetricResult_fields), (''GateDecision'', GateDecision_fields),
    (''Artifact'', Artifact_fields), (''AuditManifest'', AuditManifest_fields),
    (''AuditRun'', AuditRun_fields)]"

definition SUPPORTED_SCHEMA_VERSIONS :: "string list" where
  "SUPPORTED_SCHEMA_VERSIONS = [''1.0'', ''1.0.0'']"

definition SUPPORTED_WIRE_VERSIONS :: "string list" where
  "SUPPORTED_WIRE_VERSIONS = [''1.0'']"

section \<open>Conversion of a field\<close>

definition refused :: "'a res" where
  "refused = Inl (make_error ValidationError None)"

text \<open>\<open>_convert_field(Any, val)\<close>\<close>

fun any_value :: "json \<Rightarrow> pyval"
  and any_items :: "(string \<times> json) list \<Rightarrow> (string \<times> pyval) list"
  and any_seq :: "json list \<Rightarrow> pyval list" where
  "any_value J_null = V_none"
| "any_value (J_bool b) = V_bool b"
| "any_value (J_int n) = V_int n"
| "any_value (J_float f) = V_float f"
| "any_value (J_str s) = V_str s"
| "any_value (J_arr vs) = V_seq (any_seq vs)"
| "any_value (J_obj kvs) = V_mapping (any_items kvs)"
| "any_items [] = []"
| "any_items ((k, v) # kvs) = (k, any_value v) # any_items kvs"
| "any_seq [] = []"
| "any_seq (v # vs) = any_value v # any_seq vs"

text \<open>\<open>val.replace("Z", "+00:00")\<close>\<close>

definition z_to_offset :: "string \<Rightarrow> string" where
  "z_to_offset s = concat (map (\<lambda>c. if c = CHR ''Z'' then ''+00:00'' else [c]) s)"

definition convert_float :: "json \<Rightarrow> pyval res" where
  "convert_float j = (case j of
     J_int n \<Rightarrow> (case float_of_int n of Inl e \<Rightarrow> refused | Inr f \<Rightarrow> Inr (V_float f))
   | J_float f \<Rightarrow> if is_finite f then Inr (V_float f) else refused
   | _ \<Rightarrow> refused)"

definition convert_datetime :: "(string \<Rightarrow> any_datetime option) \<Rightarrow> json \<Rightarrow> pyval res" where
  "convert_datetime fromiso j = (case j of
     J_str s \<Rightarrow> (case fromiso (z_to_offset s) of
         None \<Rightarrow> refused
       | Some t \<Rightarrow> if dt_offset t = None then refused else Inr (V_datetime (dt_instant t)))
   | _ \<Rightarrow> refused)"

text \<open>A supported schema version where the object has the key.\<close>

definition schema_supported :: "(string \<times> json) list \<Rightarrow> bool" where
  "schema_supported kvs = (case map_of kvs ''schema_version'' of
     None \<Rightarrow> True
   | Some (J_str v) \<Rightarrow> v \<in> set SUPPORTED_SCHEMA_VERSIONS
   | Some _ \<Rightarrow> False)"

lemma map_res_cong [fundef_cong]:
  "xs = ys \<Longrightarrow> (\<And>x. x \<in> set ys \<Longrightarrow> f x = g x) \<Longrightarrow> map_res f xs = map_res g ys"
  by (induction ys arbitrary: xs) auto

lemma size_map_of: "map_of kvs k = Some x \<Longrightarrow> size x < Suc (size_list (size_prod (\<lambda>_. 0) size) kvs)"
  by (induction kvs) (auto split: if_splits)

lemma size_list_mem: "x \<in> set xs \<Longrightarrow> size x < Suc (size_list size xs)"
  by (induction xs) auto

lemma size_items_mem: "(k, x) \<in> set kvs \<Longrightarrow> size x < Suc (size_list (size_prod (\<lambda>_. 0) size) kvs)"
  by (induction kvs) auto

text \<open>
  \<open>_convert_field\<close> and \<open>_instantiate_dataclass\<close>. No annotation falls through to the last line of
  \<open>_convert_field\<close>.
\<close>

function convert_field :: "(string \<Rightarrow> any_datetime option) \<Rightarrow> field_type \<Rightarrow> json \<Rightarrow> pyval res"
  and instantiate_dataclass :: "(string \<Rightarrow> any_datetime option) \<Rightarrow> string \<Rightarrow> json \<Rightarrow> pyval res" where
  "convert_field fromiso t j =
    (if t = T_any then Inr (any_value j)
     else if j = J_null then (case t of T_opt u \<Rightarrow> Inr V_none | _ \<Rightarrow> refused)
     else case t of
       T_any \<Rightarrow> Inr (any_value j)
     | T_opt u \<Rightarrow> convert_field fromiso u j
     | T_literal ls \<Rightarrow> (case j of J_str s \<Rightarrow> if s \<in> set ls then Inr (V_str s) else refused | _ \<Rightarrow> refused)
     | T_bool \<Rightarrow> (case j of J_bool b \<Rightarrow> Inr (V_bool b) | _ \<Rightarrow> refused)
     | T_int \<Rightarrow> (case j of J_int n \<Rightarrow> Inr (V_int n) | _ \<Rightarrow> refused)
     | T_float \<Rightarrow> convert_float j
     | T_str \<Rightarrow> (case j of J_str s \<Rightarrow> Inr (V_str s) | _ \<Rightarrow> refused)
     | T_datetime \<Rightarrow> convert_datetime fromiso j
     | T_tuple u \<Rightarrow> (case j of
         J_arr js \<Rightarrow> bind_res (map_res (convert_field fromiso u) js) (\<lambda>vs. Inr (V_seq vs))
       | _ \<Rightarrow> refused)
     | T_mapping u \<Rightarrow> (case j of
         J_obj kvs \<Rightarrow> bind_res
           (map_res (\<lambda>(k, x). bind_res (convert_field fromiso u x) (\<lambda>v. Inr (k, v))) kvs)
           (\<lambda>kvs. Inr (V_mapping kvs))
       | _ \<Rightarrow> refused)
     | T_record c \<Rightarrow> instantiate_dataclass fromiso c j)"
| "instantiate_dataclass fromiso c j = (case (j, map_of kind_registry c) of
     (J_obj kvs, Some fts) \<Rightarrow>
       if \<not> schema_supported kvs then refused
       else if \<not> set (map fst kvs) \<subseteq> set (map fst fts) then refused
       else bind_res
         (map_res (\<lambda>(f, t). case map_of kvs f of
              None \<Rightarrow> refused
            | Some x \<Rightarrow> bind_res (convert_field fromiso t x) (\<lambda>v. Inr (f, v))) fts)
         (\<lambda>fs. Inr (V_dataclass fs))
   | _ \<Rightarrow> refused)"
  by pat_completeness auto
termination
  by (relation "measures [\<lambda>x. case x of Inl (f, t, j) \<Rightarrow> size j | Inr (f, c, j) \<Rightarrow> size j,
      \<lambda>x. case x of Inl (f, t, j) \<Rightarrow> Suc (size t) | Inr (f, c, j) \<Rightarrow> 0]")
    (auto dest: size_map_of size_list_mem size_items_mem)

declare convert_field.simps [simp del] instantiate_dataclass.simps [simp del]

section \<open>Records to bytes and back\<close>

definition encode_record :: "(pyfloat \<Rightarrow> string) \<Rightarrow> pyval \<Rightarrow> string res" where
  "encode_record fr v = canonical_bytes fr v"

text \<open>The envelope \<open>{schema_version, kind, data}\<close>, which is optional.\<close>

definition is_envelope :: "(string \<times> json) list \<Rightarrow> bool" where
  "is_envelope kvs \<longleftrightarrow> set [''schema_version'', ''kind'', ''data''] \<subseteq> set (map fst kvs) \<and> length kvs = 3"

definition open_envelope :: "string \<Rightarrow> json \<Rightarrow> json res" where
  "open_envelope kind j = (case j of
     J_obj kvs \<Rightarrow>
       if \<not> is_envelope kvs then Inr j
       else if \<not> schema_supported kvs then refused
       else if map_of kvs ''kind'' \<noteq> Some (J_str kind) then refused
       else (case map_of kvs ''data'' of Some d \<Rightarrow> Inr d | None \<Rightarrow> refused)
   | _ \<Rightarrow> Inr j)"

definition DEFAULT_MAX_BYTES :: nat where "DEFAULT_MAX_BYTES = 10 * 1024 * 1024"

definition decode_record ::
    "(string \<Rightarrow> pyfloat option) \<Rightarrow> (string \<Rightarrow> any_datetime option) \<Rightarrow> string \<Rightarrow> string \<Rightarrow> nat \<Rightarrow> pyval res" where
  "decode_record flt fromiso kind payload max_bytes =
    (if length payload > max_bytes then refused
     else if map_of kind_registry kind = None then refused
     else case json_loads flt payload of
       None \<Rightarrow> refused
     | Some j \<Rightarrow> bind_res (open_envelope kind j) (\<lambda>d. instantiate_dataclass fromiso kind d))"

text \<open>The version of a wire request may be any value.\<close>

definition validate_wire_version :: "pyval \<Rightarrow> unit res" where
  "validate_wire_version version = (case version of
     V_str v \<Rightarrow> if v \<in> set SUPPORTED_WIRE_VERSIONS then Inr () else refused
   | _ \<Rightarrow> refused)"

text \<open>\<open>result_digest\<close> of \<open>models/result.py\<close>\<close>

definition result_digest :: "(string \<Rightarrow> string) \<Rightarrow> (pyfloat \<Rightarrow> string) \<Rightarrow> pyval \<Rightarrow> string res" where
  "result_digest H fr v = canonical_hash H fr v"

end
