(* ===== verification/Codec_Properties.thy ===== *)
theory Codec_Properties
  imports Codec
begin

text \<open>
  What the codec promises: a decoded record has the annotated types, decoding inverts encoding up to
  the order of the items of a mapping, and, by example, what decoding lets through that encoding refuses.
\<close>

section \<open>Values of a type\<close>

text \<open>The values \<open>_convert_field(Any, _)\<close> makes.\<close>

fun plain :: "pyval \<Rightarrow> bool" where
  "plain (V_mapping kvs) = (distinct (map fst kvs) \<and> list_all (\<lambda>(k, v). plain v) kvs)"
| "plain (V_seq vs) = list_all plain vs"
| "plain (V_dataclass fs) = False"
| "plain (V_datetime t) = False"
| "plain V_naive = False"
| "plain V_other = False"
| "plain _ = True"

text \<open>A field \<open>schema_version\<close> holds a supported version.\<close>

definition versioned :: "(string \<times> pyval) list \<Rightarrow> bool" where
  "versioned fs \<longleftrightarrow> (case map_of fs ''schema_version'' of
     None \<Rightarrow> True | Some v \<Rightarrow> v \<in> V_str ` set SUPPORTED_SCHEMA_VERSIONS)"

text \<open>A value of an annotated type.\<close>

function conforms :: "field_type \<Rightarrow> pyval \<Rightarrow> bool" where
  "conforms t v = (case t of
     T_any \<Rightarrow> plain v
   | T_opt u \<Rightarrow> v = V_none \<or> conforms u v
   | T_literal ls \<Rightarrow> (case v of V_str s \<Rightarrow> s \<in> set ls | _ \<Rightarrow> False)
   | T_bool \<Rightarrow> (case v of V_bool b \<Rightarrow> True | _ \<Rightarrow> False)
   | T_int \<Rightarrow> (case v of V_int n \<Rightarrow> True | _ \<Rightarrow> False)
   | T_float \<Rightarrow> (case v of V_float f \<Rightarrow> is_finite f | _ \<Rightarrow> False)
   | T_str \<Rightarrow> (case v of V_str s \<Rightarrow> True | _ \<Rightarrow> False)
   | T_datetime \<Rightarrow> (case v of V_datetime t \<Rightarrow> True | _ \<Rightarrow> False)
   | T_tuple u \<Rightarrow> (case v of V_seq vs \<Rightarrow> list_all (conforms u) vs | _ \<Rightarrow> False)
   | T_mapping u \<Rightarrow> (case v of
       V_mapping kvs \<Rightarrow> distinct (map fst kvs) \<and> list_all (\<lambda>(k, x). conforms u x) kvs
     | _ \<Rightarrow> False)
   | T_record c \<Rightarrow> (case (v, map_of kind_registry c) of
       (V_dataclass fs, Some fts) \<Rightarrow> map fst fs = map fst fts \<and> versioned fs
         \<and> list_all (\<lambda>((f, x), (g, t)). conforms t x) (zip fs fts)
     | _ \<Rightarrow> False))"
  by pat_completeness auto

lemma size_vals_mem: "(k, x) \<in> set kvs \<Longrightarrow> size x < Suc (size_list (size_prod (\<lambda>_. 0) size) kvs)"
  by (induction kvs) auto

termination conforms
  by (relation "measures [\<lambda>(t, v). size v, \<lambda>(t, v). size t]")
    (auto dest: size_list_mem size_vals_mem dest!: set_zip_leftD)

declare conforms.simps [simp del]

section \<open>Decoded values have the annotated types\<close>

lemma refused_simps [simp]: "refused \<noteq> Inr x" "Inr x \<noteq> refused"
  by (simp_all add: refused_def)

lemma map_res_Inr_iff: "map_res f xs = Inr ys \<longleftrightarrow> list_all2 (\<lambda>x y. f x = Inr y) xs ys"
  by (induction xs arbitrary: ys) (auto simp: bind_res_Inr_iff list_all2_Cons1)

lemma list_all2_mem: "list_all2 P xs ys \<Longrightarrow> y \<in> set ys \<Longrightarrow> \<exists>x \<in> set xs. P x y"
  by (metis in_set_conv_nth list_all2_conv_all_nth)

text \<open>Objects with distinct keys only.\<close>

fun keys_distinct :: "json \<Rightarrow> bool" where
  "keys_distinct (J_obj kvs) = (distinct (map fst kvs) \<and> list_all (\<lambda>(k, j). keys_distinct j) kvs)"
| "keys_distinct (J_arr js) = list_all keys_distinct js"
| "keys_distinct _ = True"

lemma scan_literal_distinct: "scan_literal s = Some (j, r) \<Longrightarrow> keys_distinct j"
  by (auto simp: scan_literal_def literals_def split: if_splits option.splits)

lemma scan_number_distinct: "scan_number flt s = Some (j, r) \<Longrightarrow> keys_distinct j"
  by (auto simp: scan_number_def Let_def split: option.splits prod.splits if_splits)

lemma json_value_distinct:
  "json_value flt s = Some (j, r) \<Longrightarrow> keys_distinct j"
  "json_elements flt s = Some (js, r) \<Longrightarrow> list_all keys_distinct js"
  "json_members flt s = Some (kvs, r) \<Longrightarrow> list_all (\<lambda>(k, j). keys_distinct j) kvs"
proof (induction flt s and flt s and flt s arbitrary: j r and js r and kvs r
    rule: json_value_json_elements_json_members.induct)
  case (1 flt s)
  from 1(3) show ?case
    unfolding json_value.simps [of flt s]
    by (auto split: list.splits if_splits option.splits simp: json_no_duplicates_def
        dest: scan_literal_distinct scan_number_distinct 1(2))
      (use 1(1) in force)
next
  case (2 flt s)
  from 2(3) obtain w y where first: "json_value flt s = Some (w, y)"
    and more: "js = [w] \<or> (\<exists>z ws. js = w # ws \<and> skip_space y = CHR '','' # z
      \<and> json_elements flt (skip_space z) = Some (ws, r))"
    unfolding json_elements.simps [of flt s] by (auto split: list.splits if_splits option.splits)
  have "list_all keys_distinct ws"
    if "skip_space y = CHR '','' # z" "json_elements flt (skip_space z) = Some (ws, r)" for z ws
    using 2(2) [OF first refl that(1) _ refl that(2)] by simp
  with more 2(1) [OF first] show ?case by auto
next
  case (3 flt s)
  from 3(3) obtain k x z v y where first: "scanstring s = Some (k, x)" "skip_space x = CHR '':'' # z"
      "json_value flt (skip_space z) = Some (v, y)"
    and more: "kvs = [(k, v)] \<or> (\<exists>u w ws. kvs = (k, v) # ws \<and> skip_space y = CHR '','' # u
      \<and> skip_space u = CHR 0x22 # w \<and> json_members flt w = Some (ws, r))"
    unfolding json_members.simps [of flt s] by (auto split: list.splits if_splits option.splits)
  have "list_all (\<lambda>(k, j). keys_distinct j) ws"
    if "skip_space y = CHR '','' # u" "skip_space u = CHR 0x22 # w" "json_members flt w = Some (ws, r)" for u w ws
    using 3(2) [OF first(1) refl first(2) _ first(3) refl that(1) _ refl that(2) refl that(3)] by simp
  moreover have "keys_distinct v"
    using 3(1) [OF first(1) refl first(2) _ first(3)] by simp
  ultimately show ?case using more by auto
qed

lemma json_loads_distinct: "json_loads flt s = Some j \<Longrightarrow> keys_distinct j"
  by (auto simp: json_loads_def split: if_splits option.splits dest: json_value_distinct(1))

lemma any_items_map: "any_items kvs = map (\<lambda>(k, j). (k, any_value j)) kvs"
  by (induction kvs) auto

lemma any_seq_map: "any_seq js = map any_value js"
  by (induction js) auto

lemma plain_any: "keys_distinct j \<Longrightarrow> plain (any_value j)"
  by (induction j rule: keys_distinct.induct)
    (auto simp: any_items_map any_seq_map list_all_iff comp_def case_prod_beta)

text \<open>Every class names its fields once, and a schema version is a string.\<close>

definition registered_ok :: "(string \<times> field_type) list \<Rightarrow> bool" where
  "registered_ok fts \<longleftrightarrow> distinct (map fst fts)
     \<and> (case map_of fts ''schema_version'' of None \<Rightarrow> True | Some t \<Rightarrow> t = T_str)
     \<and> \<not> set (map fst fts) \<subseteq> set [''schema_version'', ''kind'', ''data'']"

lemma registry_ok: "list_all (\<lambda>(c, fts). registered_ok fts) kind_registry"
  by code_simp

lemma registered:
  assumes "map_of kind_registry c = Some fts"
  shows "distinct (map fst fts)" and "map_of fts ''schema_version'' = Some t \<Longrightarrow> t = T_str"
    and "\<not> set (map fst fts) \<subseteq> set [''schema_version'', ''kind'', ''data'']"
proof -
  from registry_ok map_of_SomeD [OF assms] have "registered_ok fts" by (auto simp: list_all_iff)
  then show "distinct (map fst fts)" "map_of fts ''schema_version'' = Some t \<Longrightarrow> t = T_str"
    "\<not> set (map fst fts) \<subseteq> set [''schema_version'', ''kind'', ''data'']"
    unfolding registered_ok_def by (auto split: option.splits)
qed

lemma float_of_int_finite: "float_of_int n = Inr f \<Longrightarrow> is_finite f"
  by (auto simp: float_of_int_def split: if_splits)

lemma convert_types:
  "convert_field fromiso T_any j = Inr (any_value j)"
  "convert_field fromiso (T_opt u) j = (if j = J_null then Inr V_none else convert_field fromiso u j)"
  "convert_field fromiso (T_literal ls) j =
    (case j of J_str s \<Rightarrow> if s \<in> set ls then Inr (V_str s) else refused | _ \<Rightarrow> refused)"
  "convert_field fromiso T_bool j = (case j of J_bool b \<Rightarrow> Inr (V_bool b) | _ \<Rightarrow> refused)"
  "convert_field fromiso T_int j = (case j of J_int n \<Rightarrow> Inr (V_int n) | _ \<Rightarrow> refused)"
  "convert_field fromiso T_float j = convert_float j"
  "convert_field fromiso T_str j = (case j of J_str s \<Rightarrow> Inr (V_str s) | _ \<Rightarrow> refused)"
  "convert_field fromiso T_datetime j = convert_datetime fromiso j"
  "convert_field fromiso (T_tuple u) j = (case j of
     J_arr js \<Rightarrow> bind_res (map_res (convert_field fromiso u) js) (\<lambda>vs. Inr (V_seq vs)) | _ \<Rightarrow> refused)"
  "convert_field fromiso (T_mapping u) j = (case j of
     J_obj kvs \<Rightarrow> bind_res
       (map_res (\<lambda>(k, x). bind_res (convert_field fromiso u x) (\<lambda>v. Inr (k, v))) kvs)
       (\<lambda>kvs. Inr (V_mapping kvs))
   | _ \<Rightarrow> refused)"
  "convert_field fromiso (T_record c) j = instantiate_dataclass fromiso c j"
  by (simp_all add: convert_field.simps [of fromiso _ j] convert_float_def convert_datetime_def
      instantiate_dataclass.simps [of fromiso c j])

lemma conforms_types:
  "conforms T_any v = plain v"
  "conforms (T_opt u) v \<longleftrightarrow> v = V_none \<or> conforms u v"
  "conforms (T_literal ls) v \<longleftrightarrow> (\<exists>s \<in> set ls. v = V_str s)"
  "conforms T_bool v \<longleftrightarrow> (\<exists>b. v = V_bool b)"
  "conforms T_int v \<longleftrightarrow> (\<exists>n. v = V_int n)"
  "conforms T_float v \<longleftrightarrow> (\<exists>f. v = V_float f \<and> is_finite f)"
  "conforms T_str v \<longleftrightarrow> (\<exists>s. v = V_str s)"
  "conforms T_datetime v \<longleftrightarrow> (\<exists>t. v = V_datetime t)"
  "conforms (T_tuple u) v \<longleftrightarrow> (\<exists>vs. v = V_seq vs \<and> list_all (conforms u) vs)"
  "conforms (T_mapping u) v \<longleftrightarrow>
    (\<exists>kvs. v = V_mapping kvs \<and> distinct (map fst kvs) \<and> list_all (\<lambda>(k, x). conforms u x) kvs)"
  "conforms (T_record c) v \<longleftrightarrow> (\<exists>fs fts. v = V_dataclass fs \<and> map_of kind_registry c = Some fts
     \<and> map fst fs = map fst fts \<and> versioned fs
     \<and> list_all2 (\<lambda>(f, x) (g, t). conforms t x) fs fts)"
  by (auto simp: conforms.simps [of _ v] list_all2_iff list_all_iff split: pyval.splits option.splits
      dest: map_eq_imp_length_eq)

lemma convert_conforms:
  "convert_field fromiso t j = Inr v \<Longrightarrow> keys_distinct j \<Longrightarrow> conforms t v"
  "instantiate_dataclass fromiso c j = Inr v \<Longrightarrow> keys_distinct j \<Longrightarrow> conforms (T_record c) v"
proof (induction fromiso t j and fromiso c j arbitrary: v and v
    rule: convert_field_instantiate_dataclass.induct)
  case (1 fromiso t j)
  show ?case
  proof (cases t)
    case (T_tuple u)
    with 1(5) obtain js vs where j: "j = J_arr js" and v: "v = V_seq vs"
      and vs: "list_all2 (\<lambda>x y. convert_field fromiso u x = Inr y) js vs"
      by (auto simp: convert_types bind_res_Inr_iff map_res_Inr_iff split: json.splits)
    have "conforms u y" if "y \<in> set vs" for y
      using vs that 1(2) [OF _ _ T_tuple j] 1(6) T_tuple j
      by (auto simp: list_all2_conv_all_nth in_set_conv_nth list_all_iff) (metis nth_mem)
    then show ?thesis by (simp add: T_tuple v conforms_types list_all_iff)
  next
    case (T_mapping u)
    with 1(5) obtain kvs vs where j: "j = J_obj kvs" and v: "v = V_mapping vs"
      and vs: "list_all2 (\<lambda>x y. \<exists>w. convert_field fromiso u (snd x) = Inr w \<and> (fst x, w) = y) kvs vs"
      by (auto simp: convert_types bind_res_Inr_iff map_res_Inr_iff case_prod_beta split: json.splits)
    have keys: "map fst vs = map fst kvs"
      using vs by (induction rule: list_all2_induct) auto
    have "conforms u w" if kw: "(k, w) \<in> set vs" for k w
    proof -
      obtain x where "(k, x) \<in> set kvs" "convert_field fromiso u x = Inr w"
        using list_all2_mem [OF vs kw] by auto
      then show ?thesis
        using 1(3) [OF _ _ T_mapping j _ refl] 1(6) T_mapping j by (auto simp: list_all_iff)
    qed
    then show ?thesis
      using 1(6) by (auto simp: T_mapping j v conforms_types list_all_iff keys)
  next
    case (T_opt u)
    with 1 show ?thesis by (auto simp: convert_types conforms_types split: if_splits)
  next
    case (T_record c)
    with 1(5,6) show ?thesis
      using 1(4) [OF _ _ T_record]
      by (cases "j = J_null") (auto simp: convert_types instantiate_dataclass.simps [of fromiso c J_null])
  qed (use 1(5,6) in \<open>auto simp: convert_types conforms_types convert_float_def convert_datetime_def
      plain_any float_of_int_finite split: if_splits json.splits sum.splits option.splits\<close>)
next
  case (2 fromiso c j)
  from 2(2) obtain kvs fts fs where j: "j = J_obj kvs" and fts: "map_of kind_registry c = Some fts"
    and v: "v = V_dataclass fs" and ok: "schema_supported kvs" "set (map fst kvs) \<subseteq> set (map fst fts)"
    and fs: "map_res (\<lambda>(f, t). case map_of kvs f of None \<Rightarrow> refused
        | Some x \<Rightarrow> bind_res (convert_field fromiso t x) (\<lambda>v. Inr (f, v))) fts = Inr fs"
    by (auto simp: instantiate_dataclass.simps [of fromiso c j] bind_res_Inr_iff
        split: json.splits option.splits if_splits)
  then have fs: "list_all2 (\<lambda>ft y. \<exists>x w. map_of kvs (fst ft) = Some x
      \<and> convert_field fromiso (snd ft) x = Inr w \<and> y = (fst ft, w)) fts fs"
    by (auto simp: map_res_Inr_iff bind_res_Inr_iff case_prod_beta elim!: list_all2_mono split: option.splits)
  have keys: "map fst fs = map fst fts"
    using fs by (induction rule: list_all2_induct) auto
  have typed: "conforms t w" if "(f, t) \<in> set fts" "map_of kvs f = Some x" "convert_field fromiso t x = Inr w"
    for f t x w
    using 2(1) [OF refl j fts _ _ that(1) refl that(2,3)] ok 2(3) map_of_SomeD [OF that(2)]
    by (auto simp: j fts list_all_iff)
  have nth: "\<exists>x w. map_of kvs (fst (fts ! i)) = Some x \<and> convert_field fromiso (snd (fts ! i)) x = Inr w
      \<and> fs ! i = (fst (fts ! i), w) \<and> conforms (snd (fts ! i)) w" if i: "i < length fts" for i
  proof -
    obtain x w where xw: "map_of kvs (fst (fts ! i)) = Some x" "convert_field fromiso (snd (fts ! i)) x = Inr w"
        "fs ! i = (fst (fts ! i), w)"
      using list_all2_nthD [OF fs i] by auto
    moreover have "(fst (fts ! i), snd (fts ! i)) \<in> set fts" using i by simp
    ultimately show ?thesis using typed by blast
  qed
  have len: "length fs = length fts" using fs by (simp add: list_all2_lengthD)
  have "list_all2 (\<lambda>(f, x) (g, t). conforms t x) fs fts"
    using nth len by (auto simp: list_all2_conv_all_nth case_prod_beta) (metis snd_conv)
  moreover have "versioned fs"
  proof (cases "map_of fs ''schema_version''")
    case (Some w)
    then obtain i where i: "i < length fs" "fs ! i = (''schema_version'', w)"
      by (auto dest!: map_of_SomeD simp: in_set_conv_nth)
    from i(1) len have "i < length fts" by simp
    from nth [OF this] obtain x w' where xw: "map_of kvs (fst (fts ! i)) = Some x"
        "convert_field fromiso (snd (fts ! i)) x = Inr w'" "fs ! i = (fst (fts ! i), w')"
      by blast
    from xw(3) i(2) have name: "fst (fts ! i) = ''schema_version''" and w: "w' = w" by simp_all
    note x = xw(1) [unfolded name] xw(2) [unfolded w] name
    have "(fst (fts ! i), snd (fts ! i)) \<in> set fts" using i(1) len by simp
    then have "map_of fts ''schema_version'' = Some (snd (fts ! i))"
      unfolding x(3) by (rule map_of_is_SomeI [OF registered(1) [OF fts]])
    then have "snd (fts ! i) = T_str" by (rule registered(2) [OF fts])
    with x(2) have "convert_field fromiso T_str x = Inr w" by simp
    with x(1) ok(1) show ?thesis
      by (cases x) (auto simp: versioned_def Some convert_types(7) schema_supported_def)
  qed (simp add: versioned_def)
  ultimately show ?case by (simp add: v fts conforms_types keys)
qed

section \<open>Decoding inverts encoding\<close>

text \<open>The same value with the items of its mappings in the order of their keys.\<close>

fun key_ordered :: "pyval \<Rightarrow> pyval" where
  "key_ordered (V_mapping kvs) = V_mapping (sort_key fst (map (\<lambda>(k, v). (k, key_ordered v)) kvs))"
| "key_ordered (V_dataclass fs) = V_dataclass (map (\<lambda>(f, v). (f, key_ordered v)) fs)"
| "key_ordered (V_seq vs) = V_seq (map key_ordered vs)"
| "key_ordered v = v"

text \<open>The instants in a value.\<close>

fun instants :: "pyval \<Rightarrow> datetime list" where
  "instants (V_datetime t) = [t]"
| "instants (V_mapping kvs) = concat (map (\<lambda>(k, v). instants v) kvs)"
| "instants (V_dataclass fs) = concat (map (\<lambda>(f, v). instants v) fs)"
| "instants (V_seq vs) = concat (map instants vs)"
| "instants _ = []"

text \<open>\<open>datetime.fromisoformat\<close> reads the text of the instant back.\<close>

definition iso_reads :: "(string \<Rightarrow> any_datetime option) \<Rightarrow> datetime \<Rightarrow> bool" where
  "iso_reads fromiso t \<longleftrightarrow> (\<exists>d. fromiso (z_to_offset (rfc3339 t)) = Some d
     \<and> dt_instant d = t \<and> dt_offset d \<noteq> None)"

lemma canonical_seq_Inr_iff:
  "canonical_seq vs = Inr js \<longleftrightarrow> list_all2 (\<lambda>v j. canonical_repr v = Inr j) vs js"
  by (induction vs arbitrary: js) (auto simp: bind_res_Inr_iff list_all2_Cons1)

lemma sorted_seq_map: "sorted_seq js = map sorted_keys js"
  by (induction js) auto

lemma map_of_sort: "distinct (map fst kvs) \<Longrightarrow> map_of (sort_key fst kvs) = map_of kvs"
proof -
  assume d: "distinct (map fst kvs)"
  have "mset (map fst (sort_key fst kvs)) = mset (map fst kvs)" by simp
  with d have "distinct (map fst (sort_key fst kvs))" by (metis mset_eq_imp_distinct_iff)
  with d show ?thesis by (simp add: map_of_inject_set)
qed

lemma canonical_null: "canonical_repr v = Inr J_null \<longleftrightarrow> v = V_none"
  by (cases v) (auto simp: bind_res_Inr_iff)

lemma sorted_keys_null: "sorted_keys j = J_null \<longleftrightarrow> j = J_null"
  by (cases j) auto

lemma items_keys:
  assumes "canonical_items kvs = Inr js"
  shows "map fst js = map fst kvs"
  using assms unfolding canonical_items_Inr_iff by (induction rule: list_all2_induct) auto

lemma fst_comp_value: "fst \<circ> (\<lambda>(k, v). (k, f v)) = fst"
  by auto

text \<open>The items of an object and of the value it came from, one by one.\<close>

lemma items_map_eq:
  assumes "canonical_items kvs = Inr js"
    and "\<And>k v j. (k, v) \<in> set kvs \<Longrightarrow> canonical_repr v = Inr j \<Longrightarrow> f (sorted_keys j) = g v"
  shows "map (\<lambda>(k, j). (k, f (sorted_keys j))) js = map (\<lambda>(k, v). (k, g v)) kvs"
  using assms(1) [unfolded canonical_items_Inr_iff] assms(2)
  by (induction rule: list_all2_induct) (auto simp: case_prod_beta, metis)

lemma seq_map_eq:
  assumes "canonical_seq vs = Inr js"
    and "\<And>v j. v \<in> set vs \<Longrightarrow> canonical_repr v = Inr j \<Longrightarrow> f (sorted_keys j) = g v"
  shows "map f (map sorted_keys js) = map g vs"
  using assms(1) [unfolded canonical_seq_Inr_iff] assms(2)
  by (induction rule: list_all2_induct) auto

lemma sort_key_map: "sort_key fst (map (\<lambda>(k, v). (k, f v)) kvs) = map (\<lambda>(k, v). (k, f v)) (sort_key fst kvs)"
  if "distinct (map fst kvs)"
proof (rule properties_for_sort_key)
  show "mset (map (\<lambda>(k, v). (k, f v)) (sort_key fst kvs)) = mset (map (\<lambda>(k, v). (k, f v)) kvs)"
    by simp
next
  fix p assume p: "p \<in> set (map (\<lambda>(k, v). (k, f v)) (sort_key fst kvs))"
  show "filter (\<lambda>x. fst p = fst x) (map (\<lambda>(k, v). (k, f v)) (sort_key fst kvs))
      = filter (\<lambda>x. fst p = fst x) (map (\<lambda>(k, v). (k, f v)) kvs)"
    by (simp add: filter_map comp_def case_prod_beta eq_commute [of "fst p"] sort_key_stable)
next
  show "sorted (map fst (map (\<lambda>(k, v). (k, f v)) (sort_key fst kvs)))"
    by (simp add: fst_comp_value)
qed

lemma any_value_inverts:
  "plain v \<Longrightarrow> canonical_repr v = Inr j \<Longrightarrow> any_value (sorted_keys j) = key_ordered v"
proof (induction v arbitrary: j rule: plain.induct)
  case (1 kvs)
  from 1(3) obtain js where j: "j = J_obj js" and js: "canonical_items kvs = Inr js"
    by (auto simp: bind_res_Inr_iff)
  let ?sorted = "map (\<lambda>(k, j). (k, sorted_keys j)) js"
  have "distinct (map fst ?sorted)" using 1(2) items_keys [OF js] by (simp add: fst_comp_value)
  then have "any_items (sort_key fst ?sorted) = sort_key fst (map (\<lambda>(k, j). (k, any_value j)) ?sorted)"
    by (simp only: any_items_map sort_key_map)
  also have "map (\<lambda>(k, j). (k, any_value j)) ?sorted = map (\<lambda>(k, j). (k, any_value (sorted_keys j))) js"
    by (simp add: comp_def case_prod_beta)
  also have "\<dots> = map (\<lambda>(k, v). (k, key_ordered v)) kvs"
    using 1(1) [OF _ refl] 1(2) by (intro items_map_eq [OF js]) (auto simp: list_all_iff)
  finally show ?case by (simp add: j sorted_items_map)
next
  case (2 vs)
  from 2(3) obtain js where j: "j = J_arr js" and js: "canonical_seq vs = Inr js"
    by (auto simp: bind_res_Inr_iff)
  have "map any_value (map sorted_keys js) = map key_ordered vs"
    using 2(1,2) by (intro seq_map_eq [OF js]) (auto simp: list_all_iff)
  then show ?case by (simp add: j any_seq_map sorted_seq_map)
qed (auto split: if_splits)

text \<open>What an object of converted items holds.\<close>

lemma items_nth:
  assumes "canonical_items fs = Inr js" and "i < length fs"
  shows "fst (js ! i) = fst (fs ! i) \<and> canonical_repr (snd (fs ! i)) = Inr (snd (js ! i)) \<and> length js = length fs"
  using assms by (auto simp: canonical_items_Inr_iff list_all2_conv_all_nth)

lemma sorted_item:
  assumes "canonical_items fs = Inr js" and "distinct (map fst fs)" and "i < length fs"
  shows "map_of (sort_key fst (sorted_items js)) (fst (fs ! i)) = Some (sorted_keys (snd (js ! i)))"
proof -
  have dist: "distinct (map fst (sorted_items js))"
    using assms(2) items_keys [OF assms(1)] by (simp add: sorted_items_map fst_comp_value)
  have "(fst (fs ! i), sorted_keys (snd (js ! i))) \<in> set (sorted_items js)"
    using items_nth [OF assms(1,3)] assms(3)
    by (force simp: sorted_items_map in_set_conv_nth case_prod_beta)
  then show ?thesis
    by (simp add: map_of_sort [OF dist] map_of_is_SomeI [OF dist])
qed

lemma sorted_items_dom: "canonical_items fs = Inr js \<Longrightarrow> set (map fst (sort_key fst (sorted_items js))) = set (map fst fs)"
  using arg_cong [OF items_keys [of fs js], of set] by (simp add: sorted_items_map image_image case_prod_beta)

lemma supported_items:
  assumes "canonical_items fs = Inr js" and "distinct (map fst fs)" and "versioned fs"
  shows "schema_supported (sort_key fst (sorted_items js))"
proof (cases "map_of fs ''schema_version''")
  case None
  then have "''schema_version'' \<notin> set (map fst (sort_key fst (sorted_items js)))"
    unfolding sorted_items_dom [OF assms(1)] by (simp add: map_of_eq_None_iff)
  then show ?thesis by (simp add: schema_supported_def map_of_eq_None_iff [THEN iffD2])
next
  case (Some w)
  then obtain i where i: "i < length fs" "fs ! i = (''schema_version'', w)"
    by (auto dest!: map_of_SomeD simp: in_set_conv_nth)
  from Some assms(3) obtain s where w: "w = V_str s" "s \<in> set SUPPORTED_SCHEMA_VERSIONS"
    by (auto simp: versioned_def)
  have "snd (js ! i) = J_str s"
    using items_nth [OF assms(1) i(1)] i(2) w(1) by simp
  with sorted_item [OF assms(1,2) i(1)] i(2) w(2) show ?thesis
    by (simp add: schema_supported_def)
qed

lemma convert_inverts:
  "conforms t v \<Longrightarrow> canonical_repr v = Inr j \<Longrightarrow> \<forall>\<tau> \<in> set (instants v). iso_reads fromiso \<tau> \<Longrightarrow>
    convert_field fromiso t (sorted_keys j) = Inr (key_ordered v)"
proof (induction t v arbitrary: j rule: conforms.induct)
  case (1 t v)
  note conf = 1(5) and repr = 1(6) and iso = 1(7)
  show ?case
  proof (cases t)
    case T_any
    with conf repr show ?thesis
      by (simp add: conforms_types convert_types any_value_inverts)
  next
    case (T_opt u)
    show ?thesis
    proof (cases "v = V_none")
      case False
      with conf repr iso T_opt 1(1) [OF T_opt] show ?thesis
        using canonical_null [of v]
        by (auto simp: conforms_types convert_types sorted_keys_null)
    qed (use repr in \<open>auto simp: T_opt convert_types\<close>)
  next
    case T_datetime
    with conf obtain \<tau> where v: "v = V_datetime \<tau>" by (auto simp: conforms_types)
    from iso v repr show ?thesis
      by (auto simp: T_datetime convert_types convert_datetime_def iso_reads_def)
  next
    case (T_tuple u)
    with conf obtain vs where v: "v = V_seq vs" and vs: "list_all (conforms u) vs"
      by (auto simp: conforms_types)
    from repr v obtain js where j: "j = J_arr js" and js: "canonical_seq vs = Inr js"
      by (auto simp: bind_res_Inr_iff)
    have "map (convert_field fromiso u) (map sorted_keys js) = map (Inr \<circ> key_ordered) vs"
      using 1(2) [OF T_tuple v] vs iso v by (intro seq_map_eq [OF js]) (auto simp: list_all_iff)
    then have "map_res (convert_field fromiso u) (map sorted_keys js) = Inr (map key_ordered vs)"
      by (simp add: map_res_Inr_iff list_all2_conv_all_nth list_eq_iff_nth_eq)
    then show ?thesis by (simp add: T_tuple v j convert_types sorted_seq_map)
  next
    case (T_mapping u)
    with conf obtain kvs where v: "v = V_mapping kvs" and dist: "distinct (map fst kvs)"
      and vs: "list_all (\<lambda>(k, x). conforms u x) kvs"
      by (auto simp: conforms_types)
    from repr v obtain js where j: "j = J_obj js" and js: "canonical_items kvs = Inr js"
      by (auto simp: bind_res_Inr_iff)
    let ?h = "\<lambda>x. projr (convert_field fromiso u x)" and ?sorted = "map (\<lambda>(k, j). (k, sorted_keys j)) js"
    have item: "convert_field fromiso u (sorted_keys x) = Inr (key_ordered w)"
      if "(k, w) \<in> set kvs" "canonical_repr w = Inr x" for k w x
      using 1(3) [OF T_mapping v that(1) refl] vs iso v that by (auto simp: list_all_iff)
    have "map_res (\<lambda>(k, x). bind_res (convert_field fromiso u x) (\<lambda>v. Inr (k, v))) (sort_key fst ?sorted)
        = Inr (map (\<lambda>(k, x). (k, ?h x)) (sort_key fst ?sorted))"
    proof (rule map_res_ok)
      fix kx assume "kx \<in> set (sort_key fst ?sorted)"
      then obtain k x where kx: "kx = (k, sorted_keys x)" "(k, x) \<in> set js" by auto
      from list_all2_mem [OF js [unfolded canonical_items_Inr_iff] kx(2)]
      obtain w where "(k, w) \<in> set kvs" "canonical_repr w = Inr x" by auto
      from item [OF this] show "(case kx of (k, x) \<Rightarrow> bind_res (convert_field fromiso u x) (\<lambda>v. Inr (k, v)))
          = Inr (case kx of (k, x) \<Rightarrow> (k, ?h x))"
        by (simp add: kx(1))
    qed
    also have "map (\<lambda>(k, x). (k, ?h x)) (sort_key fst ?sorted) = sort_key fst (map (\<lambda>(k, x). (k, ?h x)) ?sorted)"
      using dist items_keys [OF js] by (intro sort_key_map [symmetric]) (simp add: fst_comp_value)
    also have "map (\<lambda>(k, x). (k, ?h x)) ?sorted = map (\<lambda>(k, x). (k, ?h (sorted_keys x))) js"
      by (simp add: comp_def case_prod_beta)
    also have "\<dots> = map (\<lambda>(k, v). (k, key_ordered v)) kvs"
      by (intro items_map_eq [OF js]) (simp add: item)
    finally show ?thesis by (simp add: T_mapping v j convert_types sorted_items_map)
  next
    case (T_record c)
    with conf obtain fs fts where v: "v = V_dataclass fs" and fts: "map_of kind_registry c = Some fts"
      and keys: "map fst fs = map fst fts" and "versioned fs"
      and typed: "list_all2 (\<lambda>(f, x) (g, t). conforms t x) fs fts"
      by (auto simp: conforms_types)
    from repr v obtain js where j: "j = J_obj js" and js: "canonical_items fs = Inr js"
      by (auto simp: bind_res_Inr_iff)
    let ?items = "sort_key fst (sorted_items js)"
    have dist: "distinct (map fst fs)" using registered(1) [OF fts] keys by simp
    have len: "length fs = length fts" using keys by (rule map_eq_imp_length_eq)
    have item: "(case fts ! i of (f, t) \<Rightarrow> (case map_of ?items f of None \<Rightarrow> refused
          | Some x \<Rightarrow> bind_res (convert_field fromiso t x) (\<lambda>v. Inr (f, v))))
        = Inr (fst (fs ! i), key_ordered (snd (fs ! i)))" if i: "i < length fs" for i
    proof -
      have name: "fst (fts ! i) = fst (fs ! i)" using arg_cong [OF keys, of "\<lambda>xs. xs ! i"] i len by simp
      have mem: "((fst (fs ! i), snd (fs ! i)), (fst (fts ! i), snd (fts ! i))) \<in> set (zip fs fts)"
        using i len by (auto simp: in_set_zip)
      have "conforms (snd (fts ! i)) (snd (fs ! i))"
        using list_all2_nthD [OF typed i] by (simp add: case_prod_beta)
      moreover have "\<forall>\<tau> \<in> set (instants (snd (fs ! i))). iso_reads fromiso \<tau>"
        using iso i v by (force simp: case_prod_beta)
      ultimately have "convert_field fromiso (snd (fts ! i)) (sorted_keys (snd (js ! i)))
          = Inr (key_ordered (snd (fs ! i)))"
        using items_nth [OF js i] by (intro 1(4) [OF T_record refl v fts mem refl refl]) simp_all
      then show ?thesis
        using sorted_item [OF js dist i] by (simp add: case_prod_beta name)
    qed
    have "map_res (\<lambda>(f, t). case map_of ?items f of None \<Rightarrow> refused
          | Some x \<Rightarrow> bind_res (convert_field fromiso t x) (\<lambda>v. Inr (f, v))) fts
        = Inr (map (\<lambda>(f, v). (f, key_ordered v)) fs)"
      using item len by (simp add: map_res_Inr_iff list_all2_conv_all_nth case_prod_beta)
    moreover have "set (map fst ?items) \<subseteq> set (map fst fts)"
      using sorted_items_dom [OF js] keys by simp
    ultimately show ?thesis
      using supported_items [OF js dist \<open>versioned fs\<close>]
      by (simp add: T_record v j convert_types instantiate_dataclass.simps [of fromiso c "J_obj ?items"] fts)
  qed (use conf repr in \<open>auto simp: conforms_types convert_types convert_float_def\<close>)
qed

section \<open>The decoder as a whole\<close>

lemma map_res_InlD: "map_res f xs = Inl e \<Longrightarrow> \<exists>x \<in> set xs. f x = Inl e"
  by (induction xs) (auto simp: bind_res_def split: sum.splits)

lemma refused_Inl [simp]: "refused = Inl e \<longleftrightarrow> e = make_error ValidationError None"
  by (auto simp: refused_def)

lemma bind_res_Inl_iff: "bind_res r f = Inl e \<longleftrightarrow> r = Inl e \<or> (\<exists>x. r = Inr x \<and> f x = Inl e)"
  by (cases r) simp_all

lemma convert_errors:
  "convert_field fromiso t j = Inl e \<Longrightarrow> e = make_error ValidationError None"
  "instantiate_dataclass fromiso c j = Inl e \<Longrightarrow> e = make_error ValidationError None"
proof (induction fromiso t j and fromiso c j rule: convert_field_instantiate_dataclass.induct)
  case (1 fromiso t j)
  show ?case
  proof (cases t)
    case (T_tuple u)
    with 1(5) show ?thesis
      by (auto simp: convert_types bind_res_Inl_iff dest!: map_res_InlD split: json.splits intro: 1(2) [OF _ _ T_tuple])
  next
    case (T_mapping u)
    with 1(5) show ?thesis
      by (auto simp: convert_types bind_res_Inl_iff dest!: map_res_InlD split: json.splits
          intro: 1(3) [OF _ _ T_mapping _ _ refl])
  next
    case (T_opt u)
    with 1(5) 1(1) [OF _ _ T_opt] show ?thesis by (auto simp: convert_types split: if_splits)
  next
    case (T_record c)
    with 1(5) 1(4) [OF _ _ T_record] show ?thesis
      by (cases "j = J_null") (auto simp: convert_types instantiate_dataclass.simps [of fromiso c J_null])
  qed (use 1(5) in \<open>auto simp: convert_types convert_float_def convert_datetime_def
      split: json.splits if_splits sum.splits option.splits\<close>)
next
  case (2 fromiso c j)
  show ?case
  proof (cases "(\<exists>kvs fts. j = J_obj kvs \<and> map_of kind_registry c = Some fts
      \<and> schema_supported kvs \<and> set (map fst kvs) \<subseteq> set (map fst fts))")
    case True
    then obtain kvs fts where j: "j = J_obj kvs" and fts: "map_of kind_registry c = Some fts"
      and ok: "schema_supported kvs" "set (map fst kvs) \<subseteq> set (map fst fts)" by blast
    from 2(2) ok have "map_res (\<lambda>(f, t). case map_of kvs f of None \<Rightarrow> refused
        | Some x \<Rightarrow> bind_res (convert_field fromiso t x) (\<lambda>v. Inr (f, v))) fts = Inl e"
      by (simp add: instantiate_dataclass.simps [of fromiso c "J_obj kvs"] j fts bind_res_Inl_iff)
    from map_res_InlD [OF this] obtain f t where ft: "(f, t) \<in> set fts"
      and "(case map_of kvs f of None \<Rightarrow> refused
        | Some x \<Rightarrow> bind_res (convert_field fromiso t x) (\<lambda>v. Inr (f, v))) = Inl e"
      by auto
    then show ?thesis
      using 2(1) [OF refl j fts _ _ ft refl] ok
      by (auto simp: bind_res_Inl_iff split: option.splits)
  qed (use 2(2) in \<open>auto simp: instantiate_dataclass.simps [of fromiso c j] split: json.splits option.splits if_splits\<close>)
qed

lemma open_envelope_distinct: "open_envelope kind j = Inr d \<Longrightarrow> keys_distinct j \<Longrightarrow> keys_distinct d"
  by (auto simp: open_envelope_def list_all_iff split: json.splits if_splits option.splits dest!: map_of_SomeD)

lemma open_envelope_errors: "open_envelope kind j = Inl e \<Longrightarrow> e = make_error ValidationError None"
  by (auto simp: open_envelope_def split: json.splits if_splits option.splits)

text \<open>
  C21. Decoding is typed and total: whatever the bytes, the answer is a record whose fields, at every depth, have the
  types the class declares (with a supported schema version where there is one), or a
  \<open>ValidationError\<close>. Only payloads within the limit that are JSON without duplicate keys, for a
  registered kind, are ever accepted.
\<close>

theorem decoded_records_conform:
  "case decode_record flt fromiso kind payload max_bytes of
     Inl e \<Rightarrow> e = make_error ValidationError None
   | Inr v \<Rightarrow> conforms (T_record kind) v \<and> length payload \<le> max_bytes
       \<and> (\<exists>j. json_loads flt payload = Some j \<and> keys_distinct j)"
  by (auto simp: decode_record_def bind_res_Inr_iff bind_res_Inl_iff split: sum.splits if_splits option.splits
      dest: convert_errors(2) open_envelope_errors convert_conforms(2) open_envelope_distinct json_loads_distinct)

lemma is_envelope_keys:
  assumes "is_envelope kvs"
  shows "set (map fst kvs) = set [''schema_version'', ''kind'', ''data'']"
proof -
  have "card (set (map fst kvs)) \<le> 3"
    using assms card_length [of "map fst kvs"] by (simp add: is_envelope_def)
  moreover have "card (set [''schema_version'', ''kind'', ''data'']) = 3" by simp
  ultimately show ?thesis
    using assms by (metis card_seteq is_envelope_def List.finite_set)
qed

lemma readable_items_iff:
  "readable_items fr flt kvs \<longleftrightarrow> (\<forall>(k, v) \<in> set kvs. utf8_valid k \<and> readable fr flt v)"
  by (induction kvs) auto

lemma readable_sorted:
  "readable fr flt j \<Longrightarrow> readable fr flt (sorted_keys j)"
  "readable_items fr flt kvs \<Longrightarrow> readable_items fr flt (sorted_items kvs)"
  "readable_seq fr flt js \<Longrightarrow> readable_seq fr flt (sorted_seq js)"
proof (induction j and kvs and js rule: sorted_keys_sorted_items_sorted_seq.induct)
  case (1 kvs)
  moreover have "distinct (map fst (sort_key fst xs)) = distinct (map fst xs)" for xs :: "(string \<times> json) list"
    by (metis mset_eq_imp_distinct_iff mset_map mset_sort)
  ultimately show ?case
    by (simp add: sorted_items_map fst_comp_value readable_items_iff)
qed auto

text \<open>An envelope around a record.\<close>

definition envelope :: "string \<Rightarrow> string \<Rightarrow> json \<Rightarrow> json" where
  "envelope version kind d = J_obj [(''data'', d), (''kind'', J_str kind), (''schema_version'', J_str version)]"

lemma registry_ascii: "list_all (\<lambda>(c, fts). ascii c) kind_registry"
  by code_simp

lemma supported_ascii: "list_all ascii SUPPORTED_SCHEMA_VERSIONS"
  by code_simp

lemma instantiate_inverts:
  assumes "conforms (T_record kind) v" and "canonical_repr v = Inr j"
    and "\<forall>\<tau> \<in> set (instants v). iso_reads fromiso \<tau>"
  shows "instantiate_dataclass fromiso kind (sorted_keys j) = Inr (key_ordered v)"
    and "open_envelope kind (sorted_keys j) = Inr (sorted_keys j)"
    and "map_of kind_registry kind \<noteq> None"
proof -
  show "instantiate_dataclass fromiso kind (sorted_keys j) = Inr (key_ordered v)"
    using convert_inverts [OF assms] by (simp add: convert_types)
  from assms(1) obtain fs fts where v: "v = V_dataclass fs" and fts: "map_of kind_registry kind = Some fts"
    and keys: "map fst fs = map fst fts"
    by (auto simp: conforms_types)
  from assms(2) v obtain js where j: "j = J_obj js" and js: "canonical_items fs = Inr js"
    by (auto simp: bind_res_Inr_iff)
  have "\<not> is_envelope (sort_key fst (sorted_items js))"
    using is_envelope_keys [of "sort_key fst (sorted_items js)"] registered(3) [OF fts] keys
    unfolding sorted_items_dom [OF js] by auto
  then show "open_envelope kind (sorted_keys j) = Inr (sorted_keys j)"
    by (simp add: j open_envelope_def)
  show "map_of kind_registry kind \<noteq> None" by (simp add: fts)
qed

text \<open>
  C22. Decoding inverts encoding. For a record of a registered class whose values are well typed,
  whose integers have at most 4300 digits, whose strings are Unicode text and whose floats and instants the standard library
  reads back, the canonical bytes decode to the same record (the items of its
  mappings in key order), and so do they inside an envelope with a supported schema version.
\<close>

theorem decoding_inverts_encoding:
  assumes "conforms (T_record kind) v" and "canonical_repr v = Inr j" and "readable fr flt j"
    and "\<forall>\<tau> \<in> set (instants v). iso_reads fromiso \<tau>"
    and "encode_record fr v = Inr payload" and "length payload \<le> max_bytes"
    and "version \<in> set SUPPORTED_SCHEMA_VERSIONS"
    and "length (render fr (envelope version kind (sorted_keys j))) \<le> max_bytes"
  shows "decode_record flt fromiso kind payload max_bytes = Inr (key_ordered v)
    \<and> decode_record flt fromiso kind (render fr (envelope version kind (sorted_keys j))) max_bytes
      = Inr (key_ordered v)"
proof
  note inst = instantiate_inverts [OF assms(1,2,4)]
  have "payload = render fr (sorted_keys j)"
    using assms(2,5) by (simp add: encode_record_def canonical_bytes_def)
  then show "decode_record flt fromiso kind payload max_bytes = Inr (key_ordered v)"
    using json_loads_dumps [OF readable_sorted(1) [OF assms(3)]] inst assms(6)
    by (simp add: decode_record_def)
  have "ascii kind" "ascii version"
    using inst(3) registry_ascii supported_ascii assms(7)
    by (auto simp: list_all_iff dest!: map_of_SomeD)
  then have "readable fr flt (envelope version kind (sorted_keys j))"
    using readable_sorted(1) [OF assms(3)] by (simp add: envelope_def utf8_valid_ascii)
  moreover have "open_envelope kind (envelope version kind (sorted_keys j)) = Inr (sorted_keys j)"
    using assms(7) by (simp add: envelope_def open_envelope_def is_envelope_def schema_supported_def)
  ultimately show "decode_record flt fromiso kind (render fr (envelope version kind (sorted_keys j))) max_bytes
      = Inr (key_ordered v)"
    using json_loads_dumps inst assms(8) by (simp add: decode_record_def)
qed

lemma within_default: "n \<le> 300 \<Longrightarrow> n \<le> DEFAULT_MAX_BYTES"
  by (simp add: DEFAULT_MAX_BYTES_def)

lemma decode_default:
  assumes "length payload \<le> 300"
  shows "decode_record flt fromiso kind payload DEFAULT_MAX_BYTES = decode_record flt fromiso kind payload 300"
  using assms within_default [OF assms] by (simp add: decode_record_def)

definition ex_vote :: pyval where
  "ex_vote = V_dataclass [(''reviewer_id'', V_str ''r1''), (''label'', V_str ''invalid''),
     (''rationale'', V_str [CHR 0x22, CHR 0xC3, CHR 0xA9, CHR 0x0A]), (''minutes'', V_float (PFin (3 / 2))),
     (''blinded_to_verifier'', V_bool True), (''independent_of_author'', V_bool False),
     (''recorded_at'', V_datetime 0)]"

definition ex_vote_text :: string where
  "ex_vote_text = projr (encode_record (\<lambda>f. ''1.5'') ex_vote)"

theorem decoding_inverts_encoding_witness:
  "decode_record (\<lambda>s. if s = ''1.5'' then Some (PFin (3 / 2)) else None)
     (\<lambda>s. if s = ''1970-01-01T00:00:00+00:00'' then Some \<lparr>dt_instant = 0, dt_offset = Some 0\<rparr> else None)
     ''ReviewVote'' ex_vote_text DEFAULT_MAX_BYTES = Inr ex_vote"
proof -
  let ?fr = "\<lambda>f :: pyfloat. ''1.5''" and ?flt = "\<lambda>s. if s = ''1.5'' then Some (PFin (3 / 2)) else None"
    and ?iso = "\<lambda>s. if s = ''1970-01-01T00:00:00+00:00'' then Some \<lparr>dt_instant = 0, dt_offset = Some (0 :: int)\<rparr> else None"
  let ?j = "projr (canonical_repr ex_vote)"
  have 1: "conforms (T_record ''ReviewVote'') ex_vote" by code_simp
  have 2: "canonical_repr ex_vote = Inr ?j" by code_simp
  have 3: "readable ?fr ?flt ?j" by code_simp
  have "instants ex_vote = [0]" by (simp add: ex_vote_def)
  moreover have "z_to_offset (rfc3339 0) = ''1970-01-01T00:00:00+00:00''" by code_simp
  ultimately have 4: "\<forall>\<tau> \<in> set (instants ex_vote). iso_reads ?iso \<tau>"
    by (simp add: iso_reads_def)
  have 5: "encode_record ?fr ex_vote = Inr ex_vote_text" by code_simp
  have "length ex_vote_text \<le> 300" by code_simp
  then have 6: "length ex_vote_text \<le> DEFAULT_MAX_BYTES" by (rule within_default)
  have 7: "''1.0'' \<in> set SUPPORTED_SCHEMA_VERSIONS" by code_simp
  have 8: "length (render ?fr (envelope ''1.0'' ''ReviewVote'' (sorted_keys ?j))) \<le> DEFAULT_MAX_BYTES"
    by (rule within_default) code_simp
  have 9: "key_ordered ex_vote = ex_vote" by code_simp
  show ?thesis
    using decoding_inverts_encoding [OF 1 2 3 4 5 6 7 8] unfolding 9 by blast
qed
section \<open>Gaps\<close>

text \<open>An audit result with the manifest \<open>m\<close>, as text and as a value.\<close>

definition result_text :: "string \<Rightarrow> string" where
  "result_text m = ''{'' @ quote ''artifacts'' @ '':[],'' @ quote ''diagnostics'' @ '':[],'' @ quote ''gate'' @ '':null,''
     @ quote ''manifest'' @ '':'' @ m @ '','' @ quote ''matrix'' @ '':null,'' @ quote ''metrics'' @ '':[]}''"

definition result_record :: "pyval \<Rightarrow> pyval" where
  "result_record m = V_dataclass [(''manifest'', m), (''matrix'', V_none), (''metrics'', V_seq []),
     (''gate'', V_none), (''diagnostics'', V_seq []), (''artifacts'', V_seq [])]"

definition surrogate_text :: string where
  "surrogate_text = ''{'' @ quote ''duration'' @ '':null,'' @ quote ''failure_digest'' @ '':null,'' @ quote ''status''
     @ '':'' @ quote ''passed'' @ '','' @ quote ''test_id'' @ '':'' @ [CHR 0x22, backslash] @ ''ud800'' @ [CHR 0x22] @ ''}''"

text \<open>
  What decoding lets through. A field annotated \<open>Any\<close> accepts \<open>NaN\<close>, which canonical JSON
  prohibits and encoding refuses; a manifest inside an audit result comes back as a plain mapping, since its
  field is annotated \<open>Any\<close>; and an escaped lone surrogate becomes a string that is not Unicode text,
  which \<open>encode("utf-8")\<close> cannot write.
\<close>

lemma codec_gaps:
  "decode_record flt fromiso ''AuditResult'' (result_text ''NaN'') DEFAULT_MAX_BYTES
      = Inr (result_record (V_float PNaN))
   \<and> encode_record fr (result_record (V_float PNaN)) = refused
   \<and> bind_res (encode_record fr (result_record (V_dataclass [(''run_id'', V_str ''r'')])))
       (\<lambda>b. decode_record flt fromiso ''AuditResult'' b DEFAULT_MAX_BYTES)
      = Inr (result_record (V_mapping [(''run_id'', V_str ''r'')]))
   \<and> (\<exists>s. decode_record flt fromiso ''TestResult'' surrogate_text DEFAULT_MAX_BYTES
        = Inr (V_dataclass [(''test_id'', V_str s), (''status'', V_str ''passed''), (''duration'', V_none),
            (''failure_digest'', V_none)]) \<and> \<not> utf8_valid s)"
proof (intro conjI)
  have "length (result_text ''NaN'') \<le> 300" by code_simp
  moreover have "decode_record flt fromiso ''AuditResult'' (result_text ''NaN'') 300
      = Inr (result_record (V_float PNaN))" by code_simp
  ultimately show "decode_record flt fromiso ''AuditResult'' (result_text ''NaN'') DEFAULT_MAX_BYTES
      = Inr (result_record (V_float PNaN))" by (simp add: decode_default)
  show "encode_record fr (result_record (V_float PNaN)) = refused" by code_simp
  let ?m = "V_dataclass [(''run_id'', V_str ''r'')]" and ?t = "result_text (''{'' @ quote ''run_id'' @ '':'' @ quote ''r'' @ ''}'')"
  have "encode_record fr (result_record ?m) = Inr ?t" "length ?t \<le> 300"
    "decode_record flt fromiso ''AuditResult'' ?t 300
      = Inr (result_record (V_mapping [(''run_id'', V_str ''r'')]))" by code_simp+
  then show "bind_res (encode_record fr (result_record ?m))
       (\<lambda>b. decode_record flt fromiso ''AuditResult'' b DEFAULT_MAX_BYTES)
      = Inr (result_record (V_mapping [(''run_id'', V_str ''r'')]))" by (simp add: decode_default)
  let ?r = "V_dataclass [(''test_id'', V_str (utf8_char 0xD800)), (''status'', V_str ''passed''), (''duration'', V_none),
            (''failure_digest'', V_none)]"
  have "length surrogate_text \<le> 300" "decode_record flt fromiso ''TestResult'' surrogate_text 300 = Inr ?r"
    "\<not> utf8_valid (utf8_char 0xD800)" by code_simp+
  then show "\<exists>s. decode_record flt fromiso ''TestResult'' surrogate_text DEFAULT_MAX_BYTES
        = Inr (V_dataclass [(''test_id'', V_str s), (''status'', V_str ''passed''), (''duration'', V_none),
            (''failure_digest'', V_none)]) \<and> \<not> utf8_valid s" by (auto simp: decode_default)
qed

end
