(* ===== verification/Py_Files.thy ===== *)
theory Py_Files
  imports Json_Loads
begin

text \<open>
  Python's \<open>int\<close> of a text, text files, and the paths of \<open>pathlib\<close> on POSIX. A path is the text
  \<open>str(path)\<close>; what it names is up to the file systems of the components.
\<close>

section \<open>Numbers and text files\<close>

text \<open>\<open>int(s)\<close> of a text; digits beyond ASCII, which Python accepts, are not represented.\<close>

definition py_int :: "string \<Rightarrow> int option" where
  "py_int s =
    (let t = strip s;
         negative = prefix ''-'' t;
         groups = split_on CHR ''_'' (if negative \<or> prefix ''+'' t then tl t else t)
     in if list_all (\<lambda>g. g \<noteq> [] \<and> list_all digit_char g) groups \<and> length (concat groups) \<le> max_str_digits
        then Some (if negative then - int (digits_value (concat groups)) else int (digits_value (concat groups)))
        else None)"

text \<open>\<open>Path.stem\<close> of a file name.\<close>

definition stem :: "string \<Rightarrow> string" where
  "stem name =
    (let extension = takeWhile (\<lambda>c. c \<noteq> CHR ''.'') (rev name);
         base = rev (tl (drop (length extension) (rev name)))
     in if length extension = length name \<or> base = [] \<or> extension = [] then name else base)"

text \<open>\<open>read_text\<close> translates line ends.\<close>

fun universal_newlines :: "string \<Rightarrow> string" where
  "universal_newlines (a # b # cs) =
    (if a = CHR 0x0D then CHR 0x0A # universal_newlines (if b = CHR 0x0A then cs else b # cs)
     else a # universal_newlines (b # cs))"
| "universal_newlines [a] = [if a = CHR 0x0D then CHR 0x0A else a]"
| "universal_newlines [] = []"

definition read_text :: "string res \<Rightarrow> string res" where
  "read_text file = bind_res file (\<lambda>bytes.
     if utf8_valid bytes then Inr (universal_newlines bytes)
     else Inl (PyExc ''UnicodeDecodeError'' ''invalid start byte''))"

text \<open>The characters of a text, each as its bytes.\<close>

function chars_of :: "string \<Rightarrow> string list" where
  "chars_of [] = []"
| "chars_of (c # cs) = (let n = fst (utf8_step (of_char c) (map of_char cs))
     in take n (c # cs) # chars_of (drop n (c # cs)))"
  by pat_completeness auto
termination
proof (relation "measure length", goal_cases)
  case (2 c cs x)
  with utf8_step_pos [of "of_char c" "map of_char cs"] show ?case
    by (metis in_measure length_drop length_greater_0_conv diff_less list.discI)
qed simp

section \<open>Paths\<close>

text \<open>\<open>str(Path(s))\<close>: a root of one or exactly two slashes, then the parts that are not empty or a dot.\<close>

definition path_root :: "string \<Rightarrow> string" where
  "path_root s = (if prefix ''//'' s \<and> \<not> prefix ''///'' s then ''//'' else if prefix ''/'' s then ''/'' else [])"

definition path_parts :: "string \<Rightarrow> string list" where
  "path_parts s = filter (\<lambda>p. p \<noteq> [] \<and> p \<noteq> ''.'') (split_on CHR ''/'' s)"

fun join_parts :: "string list \<Rightarrow> string" where
  "join_parts [] = []"
| "join_parts [p] = p"
| "join_parts (p # ps) = p @ ''/'' @ join_parts ps"

definition make_path :: "string \<Rightarrow> string list \<Rightarrow> string" where
  "make_path anchor parts = (if anchor = [] \<and> parts = [] then ''.'' else anchor @ join_parts parts)"

definition path_of :: "string \<Rightarrow> string" where
  "path_of s = make_path (path_root s) (path_parts s)"

text \<open>\<open>p / s\<close>; an absolute \<open>s\<close> replaces \<open>p\<close>.\<close>

definition join_path :: "string \<Rightarrow> string \<Rightarrow> string" where
  "join_path p s = (if path_root s \<noteq> [] then path_of s else make_path (path_root p) (path_parts p @ path_parts s))"

definition path_parent :: "string \<Rightarrow> string" where
  "path_parent p = make_path (path_root p) (butlast (path_parts p))"

definition path_name :: "string \<Rightarrow> string" where
  "path_name p = (if path_parts p = [] then [] else last (path_parts p))"

text \<open>\<open>Path(p).stem\<close>\<close>

definition path_stem :: "string \<Rightarrow> string" where
  "path_stem p = stem (path_name p)"

text \<open>\<open>p.is_relative_to(base)\<close>\<close>

definition is_relative_to :: "string \<Rightarrow> string \<Rightarrow> bool" where
  "is_relative_to p base \<longleftrightarrow> path_root p = path_root base \<and> prefix (path_parts base) (path_parts p)"

end
