(* ===== verification/Database.thy ===== *)
theory Database
  imports Queue Py_Files
begin

text \<open>
  The SQLite layer of \<open>src/src/verifierci/storage/db.py\<close>: connections, transactions with their bounded
  busy retry, online backups and schema migrations.

  A connection has the committed database and, inside a transaction, the working copy that
  \<open>COMMIT\<close> makes the committed one. A database is the table \<open>schema_migrations\<close> and everything else, of
  any type \<open>'d\<close>. What SQLite does with the text of a migration, and whether a \<open>COMMIT\<close> or a
  \<open>ROLLBACK\<close> succeeds, is a parameter (the record \<open>sqlite\<close>), as are clocks and the file system.
\<close>

section \<open>State\<close>

record migration_row =
  sm_version :: int
  sm_applied_at :: string
  sm_checksum :: string

record 'd database =
  tables :: 'd
  schema_migrations :: "migration_row list"

record 'd connection =
  cn_committed :: "'d database"
  cn_working :: "'d database option"
  cn_busy_timeout :: int

text \<open>What the statements of this connection see.\<close>

definition current :: "'d connection \<Rightarrow> 'd database" where
  "current conn = (case cn_working conn of Some w \<Rightarrow> w | None \<Rightarrow> cn_committed conn)"

text \<open>
  \<open>sq_script\<close> runs a script and answers the exception it raised, if any; \<open>sq_commit\<close> is the error
  of a \<open>COMMIT\<close> of a working copy (a deferred constraint, a full disk); \<open>sq_rollback\<close> and
  \<open>sq_pragma\<close> say whether a \<open>ROLLBACK\<close> and the last \<open>PRAGMA\<close> succeed; \<open>sq_fk_violations\<close> is whether
  \<open>PRAGMA foreign_key_check\<close> answers a row.
\<close>

record 'd sqlite =
  sq_script :: "string \<Rightarrow> 'd connection \<Rightarrow> exn option \<times> 'd connection"
  sq_commit :: "'d database \<Rightarrow> exn option"
  sq_rollback :: "'d database \<Rightarrow> bool"
  sq_pragma :: "'d connection \<Rightarrow> bool"
  sq_fk_violations :: "'d database \<Rightarrow> bool"

abbreviation operational_error :: "string \<Rightarrow> exn" where
  "operational_error msg \<equiv> PyExc ''sqlite3.OperationalError'' msg"

definition database_error :: "'a res" where
  "database_error = Inl (make_error InfrastructureError (Some (ec_value EC_DATABASE_ERROR)))"

definition commit :: "'d sqlite \<Rightarrow> 'd connection \<Rightarrow> exn option \<times> 'd connection" where
  "commit sq conn = (case cn_working conn of
     None \<Rightarrow> (Some (operational_error ''cannot commit - no transaction is active''), conn)
   | Some w \<Rightarrow> (case sq_commit sq w of
       Some e \<Rightarrow> (Some e, conn)
     | None \<Rightarrow> (None, conn\<lparr>cn_committed := w, cn_working := None\<rparr>)))"

text \<open>\<open>if conn.in_transaction\<close>: \<open>ROLLBACK\<close>, whose own error is swallowed.\<close>

definition rollback :: "'d sqlite \<Rightarrow> 'd connection \<Rightarrow> 'd connection" where
  "rollback sq conn = (case cn_working conn of
     None \<Rightarrow> conn
   | Some w \<Rightarrow> if sq_rollback sq w then conn\<lparr>cn_working := None\<rparr> else conn)"

section \<open>connect\<close>

text \<open>
  What \<open>connect\<close> does: the directory it creates, the name it hands to \<open>sqlite3.connect\<close> (which does not
  read it as a URI, since \<open>uri=True\<close> is not passed) and the pragmas. \<open>url_path\<close> is \<open>urlparse(s).path\<close>,
  \<open>parent\<close> is \<open>str(Path(s).parent)\<close>.
\<close>

record connect_plan =
  cp_mkdir :: "string option"
  cp_open :: string
  cp_pragmas :: "string list"

definition is_memory :: "string \<Rightarrow> bool" where
  "is_memory path_str \<longleftrightarrow> path_str = '':memory:'' \<or> prefix ''file::memory:'' path_str
     \<or> contains ''?mode=memory'' path_str"

definition connect_db :: "(string \<Rightarrow> string) \<Rightarrow> (string \<Rightarrow> string) \<Rightarrow> string \<Rightarrow> connect_plan" where
  "connect_db url_path parent path_str = \<lparr>
     cp_mkdir = (if is_memory path_str then None
       else if prefix ''file:'' path_str
       then (if url_path path_str = [] then None else Some (parent (url_path path_str)))
       else Some (parent path_str)),
     cp_open = path_str,
     cp_pragmas = [''foreign_keys = ON'', ''busy_timeout = 5000'', ''synchronous = FULL'', ''recursive_triggers = ON'']
       @ (if is_memory path_str then [] else [''journal_mode = WAL''])\<rparr>"

section \<open>transaction\<close>

text \<open>
  The loop that begins a transaction. \<open>begins n\<close> is the error of the \<open>n\<close>th \<open>BEGIN\<close>, \<open>elapsed n\<close> the
  seconds since the start when it is looked at, \<open>jitter n\<close> the \<open>random.uniform(0, 0.02)\<close> of the sleep that
  follows. The answer carries the sleeps, latest first; a loop that never ends is \<open>None\<close>.
\<close>

definition busy_message :: "string \<Rightarrow> bool" where
  "busy_message text_of \<longleftrightarrow> contains ''locked'' (lower text_of) \<or> contains ''busy'' (lower text_of)"

partial_function (option) acquire ::
    "(nat \<Rightarrow> exn option) \<Rightarrow> (nat \<Rightarrow> rat) \<Rightarrow> (nat \<Rightarrow> rat) \<Rightarrow> rat \<Rightarrow> nat \<Rightarrow> rat \<Rightarrow> rat list \<Rightarrow> (unit res \<times> rat list) option" where
  "acquire begins elapsed jitter timeout n delay sleeps = (case begins n of
     None \<Rightarrow> Some (Inr (), sleeps)
   | Some (VCI c code) \<Rightarrow> Some (Inl (VCI c code), sleeps)
   | Some (PyExc cls msg) \<Rightarrow>
     if cls \<noteq> ''sqlite3.OperationalError'' then Some (Inl (PyExc cls msg), sleeps)
     else if busy_message msg \<and> elapsed n < timeout
     then acquire begins elapsed jitter timeout (Suc n) (min (1 / 4) (delay * 2)) ((delay + jitter n) # sleeps)
     else Some (database_error, sleeps))"

text \<open>A \<open>BEGIN\<close> inside a transaction fails whatever the other connections do.\<close>

definition begin_answers :: "'d connection \<Rightarrow> (nat \<Rightarrow> exn option) \<Rightarrow> nat \<Rightarrow> exn option" where
  "begin_answers conn begins n = (if cn_working conn = None then begins n
     else Some (operational_error ''cannot start a transaction within a transaction''))"

definition begin_transaction :: "'d connection \<Rightarrow> 'd connection" where
  "begin_transaction conn = conn\<lparr>cn_working := Some (cn_committed conn)\<rparr>"

text \<open>\<open>yield conn\<close>, then \<open>COMMIT\<close>; an exception of either rolls back and is raised again.\<close>

definition run_block ::
    "'d sqlite \<Rightarrow> ('d connection \<Rightarrow> 'a res \<times> 'd connection) \<Rightarrow> 'd connection \<Rightarrow> 'a res \<times> 'd connection" where
  "run_block sq body conn = (case body conn of
     (Inl e, c) \<Rightarrow> (Inl e, rollback sq c)
   | (Inr v, c) \<Rightarrow> (case commit sq c of
       (Some e, c') \<Rightarrow> (Inl e, rollback sq c')
     | (None, c') \<Rightarrow> (Inr v, c')))"

definition reset_timeout :: "'d sqlite \<Rightarrow> 'd connection \<Rightarrow> 'd connection" where
  "reset_timeout sq conn = (if sq_pragma sq conn then conn\<lparr>cn_busy_timeout := 5000\<rparr> else conn)"

definition transaction ::
    "'d sqlite \<Rightarrow> (nat \<Rightarrow> exn option) \<Rightarrow> (nat \<Rightarrow> rat) \<Rightarrow> (nat \<Rightarrow> rat) \<Rightarrow> rat
     \<Rightarrow> ('d connection \<Rightarrow> 'a res \<times> 'd connection) \<Rightarrow> 'd connection \<Rightarrow> ('a res \<times> 'd connection) option" where
  "transaction sq begins elapsed jitter timeout body conn =
    (let conn = conn\<lparr>cn_busy_timeout := max 1 \<lfloor>timeout * 1000\<rfloor>\<rparr> in
     case acquire (begin_answers conn begins) elapsed jitter timeout 0 (1 / 100) [] of
       None \<Rightarrow> None
     | Some (Inl e, sleeps) \<Rightarrow> Some (Inl e, reset_timeout sq conn)
     | Some (Inr _, sleeps) \<Rightarrow>
       (case run_block sq body (begin_transaction conn) of (r, c) \<Rightarrow> Some (r, reset_timeout sq c)))"

section \<open>backup\_database\<close>

text \<open>The rows of \<open>PRAGMA database_list\<close> as (name, file), or the error of the statement.\<close>

definition get_db_file_path :: "(string \<times> string) list option \<Rightarrow> string option" where
  "get_db_file_path rows = (case rows of
     None \<Rightarrow> None
   | Some rs \<Rightarrow> map_option snd (find (\<lambda>(name, file). name = ''main'' \<and> file \<noteq> []) rs))"

text \<open>
  How unlinking the old files and copying went: a failure before the old backup was removed, after it,
  or a copy of the committed database. \<open>resolve\<close> is \<open>Path.resolve\<close>.
\<close>

datatype backup_answer = Kept_old exn | Lost_old exn | Copied

definition write_backup ::
    "exn option \<Rightarrow> backup_answer \<Rightarrow> string \<Rightarrow> 'd connection \<Rightarrow> (string \<Rightarrow> 'd database option)
     \<Rightarrow> unit res \<times> (string \<Rightarrow> 'd database option)" where
  "write_backup mkdir_error answer target_path conn disk = (case mkdir_error of
     Some e \<Rightarrow> (Inl e, disk)
   | None \<Rightarrow> (case answer of
       Kept_old e \<Rightarrow> (database_error, disk)
     | Lost_old e \<Rightarrow> (database_error, disk(target_path := None))
     | Copied \<Rightarrow> (Inr (), disk(target_path \<mapsto> cn_committed conn))))"

definition backup_database ::
    "(string \<Rightarrow> string res) \<Rightarrow> exn option \<Rightarrow> backup_answer \<Rightarrow> string option \<Rightarrow> string
     \<Rightarrow> 'd connection \<Rightarrow> (string \<Rightarrow> 'd database option) \<Rightarrow> unit res \<times> (string \<Rightarrow> 'd database option)" where
  "backup_database resolve mkdir_error answer db_file target_path conn disk =
    (let same = (case db_file of
         None \<Rightarrow> Inr False
       | Some f \<Rightarrow> bind_res (resolve target_path) (\<lambda>a. bind_res (resolve f) (\<lambda>b. Inr (a = b))))
     in case same of
       Inl (VCI c code) \<Rightarrow> (Inl (VCI c code), disk)
     | Inl (PyExc cls msg) \<Rightarrow>
         if cls \<noteq> ''OSError'' then (Inl (PyExc cls msg), disk) else write_backup mkdir_error answer target_path conn disk
     | Inr True \<Rightarrow> (Inl (make_error ValidationError (Some (ec_value EC_VALIDATION_ERROR))), disk)
     | Inr False \<Rightarrow> write_backup mkdir_error answer target_path conn disk)"

section \<open>migrate\<close>

text \<open>The version of a migration file: \<open>int(file_path.stem.split("_")[0])\<close>.\<close>

definition file_version :: "string \<Rightarrow> int option" where
  "file_version name = py_int (hd (split_on CHR ''_'' (stem name)))"

text \<open>A pending migration: version, content, checksum.\<close>

type_synonym pending_migration = "int \<times> string \<times> string"

text \<open>The loop over the files, each with its bytes or the error of reading it.\<close>

fun discover ::
    "(string \<Rightarrow> string) \<Rightarrow> (int \<Rightarrow> string option) \<Rightarrow> int option \<Rightarrow> (string \<times> string res) list
     \<Rightarrow> pending_migration list res" where
  "discover H applied target_version [] = Inr []"
| "discover H applied target_version ((name, file) # files) = (case file_version name of
     None \<Rightarrow> discover H applied target_version files
   | Some version \<Rightarrow> bind_res (read_text file) (\<lambda>content.
       case applied version of
         Some expected_checksum \<Rightarrow>
           if H content \<noteq> expected_checksum
           then Inl (make_error IdentityConflict (Some (ec_value EC_IDENTITY_CONFLICT)))
           else discover H applied target_version files
       | None \<Rightarrow>
           if \<not> opt_all (\<lambda>t. version \<le> t) target_version then Inr []
           else bind_res (discover H applied target_version files)
             (\<lambda>pending. Inr ((version, content, H content) # pending))))"

definition applied_checksums :: "'d database \<Rightarrow> int \<Rightarrow> string option" where
  "applied_checksums d = map_of (map (\<lambda>r. (sm_version r, sm_checksum r)) (schema_migrations d))"

definition max_version :: "'d database \<Rightarrow> int" where
  "max_version d = (if schema_migrations d = [] then 0 else Max (set (map sm_version (schema_migrations d))))"

text \<open>\<open>executescript\<close> first commits a pending transaction.\<close>

definition newline :: string where "newline = [CHR 0x0A]"

definition executescript :: "'d sqlite \<Rightarrow> string \<Rightarrow> 'd connection \<Rightarrow> exn option \<times> 'd connection" where
  "executescript sq script conn = (case cn_working conn of
     None \<Rightarrow> sq_script sq script conn
   | Some _ \<Rightarrow> (case commit sq conn of
       (Some e, c) \<Rightarrow> (Some e, c)
     | (None, c) \<Rightarrow> sq_script sq script c))"

definition migration_script :: "string \<Rightarrow> string" where
  "migration_script content = ''BEGIN IMMEDIATE;'' @ newline @ content @ newline"

text \<open>The tracking row, in the open transaction or, without one, in the database itself.\<close>

definition insert_migration :: "migration_row \<Rightarrow> 'd connection \<Rightarrow> exn option \<times> 'd connection" where
  "insert_migration row conn =
    (if sm_version row \<in> sm_version ` set (schema_migrations (current conn))
     then (Some (integrity_error ''UNIQUE constraint failed: schema_migrations.version''), conn)
     else (let d = (current conn)\<lparr>schema_migrations := schema_migrations (current conn) @ [row]\<rparr> in
       (None, if cn_working conn = None then conn\<lparr>cn_committed := d\<rparr> else conn\<lparr>cn_working := Some d\<rparr>)))"

definition foreign_key_error :: exn where
  "foreign_key_error = make_error ValidationError (Some (ec_value EC_DATABASE_ERROR))"

definition apply_migration ::
    "'d sqlite \<Rightarrow> string \<Rightarrow> pending_migration \<Rightarrow> 'd connection \<Rightarrow> unit res \<times> 'd connection" where
  "apply_migration sq now_iso m conn = (case m of (version, content, checksum) \<Rightarrow>
    (case executescript sq (migration_script content) conn of
       (Some e, c) \<Rightarrow> (Inl e, rollback sq c)
     | (None, c) \<Rightarrow>
       if sq_fk_violations sq (current c) then (Inl foreign_key_error, rollback sq c)
       else (case insert_migration \<lparr>sm_version = version, sm_applied_at = now_iso, sm_checksum = checksum\<rparr> c of
         (Some e, c) \<Rightarrow> (Inl e, rollback sq c)
       | (None, c) \<Rightarrow> (case commit sq c of
           (Some e, c) \<Rightarrow> (Inl e, rollback sq c)
         | (None, c) \<Rightarrow> (Inr (), c)))))"

text \<open>\<open>now n\<close> is the text of the clock before the \<open>n\<close>th pending migration.\<close>

fun apply_migrations ::
    "'d sqlite \<Rightarrow> (nat \<Rightarrow> string) \<Rightarrow> nat \<Rightarrow> pending_migration list \<Rightarrow> 'd connection \<Rightarrow> unit res \<times> 'd connection" where
  "apply_migrations sq now n [] conn = (Inr (), conn)"
| "apply_migrations sq now n (m # ms) conn = (case apply_migration sq (now n) m conn of
     (Inl e, c) \<Rightarrow> (Inl e, c)
   | (Inr _, c) \<Rightarrow> apply_migrations sq now (Suc n) ms c)"

definition run_backup ::
    "('d connection \<Rightarrow> (string \<Rightarrow> 'd database option) \<Rightarrow> unit res \<times> (string \<Rightarrow> 'd database option)) option
     \<Rightarrow> 'd connection \<Rightarrow> (string \<Rightarrow> 'd database option) \<Rightarrow> unit res \<times> (string \<Rightarrow> 'd database option)" where
  "run_backup backup conn disk = (case backup of None \<Rightarrow> (Inr (), disk) | Some f \<Rightarrow> f conn disk)"

text \<open>
  \<open>files\<close> is what \<open>glob("*.sql")\<close> lists, or \<open>None\<close> without the directory; \<open>backup\<close> is the call of
  \<open>backup_database\<close> that the options and the kind of database ask for, if any.
\<close>

definition migrate ::
    "(string \<Rightarrow> string) \<Rightarrow> 'd sqlite \<Rightarrow> (nat \<Rightarrow> string) \<Rightarrow> int option \<Rightarrow> (string \<times> string res) list option
     \<Rightarrow> ('d connection \<Rightarrow> (string \<Rightarrow> 'd database option) \<Rightarrow> unit res \<times> (string \<Rightarrow> 'd database option)) option
     \<Rightarrow> 'd connection \<Rightarrow> (string \<Rightarrow> 'd database option)
     \<Rightarrow> int res \<times> 'd connection \<times> (string \<Rightarrow> 'd database option)" where
  "migrate H sq now target_version files backup conn disk = (case files of
     None \<Rightarrow> (Inr (max_version (current conn)), conn, disk)
   | Some listing \<Rightarrow>
     (case discover H (applied_checksums (current conn)) target_version (sort_key fst listing) of
        Inl e \<Rightarrow> (Inl e, conn, disk)
      | Inr pending \<Rightarrow>
        if pending = [] then (Inr (max_version (current conn)), conn, disk)
        else (case run_backup backup conn disk of
          (Inl e, disk') \<Rightarrow> (Inl e, conn, disk')
        | (Inr _, disk') \<Rightarrow> (case apply_migrations sq now 0 pending conn of
            (Inl e, c) \<Rightarrow> (Inl e, c, disk')
          | (Inr _, c) \<Rightarrow>
            if sq_fk_violations sq (current c) then (Inl foreign_key_error, c, disk')
            else (Inr (fst (last pending)), c, disk')))))"

text \<open>
  The call of \<open>backup_database\<close> inside \<open>migrate\<close>: with the option, for a database in an existing file,
  to the given path or beside the file.
\<close>

definition migration_backup ::
    "(string \<Rightarrow> string res) \<Rightarrow> exn option \<Rightarrow> backup_answer \<Rightarrow> (string \<times> string) list option \<Rightarrow> (string \<Rightarrow> bool)
     \<Rightarrow> bool \<Rightarrow> string option
     \<Rightarrow> ('d connection \<Rightarrow> (string \<Rightarrow> 'd database option) \<Rightarrow> unit res \<times> (string \<Rightarrow> 'd database option)) option" where
  "migration_backup resolve mkdir_error answer database_list exists backup backup_path =
    (if \<not> backup then None
     else case get_db_file_path database_list of
       None \<Rightarrow> None
     | Some db_file \<Rightarrow>
       if \<not> exists db_file then None
       else Some (backup_database resolve mkdir_error answer (Some db_file)
         (case backup_path of Some p \<Rightarrow> p | None \<Rightarrow> db_file @ ''.bak'')))"

section \<open>Database\<close>

text \<open>
  The object owns at most one connection, a handle of any type \<open>'c\<close>; \<open>open\<close> is \<open>connect\<close> on its path,
  which can raise.
\<close>

record 'c database_object =
  do_path :: string
  do_conn :: "'c option"

definition new_database :: "string \<Rightarrow> 'c database_object" where
  "new_database path = \<lparr>do_path = path, do_conn = None\<rparr>"

text \<open>the property \<open>connection\<close>\<close>

definition connection_of ::
    "(string \<Rightarrow> 'c res) \<Rightarrow> 'c database_object \<Rightarrow> 'c res \<times> 'c database_object" where
  "connection_of open_db d = (case do_conn d of
     Some c \<Rightarrow> (Inr c, d)
   | None \<Rightarrow> (case open_db (do_path d) of
       Inl e \<Rightarrow> (Inl e, d)
     | Inr c \<Rightarrow> (Inr c, d\<lparr>do_conn := Some c\<rparr>)))"

text \<open>the method \<open>connect\<close>\<close>

definition connect_again ::
    "(string \<Rightarrow> 'c res) \<Rightarrow> 'c database_object \<Rightarrow> 'c res \<times> 'c database_object" where
  "connect_again open_db d =
    (if do_path d = '':memory:'' then connection_of open_db d else (open_db (do_path d), d))"

text \<open>the methods \<open>transaction\<close> and \<open>migrate\<close>: the function of that name on the connection of the object\<close>

definition on_connection ::
    "(string \<Rightarrow> 'c res) \<Rightarrow> ('c \<Rightarrow> 'a res \<times> 'c) \<Rightarrow> 'c database_object \<Rightarrow> 'a res \<times> 'c database_object" where
  "on_connection open_db f d = (case connection_of open_db d of
     (Inl e, d') \<Rightarrow> (Inl e, d')
   | (Inr c, d') \<Rightarrow> (case f c of (r, c') \<Rightarrow> (r, d'\<lparr>do_conn := Some c'\<rparr>)))"

text \<open>\<open>close\<close>, which \<open>__exit__\<close> calls: the connection to close, and the object without it.\<close>

definition close_database :: "'c database_object \<Rightarrow> 'c option \<times> 'c database_object" where
  "close_database d = (do_conn d, d\<lparr>do_conn := None\<rparr>)"

end
