(* ===== verification/Database_Properties.thy ===== *)
theory Database_Properties
  imports Database
begin

text \<open>
  What the SQLite layer promises: the busy retry is bounded, a block commits or leaves no trace, the
  queue's model of a transaction is what the connection does, and migrations are applied in order,
  each with its tracking row or not at all.
\<close>

section \<open>The busy retry\<close>

definition delay_at :: "nat \<Rightarrow> rat" where
  "delay_at n = min (1 / 4) (2 ^ n / 100)"

lemma delay_at_simps: "delay_at 0 = 1 / 100" "delay_at (Suc n) = min (1 / 4) (delay_at n * 2)"
  by (auto simp: delay_at_def min_def)

lemma delay_at_bounds: "1 / 100 \<le> delay_at n" "delay_at n \<le> 1 / 4"
  by (simp_all add: delay_at_def divide_right_mono)

lemma delay_at_late: "5 \<le> n \<Longrightarrow> delay_at n = 1 / 4"
proof -
  assume "5 \<le> n"
  then have "(2 :: rat) ^ 5 \<le> 2 ^ n" by (intro power_increasing) auto
  then show ?thesis by (simp add: delay_at_def)
qed

text \<open>Whether the loop sleeps after an answer to \<open>BEGIN\<close>, and what it returns otherwise.\<close>

fun retries :: "exn option \<Rightarrow> bool" where
  "retries (Some (PyExc cls msg)) \<longleftrightarrow> cls = ''sqlite3.OperationalError'' \<and> busy_message msg"
| "retries _ \<longleftrightarrow> False"

fun begin_result :: "exn option \<Rightarrow> unit res" where
  "begin_result None = Inr ()"
| "begin_result (Some (VCI c code)) = Inl (VCI c code)"
| "begin_result (Some (PyExc cls msg)) =
    (if cls = ''sqlite3.OperationalError'' then database_error else Inl (PyExc cls msg))"

lemma acquire_step:
  "acquire begins elapsed jitter timeout n delay sleeps =
    (if retries (begins n) \<and> elapsed n < timeout
     then acquire begins elapsed jitter timeout (Suc n) (min (1 / 4) (delay * 2)) ((delay + jitter n) # sleeps)
     else Some (begin_result (begins n), sleeps))"
  by (subst acquire.simps) (auto split: option.splits exn.splits)

lemma acquire_run:
  assumes "\<And>i. n \<le> i \<Longrightarrow> i < n + k \<Longrightarrow> retries (begins i) \<and> elapsed i < timeout"
    and "\<not> (retries (begins (n + k)) \<and> elapsed (n + k) < timeout)"
  shows "acquire begins elapsed jitter timeout n (delay_at n) sleeps =
    Some (begin_result (begins (n + k)), rev (map (\<lambda>i. delay_at i + jitter i) [n..<n + k]) @ sleeps)"
  using assms
proof (induction k arbitrary: n sleeps)
  case 0
  then show ?case by (auto simp: acquire_step [of begins elapsed jitter timeout n])
next
  case (Suc k)
  have "acquire begins elapsed jitter timeout (Suc n) (delay_at (Suc n)) ((delay_at n + jitter n) # sleeps) =
    Some (begin_result (begins (Suc n + k)),
      rev (map (\<lambda>i. delay_at i + jitter i) [Suc n..<Suc n + k]) @ (delay_at n + jitter n) # sleeps)"
    using Suc.prems by (intro Suc.IH) auto
  moreover have "retries (begins n) \<and> elapsed n < timeout"
    using Suc.prems(1) [of n] by simp
  moreover have "[n..<n + Suc k] = n # [Suc n..<Suc n + k]"
    by (simp add: upt_conv_Cons)
  ultimately show ?case
    by (subst acquire_step) (simp add: delay_at_simps(2))
qed

lemma elapsed_grows:
  fixes elapsed jitter :: "nat \<Rightarrow> rat"
  assumes "\<And>i. elapsed i + delay_at i + jitter i \<le> elapsed (Suc i)" and "0 \<le> elapsed 0" and "\<And>i. 0 \<le> jitter i"
  shows "0 \<le> elapsed n \<and> (of_nat n - 5) / 4 \<le> elapsed n"
proof (induction n)
  case 0
  with assms(2) show ?case by simp
next
  case (Suc n)
  have "elapsed n + delay_at n \<le> elapsed (Suc n)"
    using assms(1) [of n] assms(3) [of n] by linarith
  moreover have "delay_at n = 1 / 4 \<or> (of_nat (Suc n) :: rat) \<le> 5"
  proof (cases "5 \<le> n")
    case False
    then have "Suc n \<le> 5" by simp
    then show ?thesis by (metis of_nat_le_iff of_nat_numeral)
  qed (simp add: delay_at_late)
  ultimately show ?case
    using Suc delay_at_bounds(1) [of n] by (auto simp: field_simps)
qed

text \<open>On a clock that counts the sleeps the loop stops at the first answer it does not wait for.\<close>

lemma busy_retry_stops:
  assumes "\<And>i. elapsed i + delay_at i + jitter i \<le> elapsed (Suc i)" and "0 \<le> elapsed 0" and "\<And>i. 0 \<le> jitter i"
  obtains k where "k \<le> 5 + nat \<lceil>4 * timeout\<rceil>" "\<not> (retries (begins k) \<and> elapsed k < timeout)"
    "\<And>i. i < k \<Longrightarrow> retries (begins i) \<and> elapsed i < timeout"
    "acquire begins elapsed jitter timeout 0 (1 / 100) []
      = Some (begin_result (begins k), rev (map (\<lambda>i. delay_at i + jitter i) [0..<k]))"
proof -
  let ?waits = "\<lambda>i. retries (begins i) \<and> elapsed i < timeout" and ?N = "5 + nat \<lceil>4 * timeout\<rceil>"
  have late: "\<not> ?waits ?N"
  proof -
    have "4 * timeout \<le> of_nat (nat \<lceil>4 * timeout\<rceil>)"
      by (rule of_nat_ceiling)
    then have "timeout \<le> (of_nat ?N - 5) / 4" by simp
    then show ?thesis
      using elapsed_grows [OF assms, of ?N] by auto
  qed
  define k where "k = (LEAST i. \<not> ?waits i)"
  have k: "\<not> ?waits k" "k \<le> ?N"
    using LeastI [of "\<lambda>i. \<not> ?waits i", OF late] Least_le [of "\<lambda>i. \<not> ?waits i", OF late] by (auto simp: k_def)
  have before: "?waits i" if "i < k" for i
    using not_less_Least [of i "\<lambda>i. \<not> ?waits i"] that unfolding k_def by blast
  have "acquire begins elapsed jitter timeout 0 (1 / 100) []
      = Some (begin_result (begins k), rev (map (\<lambda>i. delay_at i + jitter i) [0..<k]))"
    using acquire_run [where n = 0 and k = k and sleeps = "[]"] before k(1) by (simp add: delay_at_simps(1))
  with k before show ?thesis using that by blast
qed

text \<open>
  C33. The busy retry is bounded. On a clock that counts the sleeps, the loop that begins a transaction
  ends: after at most \<open>5 + 4 * timeout\<close> refusals (rounded up), each followed by a sleep of 10 to 270 milliseconds. It
  has the transaction exactly if the last \<open>BEGIN\<close> succeeded; a database that stays busy until the
  timeout is an \<open>InfrastructureError\<close> with the code \<open>DATABASE_ERROR\<close>, and an error of another kind is not retried.
\<close>

theorem busy_retry_is_bounded:
  assumes "\<And>i. elapsed i + delay_at i + jitter i \<le> elapsed (Suc i)" and "0 \<le> elapsed 0"
    and "\<And>i. 0 \<le> jitter i" and "\<And>i. jitter i \<le> 1 / 50"
  shows "\<exists>k sleeps. acquire begins elapsed jitter timeout 0 (1 / 100) [] = Some (begin_result (begins k), sleeps)
    \<and> length sleeps = k \<and> k \<le> 5 + nat \<lceil>4 * timeout\<rceil>
    \<and> (\<forall>s \<in> set sleeps. 1 / 100 \<le> s \<and> s \<le> 27 / 100)
    \<and> (\<forall>i < k. retries (begins i) \<and> elapsed i < timeout)
    \<and> (retries (begins k) \<longrightarrow> timeout \<le> elapsed k \<and> begin_result (begins k) = database_error)"
proof -
  obtain k where k: "k \<le> 5 + nat \<lceil>4 * timeout\<rceil>" "\<not> (retries (begins k) \<and> elapsed k < timeout)"
    "\<And>i. i < k \<Longrightarrow> retries (begins i) \<and> elapsed i < timeout"
    "acquire begins elapsed jitter timeout 0 (1 / 100) []
      = Some (begin_result (begins k), rev (map (\<lambda>i. delay_at i + jitter i) [0..<k]))"
    using busy_retry_stops [OF assms(1-3), where begins = begins and timeout = timeout] by blast
  let ?sleeps = "rev (map (\<lambda>i. delay_at i + jitter i) [0..<k])"
  have "1 / 100 \<le> s \<and> s \<le> 27 / 100" if s: "s \<in> set ?sleeps" for s
  proof -
    from s obtain i where "s = delay_at i + jitter i" by auto
    then show ?thesis
      using delay_at_bounds [of i] assms(3,4) [of i] by linarith
  qed
  moreover have "begin_result (begins k) = database_error" if "retries (begins k)"
    using that by (cases "begins k" rule: retries.cases) auto
  ultimately show ?thesis
    using k by (intro exI [of _ k] exI [of _ ?sleeps]) auto
qed

theorem busy_retry_is_bounded_witness:
  "\<exists>k sleeps. acquire (\<lambda>i. Some (operational_error ''database is locked'')) (\<lambda>i. of_nat i) (\<lambda>i. 1 / 100) 5 0 (1 / 100) []
      = Some (database_error, sleeps) \<and> length sleeps = k \<and> k \<le> 25"
proof -
  let ?b = "\<lambda>i :: nat. Some (operational_error ''database is locked'')"
  have le: "of_nat i + delay_at i + 1 / 100 \<le> (of_nat (Suc i) :: rat)" for i
    using delay_at_bounds(2) [of i] by simp
  have "busy_message ''database is locked''" by code_simp
  then have "retries (?b k)" "begin_result (?b k) = database_error" for k by simp_all
  moreover have "nat \<lceil>4 * (5 :: rat)\<rceil> = 20" by simp
  ultimately show ?thesis
    using busy_retry_is_bounded [where elapsed = of_nat and jitter = "\<lambda>i. 1 / 100" and begins = ?b and timeout = 5, OF le]
    by auto
qed

section \<open>Blocks\<close>

text \<open>
  A block is atomic. Outside a transaction, a block that neither commits nor rolls back itself has
  these effects: the database is the working copy it left if the transaction began, the block raised nothing and the
  commit went through, and otherwise the database is what it was and the error is raised. No transaction stays
  open, and the busy timeout is 5 seconds again.
\<close>

lemma transaction_outcome:
  assumes "cn_working conn = None" and "acquire begins elapsed jitter timeout 0 (1 / 100) [] = Some (a, sleeps)"
    and "body (begin_transaction (conn\<lparr>cn_busy_timeout := max 1 \<lfloor>timeout * 1000\<rfloor>\<rparr>)) = (r, c)"
    and "cn_committed c = cn_committed conn" and "cn_working c = Some w"
    and "\<And>d. sq_rollback sq d" and "\<And>c. sq_pragma sq c"
  shows "transaction sq begins elapsed jitter timeout body conn = Some
    (case bind_res a (\<lambda>_. bind_res r (\<lambda>v. case sq_commit sq w of Some e \<Rightarrow> Inl e | None \<Rightarrow> Inr v)) of
       Inl e \<Rightarrow> (Inl e, conn\<lparr>cn_busy_timeout := 5000\<rparr>)
     | Inr v \<Rightarrow> (Inr v, conn\<lparr>cn_committed := w, cn_busy_timeout := 5000\<rparr>))"
proof -
  have begins: "begin_answers (conn\<lparr>cn_busy_timeout := t\<rparr>) begins = begins" for t
    using assms(1) by (simp add: begin_answers_def fun_eq_iff)
  have undo: "reset_timeout sq (rollback sq c) = conn\<lparr>cn_busy_timeout := 5000\<rparr>"
    "reset_timeout sq (conn\<lparr>cn_busy_timeout := t\<rparr>) = conn\<lparr>cn_busy_timeout := 5000\<rparr>"
    "reset_timeout sq (c\<lparr>cn_committed := w, cn_working := None\<rparr>) = conn\<lparr>cn_committed := w, cn_busy_timeout := 5000\<rparr>" for t
    using assms(1,4-7) by (simp_all add: reset_timeout_def rollback_def connection.equality)
  note defs = transaction_def run_block_def commit_def Let_def begins assms(2,3,5) undo
  show ?thesis
    by (cases a; cases r; cases "sq_commit sq w") (simp_all add: defs)
qed

text \<open>The body of a queue operation as a block on a connection whose tables are the queue's.\<close>

definition on_tables :: "('d \<Rightarrow> ('a \<times> 'd) res) \<Rightarrow> 'd connection \<Rightarrow> 'a res \<times> 'd connection" where
  "on_tables f conn = (case f (tables (current conn)) of
     Inl e \<Rightarrow> (Inl e, conn)
   | Inr (v, t) \<Rightarrow> (Inr v, conn\<lparr>cn_working := Some ((current conn)\<lparr>tables := t\<rparr>)\<rparr>))"

text \<open>
  The connection refines the queue's model of a transaction. When the transaction begins and the commit
  succeeds, running the body of a queue operation in \<open>transaction\<close> answers what \<open>in_transaction\<close>
  answers and leaves the database it leaves; the table of migrations is not touched.
\<close>

lemma transaction_refines_in_transaction:
  fixes f :: "db \<Rightarrow> ('a \<times> db) res"
  assumes "cn_working conn = None" and "acquire begins elapsed jitter timeout 0 (1 / 100) [] = Some (Inr u, sleeps)"
    and "\<And>d. sq_commit sq d = None" and "\<And>d. sq_rollback sq d" and "\<And>c. sq_pragma sq c"
  shows "transaction sq begins elapsed jitter timeout (on_tables f) conn = Some
    (fst (in_transaction f (tables (cn_committed conn))),
     conn\<lparr>cn_committed := (cn_committed conn)\<lparr>tables := snd (in_transaction f (tables (cn_committed conn)))\<rparr>,
       cn_busy_timeout := 5000\<rparr>)"
proof (cases "f (tables (cn_committed conn))")
  case (Inl e)
  then have "on_tables f (begin_transaction (conn\<lparr>cn_busy_timeout := t\<rparr>))
      = (Inl e, begin_transaction (conn\<lparr>cn_busy_timeout := t\<rparr>))" for t
    by (simp add: on_tables_def current_def begin_transaction_def)
  then show ?thesis
    using transaction_outcome [where body = "on_tables f" and sq = sq, OF assms(1,2)] Inl assms(3-5)
    by (simp add: begin_transaction_def in_transaction_def)
next
  case (Inr vt)
  obtain v t' where vt: "vt = (v, t')" by (cases vt)
  let ?w = "(cn_committed conn)\<lparr>tables := t'\<rparr>"
  have "on_tables f (begin_transaction (conn\<lparr>cn_busy_timeout := t\<rparr>))
      = (Inr v, conn\<lparr>cn_busy_timeout := t, cn_working := Some ?w\<rparr>)" for t
    using Inr vt by (simp add: on_tables_def current_def begin_transaction_def)
  then show ?thesis
    using transaction_outcome [where body = "on_tables f" and sq = sq, OF assms(1,2)] Inr vt assms(3-5)
    by (simp add: in_transaction_def)
qed

definition ex_db :: db where
  "ex_db = \<lparr>jobs = [], attempts = [], runs = [], manifests = [], artifact_digests = []\<rparr>"

definition ex_sqlite :: "'d sqlite" where
  "ex_sqlite = \<lparr>sq_script = \<lambda>s c. if contains ''bad'' s then (Some (operational_error ''syntax error''), begin_transaction c)
       else (None, begin_transaction c),
     sq_commit = \<lambda>_. None, sq_rollback = \<lambda>_. True, sq_pragma = \<lambda>_. True, sq_fk_violations = \<lambda>_. False\<rparr>"

definition ex_connection :: "'d \<Rightarrow> 'd connection" where
  "ex_connection t = \<lparr>cn_committed = \<lparr>tables = t, schema_migrations = []\<rparr>, cn_working = None, cn_busy_timeout = 5000\<rparr>"

lemma transaction_refines_in_transaction_witness:
  "\<exists>conn. transaction ex_sqlite (\<lambda>n. None) (\<lambda>n. 0) (\<lambda>n. 0) 5 (on_tables (\<lambda>d. Inr ((), d\<lparr>artifact_digests := [''a'']\<rparr>)))
       (ex_connection ex_db) = Some (Inr (), conn)
     \<and> tables (cn_committed conn) = ex_db\<lparr>artifact_digests := [''a'']\<rparr>"
proof -
  have "acquire (\<lambda>n. None) (\<lambda>n. 0) (\<lambda>n. 0) 5 0 (1 / 100) [] = Some (Inr (), [])"
    by (simp add: acquire_step)
  with transaction_refines_in_transaction [where sq = ex_sqlite and conn = "ex_connection ex_db"
      and f = "\<lambda>d. Inr ((), d\<lparr>artifact_digests := [''a'']\<rparr>)"] show ?thesis
    by (simp add: ex_sqlite_def ex_connection_def in_transaction_def)
qed

section \<open>Migrations\<close>

text \<open>
  What is assumed of the text of a migration: it leaves the committed database and the busy timeout alone, and
  when it raises nothing, the transaction it began is still open with the tracking table as it was.
\<close>

definition stays_inside :: "'d sqlite \<Rightarrow> bool" where
  "stays_inside sq \<longleftrightarrow> (\<forall>content conn. cn_working conn = None \<longrightarrow>
     (case sq_script sq (migration_script content) conn of (r, c) \<Rightarrow>
        cn_committed c = cn_committed conn \<and> cn_busy_timeout c = cn_busy_timeout conn
        \<and> (r = None \<longrightarrow> (\<exists>w. cn_working c = Some w \<and> schema_migrations w = schema_migrations (cn_committed conn)))))"

definition tracking_row :: "string \<Rightarrow> pending_migration \<Rightarrow> migration_row" where
  "tracking_row now_iso m = (case m of (version, content, checksum) \<Rightarrow>
     \<lparr>sm_version = version, sm_applied_at = now_iso, sm_checksum = checksum\<rparr>)"

text \<open>One migration: its effect with its row, or nothing.\<close>

lemma apply_migration_atomic:
  assumes "stays_inside sq" and "\<And>d. sq_rollback sq d" and "cn_working conn = None"
    and "apply_migration sq now_iso m conn = (r, c)"
  shows "cn_working c = None"
    and "r = Inl e \<Longrightarrow> c = conn"
    and "r = Inr u \<Longrightarrow> fst m \<notin> sm_version ` set (schema_migrations (cn_committed conn))
      \<and> schema_migrations (cn_committed c) = schema_migrations (cn_committed conn) @ [tracking_row now_iso m]"
proof -
  obtain version content checksum where m: "m = (version, content, checksum)" by (cases m)
  obtain x c1 where script: "sq_script sq (migration_script content) conn = (x, c1)" by fastforce
  with assms(1,3) have c1: "cn_committed c1 = cn_committed conn" "cn_busy_timeout c1 = cn_busy_timeout conn"
    "x = None \<Longrightarrow> \<exists>w. cn_working c1 = Some w \<and> schema_migrations w = schema_migrations (cn_committed conn)"
    by (auto simp: stays_inside_def dest!: spec [of _ content] spec [of _ conn])
  have undo: "rollback sq c' = conn" if "cn_committed c' = cn_committed conn" "cn_busy_timeout c' = cn_busy_timeout conn"
    for c' :: "'a connection"
    using that assms(2,3) by (auto simp: rollback_def split: option.splits intro: connection.equality)
  note defs = apply_migration_def m executescript_def assms(3) script
  have "(\<exists>e. r = Inl e \<and> c = conn) \<or> (r = Inr () \<and> cn_working c = None
    \<and> version \<notin> sm_version ` set (schema_migrations (cn_committed conn))
      \<and> schema_migrations (cn_committed c) = schema_migrations (cn_committed conn) @ [tracking_row now_iso m])"
  proof (cases x)
    case (Some y)
    with assms(4) have "(r, c) = (Inl y, rollback sq c1)" by (simp add: defs)
    then show ?thesis using undo c1 assms(3) by simp
  next
    case None
    with c1(3) obtain w where w: "cn_working c1 = Some w"
      "schema_migrations w = schema_migrations (cn_committed conn)" by auto
    then have "current c1 = w" by (simp add: current_def)
    with assms(4) None w undo c1 assms(3) show ?thesis
      by (auto simp: defs insert_migration_def commit_def tracking_row_def Let_def split: if_splits option.splits)
  qed
  then show "cn_working c = None" and "r = Inl e \<Longrightarrow> c = conn"
    and "r = Inr u \<Longrightarrow> fst m \<notin> sm_version ` set (schema_migrations (cn_committed conn))
      \<and> schema_migrations (cn_committed c) = schema_migrations (cn_committed conn) @ [tracking_row now_iso m]"
    using assms(3) by (auto simp: m)
qed

text \<open>The pending migrations in their order, with the clock before each.\<close>

fun tracking_rows :: "(nat \<Rightarrow> string) \<Rightarrow> nat \<Rightarrow> pending_migration list \<Rightarrow> migration_row list" where
  "tracking_rows now n [] = []"
| "tracking_rows now n (m # ms) = tracking_row (now n) m # tracking_rows now (Suc n) ms"

lemma tracking_rows_versions: "map sm_version (tracking_rows now n ms) = map fst ms"
  by (induction ms arbitrary: n) (auto simp: tracking_row_def split: prod.splits)

lemma tracking_rows_checksums:
  "map (\<lambda>r. (sm_version r, sm_checksum r)) (tracking_rows now n ms) = map (\<lambda>(v, c, h). (v, h)) ms"
  by (induction ms arbitrary: n) (auto simp: tracking_row_def split: prod.splits)

definition versions_distinct :: "'d database \<Rightarrow> bool" where
  "versions_distinct d \<longleftrightarrow> distinct (map sm_version (schema_migrations d))"

lemma apply_migrations_prefix:
  assumes "stays_inside sq" and "\<And>d. sq_rollback sq d" and "cn_working conn = None"
    and "apply_migrations sq now n ms conn = (r, c)"
  shows "\<exists>k \<le> length ms. apply_migrations sq now n (take k ms) conn = (Inr (), c) \<and> cn_working c = None
    \<and> schema_migrations (cn_committed c) = schema_migrations (cn_committed conn) @ tracking_rows now n (take k ms)
    \<and> (r = Inr () \<longrightarrow> k = length ms)
    \<and> (versions_distinct (cn_committed conn) \<longrightarrow> versions_distinct (cn_committed c))"
  using assms(3,4)
proof (induction ms arbitrary: n conn)
  case (Cons m ms)
  obtain x c1 where step: "apply_migration sq (now n) m conn = (x, c1)" by fastforce
  note atomic = apply_migration_atomic [OF assms(1,2) Cons.prems(1) step]
  show ?case
  proof (cases x)
    case (Inl e)
    with step Cons.prems atomic(2) show ?thesis by (intro exI [of _ 0]) auto
  next
    case (Inr u)
    then have "apply_migrations sq now (Suc n) ms c1 = (r, c)"
      using Cons.prems(2) step by simp
    from Cons.IH [OF atomic(1) this] obtain k where k: "k \<le> length ms"
      "apply_migrations sq now (Suc n) (take k ms) c1 = (Inr (), c)" "cn_working c = None"
      "schema_migrations (cn_committed c) = schema_migrations (cn_committed c1) @ tracking_rows now (Suc n) (take k ms)"
      "r = Inr () \<longrightarrow> k = length ms" "versions_distinct (cn_committed c1) \<longrightarrow> versions_distinct (cn_committed c)"
      by blast
    have "versions_distinct (cn_committed conn) \<longrightarrow> versions_distinct (cn_committed c1)"
      using atomic(3) [OF Inr] by (auto simp: versions_distinct_def tracking_row_def split: prod.splits)
    with k atomic(3) [OF Inr] step Inr show ?thesis
      by (intro exI [of _ "Suc k"]) auto
  qed
qed auto

text \<open>
  C34. A migration happens with its tracking row or not at all. Outside a transaction, for scripts
  that stay inside theirs, \<open>migrate\<close> leaves the connection as a successful run of the first \<open>k\<close> pending
  migrations does, and the table of migrations with exactly their rows behind the old ones, in the order of the file names; no
  transaction stays open and versions stay unique. If it raises nothing, \<open>k\<close> is all of them and the foreign
  keys are sound; if checking the files or the backup raises, \<open>k\<close> is 0 and the connection is as before.
\<close>

theorem migrate_commits_a_prefix:
  assumes "stays_inside sq" and "\<And>d. sq_rollback sq d" and "cn_working conn = None"
    and "versions_distinct (cn_committed conn)"
    and "migrate H sq now target (Some listing) backup conn disk = (r, c, disk')"
    and "pending = (case discover H (applied_checksums (cn_committed conn)) target (sort_key fst listing) of
      Inl e \<Rightarrow> [] | Inr ms \<Rightarrow> ms)"
  shows "\<exists>k \<le> length pending. apply_migrations sq now 0 (take k pending) conn = (Inr (), c) \<and> cn_working c = None
    \<and> schema_migrations (cn_committed c) = schema_migrations (cn_committed conn) @ tracking_rows now 0 (take k pending)
    \<and> versions_distinct (cn_committed c)
    \<and> (\<forall>v. r = Inr v \<longrightarrow> k = length pending \<and> (pending = [] \<or> v = fst (last pending) \<and> \<not> sq_fk_violations sq (cn_committed c)))
    \<and> (\<forall>e. discover H (applied_checksums (cn_committed conn)) target (sort_key fst listing) = Inl e \<longrightarrow> r = Inl e \<and> c = conn)"
proof -
  have cur: "current conn = cn_committed conn" using assms(3) by (simp add: current_def)
  show ?thesis
  proof (cases "discover H (applied_checksums (cn_committed conn)) target (sort_key fst listing)")
    case (Inl e)
    with assms(3-6) show ?thesis by (simp add: migrate_def cur)
  next
    case (Inr ms)
    with assms(6) have ms: "pending = ms" by simp
    obtain b d where backup: "run_backup backup conn disk = (b, d)" by fastforce
    show ?thesis
    proof (cases "ms = [] \<or> (\<exists>e. b = Inl e)")
      case True
      with assms(3-5) Inr ms backup show ?thesis
        by (intro exI [of _ 0]) (auto simp: migrate_def cur split: if_splits)
    next
      case False
      obtain x c1 where run: "apply_migrations sq now 0 ms conn = (x, c1)" by fastforce
      from apply_migrations_prefix [OF assms(1-3) run] obtain k where k: "k \<le> length ms"
        "apply_migrations sq now 0 (take k ms) conn = (Inr (), c1)" "cn_working c1 = None"
        "schema_migrations (cn_committed c1) = schema_migrations (cn_committed conn) @ tracking_rows now 0 (take k ms)"
        "x = Inr () \<longrightarrow> k = length ms" "versions_distinct (cn_committed c1)"
        using assms(4) by blast
      moreover have "c = c1 \<and> (\<forall>v. r = Inr v \<longrightarrow> x = Inr () \<and> v = fst (last ms) \<and> \<not> sq_fk_violations sq (cn_committed c1))"
      proof -
        have "current c1 = cn_committed c1" using k(3) by (simp add: current_def)
        with assms(5) Inr False backup run show ?thesis
          by (cases b; cases x) (auto simp: migrate_def cur split: if_splits)
      qed
      ultimately show ?thesis
        using ms Inr by (intro exI [of _ k]) auto
    qed
  qed
qed

lemma ex_sqlite_fields:
  "stays_inside ex_sqlite" "sq_rollback ex_sqlite d" "sq_commit ex_sqlite d = None" "sq_pragma ex_sqlite c"
  by (simp_all add: ex_sqlite_def stays_inside_def begin_transaction_def)

definition ex_listing :: "(string \<times> string res) list" where
  "ex_listing = [(''002_b.sql'', Inr ''bad''), (''001_a.sql'', Inr ''good'')]"

theorem migrate_commits_a_prefix_witness:
  "\<exists>r c disk' k. migrate id ex_sqlite (\<lambda>n. ''now'') None (Some ex_listing) None (ex_connection ()) Map.empty = (r, c, disk')
    \<and> map sm_version (schema_migrations (cn_committed c)) = take k [1, 2] \<and> cn_working c = None"
proof -
  obtain r c disk' where run: "migrate id ex_sqlite (\<lambda>n. ''now'') None (Some ex_listing) None (ex_connection ()) Map.empty = (r, c, disk')"
    by (metis prod_cases3)
  have pending: "discover id (applied_checksums (cn_committed (ex_connection ()))) None (sort_key fst ex_listing)
      = Inr [(1, ''good'', ''good''), (2, ''bad'', ''bad'')]" by code_simp
  have "cn_working (ex_connection ()) = None" "schema_migrations (cn_committed (ex_connection ())) = []"
    by (simp_all add: ex_connection_def)
  then show ?thesis
    using migrate_commits_a_prefix [OF ex_sqlite_fields(1,2) _ _ run refl] run
    by (auto simp: pending versions_distinct_def tracking_rows_versions take_map [symmetric])
qed

subsection \<open>Running migrations again\<close>

text \<open>
  After the pending migrations were recorded, the same files have nothing pending, whatever the target.
\<close>

definition records :: "(int \<Rightarrow> string option) \<Rightarrow> pending_migration list \<Rightarrow> (int \<Rightarrow> string option) \<Rightarrow> bool" where
  "records applied pending applied' \<longleftrightarrow> (\<forall>v h. applied v = Some h \<longrightarrow> applied' v = Some h)
     \<and> (\<forall>(v, c, h) \<in> set pending. applied' v = Some h)"

lemma discover_again:
  assumes "discover H applied target files = Inr pending" and "records applied pending applied'"
    and "\<And>v. applied' v \<noteq> None \<Longrightarrow> applied v = None \<Longrightarrow> opt_all (\<lambda>t. v \<le> t) target"
  shows "discover H applied' target files = Inr []"
  using assms(1,2)
proof (induction files arbitrary: pending)
  case (Cons f files)
  obtain name bytes where f: "f = (name, bytes)" by (cases f)
  show ?case
  proof (cases "file_version name")
    case None
    with Cons f show ?thesis by simp
  next
    case (Some version)
    with Cons.prems(1) f obtain content where content: "read_text bytes = Inr content"
      by (auto simp: bind_res_Inr_iff)
    note eqs = f Some content
    show ?thesis
    proof (cases "applied version")
      case (Some h)
      with Cons.prems eqs have "H content = h" "discover H applied target files = Inr pending"
        by (auto split: if_splits)
      with Cons.IH Cons.prems(2) Some eqs show ?thesis by (auto simp: records_def)
    next
      case None
      show ?thesis
      proof (cases "opt_all (\<lambda>t. version \<le> t) target")
        case False
        with None assms(3) [of version] have "applied' version = None" by (cases "applied' version") auto
        with False eqs show ?thesis by simp
      next
        case True
        with Cons.prems(1) None eqs obtain rest where rest: "pending = (version, content, H content) # rest"
          "discover H applied target files = Inr rest"
          by (auto simp: bind_res_Inr_iff)
        with Cons.prems(2) have "records applied rest applied'" "applied' version = Some (H content)"
          by (auto simp: records_def)
        with Cons.IH [OF rest(2)] eqs show ?thesis by simp
      qed
    qed
  qed
qed simp

lemma discover_ConsD:
  assumes "discover H applied target (f # files) = Inr pending"
  shows "discover H applied target files = Inr pending \<or> pending = []
    \<or> (\<exists>v c rest. pending = (v, c, H c) # rest \<and> applied v = None \<and> opt_all (\<lambda>t. v \<le> t) target
      \<and> discover H applied target files = Inr rest)"
  using assms by (cases f; cases "file_version (fst f)") (auto simp: bind_res_Inr_iff split: option.splits if_splits)

lemma discover_target:
  assumes "discover H applied target files = Inr pending" and "(v, c, h) \<in> set pending"
  shows "opt_all (\<lambda>t. v \<le> t) target \<and> applied v = None"
  using assms
proof (induction files arbitrary: pending)
  case (Cons f files)
  from discover_ConsD [OF Cons.prems(1)] Cons.prems(2) Cons.IH show ?case
    by (elim disjE exE conjE) auto
qed simp

lemma applied_checksums_recorded:
  assumes "schema_migrations d' = schema_migrations d @ tracking_rows now n pending" and "versions_distinct d'"
  shows "records (applied_checksums d) pending (applied_checksums d')"
    and "applied_checksums d' v \<noteq> None \<Longrightarrow> applied_checksums d v = None \<Longrightarrow> \<exists>c h. (v, c, h) \<in> set pending"
proof -
  let ?old = "map (\<lambda>r. (sm_version r, sm_checksum r)) (schema_migrations d)"
    and ?new = "map (\<lambda>(v, c, h). (v, h)) pending"
  have eq: "applied_checksums d' = map_of (?old @ ?new)" "applied_checksums d = map_of ?old"
    by (simp_all only: applied_checksums_def assms(1) map_append tracking_rows_checksums)
  have dist: "distinct (map fst (?old @ ?new))"
    using assms by (simp add: versions_distinct_def tracking_rows_versions comp_def case_prod_unfold)
  then show "records (applied_checksums d) pending (applied_checksums d')"
    unfolding records_def eq map_of_eq_Some_iff [OF dist]
    by (auto dest: map_of_SomeD intro: rev_image_eqI)
  show "\<exists>c h. (v, c, h) \<in> set pending" if "applied_checksums d' v \<noteq> None" "applied_checksums d v = None"
    using that by (fastforce simp: eq map_add_def split: option.splits dest!: map_of_SomeD)
qed

text \<open>
  C36. Migrating again changes nothing. After a run of \<open>migrate\<close> that raised nothing, another run with the
  same files and the same target applies nothing, makes no backup, leaves the connection as it is and
  answers the largest recorded version, at any time and with any backup options. In particular no recorded checksum
  is found to differ.
\<close>

theorem migrate_again_changes_nothing:
  assumes "stays_inside sq" and "\<And>d. sq_rollback sq d" and "cn_working conn = None"
    and "versions_distinct (cn_committed conn)"
    and "migrate H sq now target (Some listing) backup conn disk = (Inr v, c, disk')"
  shows "migrate H sq now' target (Some listing) backup' c disk'' = (Inr (max_version (cn_committed c)), c, disk'')"
proof -
  have cur: "current conn = cn_committed conn" using assms(3) by (simp add: current_def)
  let ?d = "cn_committed conn" and ?files = "sort_key fst listing"
  obtain pending where pending: "discover H (applied_checksums ?d) target ?files = Inr pending"
    using assms(5) by (cases "discover H (applied_checksums ?d) target ?files") (auto simp: migrate_def cur)
  have c: "cn_working c = None \<and> versions_distinct (cn_committed c)
    \<and> schema_migrations (cn_committed c) = schema_migrations ?d @ tracking_rows now 0 pending"
  proof (cases "pending = []")
    case True
    with assms(3-5) pending show ?thesis by (auto simp: migrate_def cur)
  next
    case False
    obtain x c1 where run: "apply_migrations sq now 0 pending conn = (x, c1)" by fastforce
    have "x = Inr () \<and> c = c1"
      using assms(5) pending False run
      by (cases "run_backup backup conn disk"; cases "fst (run_backup backup conn disk)"; cases x)
        (auto simp: migrate_def cur split: if_splits)
    with apply_migrations_prefix [OF assms(1-3) run] assms(4) show ?thesis by auto
  qed
  then have cur': "current c = cn_committed c" by (simp add: current_def)
  note recorded = applied_checksums_recorded [of "cn_committed c" ?d now 0 pending]
  have "discover H (applied_checksums (cn_committed c)) target ?files = Inr []"
  proof (rule discover_again [OF pending])
    show "records (applied_checksums ?d) pending (applied_checksums (cn_committed c))"
      using recorded(1) c by blast
    show "opt_all (\<lambda>t. v \<le> t) target" if "applied_checksums (cn_committed c) v \<noteq> None" "applied_checksums ?d v = None" for v
      using recorded(2) [OF _ _ that] c discover_target [OF pending] by blast
  qed
  then show ?thesis by (simp add: migrate_def cur')
qed

theorem migrate_again_changes_nothing_witness:
  "\<exists>v c disk'. migrate id ex_sqlite (\<lambda>n. ''now'') (Some 1) (Some ex_listing) None (ex_connection ()) Map.empty = (Inr v, c, disk')
    \<and> migrate id ex_sqlite (\<lambda>n. ''later'') (Some 1) (Some ex_listing) None c disk' = (Inr (max_version (cn_committed c)), c, disk')"
proof -
  have pending: "discover id (applied_checksums (current (ex_connection ()))) (Some 1) (sort_key fst ex_listing)
      = Inr [(1, ''good'', ''good'')]" by code_simp
  have "\<exists>c. apply_migrations ex_sqlite (\<lambda>n. ''now'') 0 [(1, ''good'', ''good'')] (ex_connection ()) = (Inr (), c)"
    by (simp add: apply_migration_def executescript_def ex_connection_def ex_sqlite_def begin_transaction_def
        insert_migration_def commit_def current_def contains_def migration_script_def newline_def)
  then obtain c where "apply_migrations ex_sqlite (\<lambda>n. ''now'') 0 [(1, ''good'', ''good'')] (ex_connection ()) = (Inr (), c)" by blast
  then have run: "migrate id ex_sqlite (\<lambda>n. ''now'') (Some 1) (Some ex_listing) None (ex_connection ()) Map.empty = (Inr 1, c, Map.empty)"
    by (simp add: migrate_def pending run_backup_def) (simp add: ex_sqlite_def)
  have "cn_working (ex_connection ()) = None" "versions_distinct (cn_committed (ex_connection ()))"
    by (simp_all add: ex_connection_def versions_distinct_def)
  from migrate_again_changes_nothing [OF ex_sqlite_fields(1,2) this run] run show ?thesis by blast
qed

lemma discover_refuses:
  assumes "(name, file) \<in> set files" and "file_version name = Some v" and "read_text file = Inr content"
    and "applied v = Some h" and "H content \<noteq> h"
    and "\<And>n f v. (n, f) \<in> set files \<Longrightarrow> file_version n = Some v \<Longrightarrow> \<exists>t. read_text f = Inr t"
  shows "discover H applied None files = Inl (make_error IdentityConflict (Some (ec_value EC_IDENTITY_CONFLICT)))"
  using assms(1,6)
proof (induction files)
  case (Cons f files)
  obtain n f' where f: "f = (n, f')" by (cases f)
  show ?case
  proof (cases "f = (name, file)")
    case True
    with assms(2-5) show ?thesis by simp
  next
    case False
    with Cons have "discover H applied None files = Inl (make_error IdentityConflict (Some (ec_value EC_IDENTITY_CONFLICT)))"
      by (metis list.set_intros(2) set_ConsD)
    with Cons.prems(2) [of n f'] f show ?thesis
      by (cases "file_version n") (auto split: option.splits)
  qed
qed simp

text \<open>
  C35. A changed migration is refused. Without a target version, if the file of a recorded
  migration has other content than the recorded checksum, and every migration file is readable UTF-8 text, then
  \<open>migrate\<close> raises \<open>IdentityConflict\<close> before any backup or script: connection and backups are untouched.
\<close>

theorem changed_migration_is_refused:
  assumes "(name, bytes) \<in> set listing" and "file_version name = Some v" and "read_text bytes = Inr content"
    and "applied_checksums (current conn) v = Some h" and "H content \<noteq> h"
    and "\<And>n b v. (n, b) \<in> set listing \<Longrightarrow> file_version n = Some v \<Longrightarrow> \<exists>t. read_text b = Inr t"
  shows "migrate H sq now None (Some listing) backup conn disk
    = (Inl (make_error IdentityConflict (Some (ec_value EC_IDENTITY_CONFLICT))), conn, disk)"
proof -
  have "set (sort_key fst listing) = set listing" by simp
  then have "discover H (applied_checksums (current conn)) None (sort_key fst listing)
    = Inl (make_error IdentityConflict (Some (ec_value EC_IDENTITY_CONFLICT)))"
    using assms by (intro discover_refuses [where name = name and v = v]) auto
  then show ?thesis by (simp add: migrate_def)
qed

theorem changed_migration_is_refused_witness:
  "let conn = (ex_connection ())\<lparr>cn_committed := \<lparr>tables = (),
       schema_migrations = [\<lparr>sm_version = 1, sm_applied_at = ''t'', sm_checksum = ''old''\<rparr>]\<rparr>\<rparr> in
   migrate id ex_sqlite (\<lambda>n. ''now'') None (Some ex_listing) None conn Map.empty
     = (Inl (make_error IdentityConflict (Some (ec_value EC_IDENTITY_CONFLICT))), conn, Map.empty)"
proof -
  let ?conn = "(ex_connection ())\<lparr>cn_committed := \<lparr>tables = (),
       schema_migrations = [\<lparr>sm_version = 1, sm_applied_at = ''t'', sm_checksum = ''old''\<rparr>]\<rparr>\<rparr>"
  have in_listing: "(''001_a.sql'', Inr ''good'') \<in> set ex_listing" by (simp add: ex_listing_def)
  have version: "file_version ''001_a.sql'' = Some 1" by code_simp
  have content: "read_text (Inr ''good'') = Inr ''good''" "read_text (Inr ''bad'') = Inr ''bad''" by code_simp+
  have recorded: "applied_checksums (current ?conn) 1 = Some ''old''"
    by (simp add: applied_checksums_def current_def ex_connection_def)
  show ?thesis
    unfolding Let_def
    by (rule changed_migration_is_refused [OF in_listing version content(1) recorded])
      (auto simp: ex_listing_def content)
qed

definition ex_migrate :: "int option \<Rightarrow> (string \<times> string res) list \<Rightarrow> unit connection \<Rightarrow> int res \<times> unit connection" where
  "ex_migrate target listing conn =
    (case migrate id ex_sqlite (\<lambda>n. ''now'') target (Some listing) None conn Map.empty of (r, c, d) \<Rightarrow> (r, c))"

definition ex_unpadded :: "(string \<times> string res) list" where
  "ex_unpadded = [(''2_a.sql'', Inr ''a''), (''10_b.sql'', Inr ''b'')]"

definition ex_twice :: "(string \<times> string res) list" where
  "ex_twice = [(''001_a.sql'', Inr ''a''), (''1_b.sql'', Inr ''b'')]"

text \<open>
  Gaps of the migration runner. Files run in the order of their names, so without leading zeros
  version 10 is applied before version 2, the answer is 2 and a second run answers 10; with the target 5 nothing
  is applied, because version 10 ends the search before version 2 is seen. Two files with one version
  number: the first is applied, the second violates the primary key, and from then on every run is an \<open>IdentityConflict\<close>.
\<close>

lemma migration_gaps:
  "fst (ex_migrate None ex_unpadded (ex_connection ())) = Inr 2
   \<and> fst (ex_migrate None ex_unpadded (snd (ex_migrate None ex_unpadded (ex_connection ())))) = Inr 10
   \<and> ex_migrate (Some 5) ex_unpadded (ex_connection ()) = (Inr 0, (ex_connection ()))
   \<and> fst (ex_migrate None ex_twice (ex_connection ()))
      = Inl (integrity_error ''UNIQUE constraint failed: schema_migrations.version'')
   \<and> fst (ex_migrate None ex_twice (snd (ex_migrate None ex_twice (ex_connection ()))))
      = Inl (make_error IdentityConflict (Some (ec_value EC_IDENTITY_CONFLICT)))"
proof (intro conjI)
  show "fst (ex_migrate None ex_unpadded (ex_connection ())) = Inr 2" by code_simp
  show "fst (ex_migrate None ex_unpadded (snd (ex_migrate None ex_unpadded (ex_connection ())))) = Inr 10" by code_simp
  show "ex_migrate (Some 5) ex_unpadded (ex_connection ()) = (Inr 0, (ex_connection ()))" by code_simp
  show "fst (ex_migrate None ex_twice (ex_connection ()))
      = Inl (integrity_error ''UNIQUE constraint failed: schema_migrations.version'')" by code_simp
  show "fst (ex_migrate None ex_twice (snd (ex_migrate None ex_twice (ex_connection ()))))
      = Inl (make_error IdentityConflict (Some (ec_value EC_IDENTITY_CONFLICT)))" by code_simp
qed

end
