(* ===== verification/Local_Import.thy ===== *)
theory Local_Import
  imports Registry Artifacts Py_Files
begin

text \<open>
  The importer of local tasks: \<open>src/src/verifierci/adapters/local.py\<close> (and the protocol of
  \<open>adapters/base.py\<close>, whose methods it has). PyYAML is a parameter: \<open>yaml_tree\<close> parses a text into the tree of its nodes and
  \<open>construct\<close> turns a tree into Python values; the subclass \<open>RestrictedSafeLoader\<close>, which looks at
  the nodes between the two, is modelled. So are the answers of the file system, in the record \<open>file_system\<close>.
  Strings are Unicode text (no lone surrogates).
\<close>

section \<open>YAML\<close>

text \<open>The values \<open>SafeLoader\<close> constructs; a dictionary is its items with distinct keys.\<close>

datatype yaml =
    Y_null | Y_bool bool | Y_int int | Y_float pyfloat | Y_str string | Y_seq "yaml list"
  | Y_map "(yaml \<times> yaml) list" | Y_date string | Y_bytes string | Y_set "yaml list"

datatype ynode =
    N_alias | N_scalar string | N_seq "ynode list" | N_map "(ynode \<times> ynode) list"

abbreviation validation_error :: "'a res" where
  "validation_error \<equiv> Inl (make_error ValidationError (Some (ec_value EC_VALIDATION_ERROR)))"

definition protection_error :: "'a res" where
  "protection_error = Inl (make_error ProtectionError (Some (ec_value EC_PROTECTION_ERROR)))"

definition type_error :: "'a res" where
  "type_error = Inl (PyExc ''TypeError'' ''unsupported type'')"

definition MAX_YAML_DEPTH :: nat where "MAX_YAML_DEPTH = 32"

definition MAX_MANIFEST_BYTES :: int where "MAX_MANIFEST_BYTES = 2 * 1024 * 1024"

text \<open>
  \<open>RestrictedSafeLoader.compose_node\<close> on the node at the front, with the depth before it; the
  children of a node, keys before their values, are composed inside the call.
\<close>

function compose_node :: "nat \<Rightarrow> ynode \<Rightarrow> unit res"
  and compose_seq :: "nat \<Rightarrow> ynode list \<Rightarrow> unit res"
  and compose_map :: "nat \<Rightarrow> (ynode \<times> ynode) list \<Rightarrow> unit res" where
  "compose_node depth N_alias = validation_error"
| "compose_node depth (N_scalar s) = (if Suc depth > MAX_YAML_DEPTH then validation_error else Inr ())"
| "compose_node depth (N_seq ns) =
    (if Suc depth > MAX_YAML_DEPTH then validation_error else compose_seq (Suc depth) ns)"
| "compose_node depth (N_map kvs) =
    (if Suc depth > MAX_YAML_DEPTH then validation_error else compose_map (Suc depth) kvs)"
| "compose_seq depth [] = Inr ()"
| "compose_seq depth (n # ns) = bind_res (compose_node depth n) (\<lambda>_. compose_seq depth ns)"
| "compose_map depth [] = Inr ()"
| "compose_map depth ((k, v) # kvs) = bind_res (compose_node depth k) (\<lambda>_.
     bind_res (compose_node depth v) (\<lambda>_. compose_map depth kvs))"
  by pat_completeness auto
termination compose_node
  by (relation "measure (case_sum (size \<circ> snd) (case_sum (size_list size \<circ> snd)
      (size_list (size_prod size size) \<circ> snd)))") auto

text \<open>
  \<open>yaml_tree\<close> answers no tree for an empty document; a \<open>yaml.YAMLError\<close> of the parser or the
  constructor is caught, and so far as the values tell it is the same error whether the parser or
  the loader objects first. Other exceptions of the constructor are not caught.
\<close>

record yaml_library =
  yl_tree :: "string \<Rightarrow> ynode option res"
  yl_construct :: "ynode \<Rightarrow> yaml res"
  yl_repr :: "yaml \<Rightarrow> string"

definition catch_yaml_error :: "'a res \<Rightarrow> 'a res" where
  "catch_yaml_error r = (case r of
     Inl (PyExc cls msg) \<Rightarrow> if cls = ''yaml.YAMLError'' then validation_error else r
   | _ \<Rightarrow> r)"

definition yaml_load :: "yaml_library \<Rightarrow> string \<Rightarrow> yaml res" where
  "yaml_load yl content = catch_yaml_error (bind_res (yl_tree yl content) (\<lambda>document. case document of
     None \<Rightarrow> Inr Y_null
   | Some node \<Rightarrow> bind_res (compose_node 0 node) (\<lambda>_. yl_construct yl node)))"

section \<open>Python's view of a YAML value\<close>

text \<open>\<open>str(x)\<close>; the representation of containers and floats is the parameter \<open>rp\<close>.\<close>

definition str_of :: "(yaml \<Rightarrow> string) \<Rightarrow> yaml \<Rightarrow> string" where
  "str_of rp x = (case x of
     Y_null \<Rightarrow> ''None''
   | Y_bool b \<Rightarrow> if b then ''True'' else ''False''
   | Y_int n \<Rightarrow> str_of_int n
   | Y_str s \<Rightarrow> s
   | Y_date s \<Rightarrow> s
   | _ \<Rightarrow> rp x)"

text \<open>\<open>d.get(key)\<close> and \<open>d.get(key, default)\<close>; a key with the value null is present.\<close>

type_synonym ydict = "(yaml \<times> yaml) list"

definition get_key :: "ydict \<Rightarrow> string \<Rightarrow> yaml option" where
  "get_key d k = map_of d (Y_str k)"

definition get_or :: "ydict \<Rightarrow> string \<Rightarrow> yaml \<Rightarrow> yaml" where
  "get_or d k v = (case get_key d k of Some x \<Rightarrow> x | None \<Rightarrow> v)"

text \<open>\<open>tuple(str(x) for x in v)\<close>: a text is a sequence of characters, a dictionary one of its keys.\<close>

definition str_tuple :: "(yaml \<Rightarrow> string) \<Rightarrow> yaml \<Rightarrow> string list res" where
  "str_tuple rp v = (case v of
     Y_seq xs \<Rightarrow> Inr (map (str_of rp) xs)
   | Y_map kvs \<Rightarrow> Inr (map (str_of rp \<circ> fst) kvs)
   | Y_set xs \<Rightarrow> Inr (map (str_of rp) xs)
   | Y_str s \<Rightarrow> Inr (chars_of s)
   | Y_bytes bs \<Rightarrow> Inr (map (\<lambda>c. str_of_int (of_char c)) bs)
   | _ \<Rightarrow> type_error)"

text \<open>\<open>int(x)\<close>\<close>

definition int_of :: "yaml \<Rightarrow> int res" where
  "int_of v = (case v of
     Y_bool b \<Rightarrow> Inr (if b then 1 else 0)
   | Y_int n \<Rightarrow> Inr n
   | Y_float f \<Rightarrow> (case f of
       PFin q \<Rightarrow> Inr (if q < 0 then - \<lfloor>- q\<rfloor> else \<lfloor>q\<rfloor>)
     | PNaN \<Rightarrow> Inl (PyExc ''ValueError'' ''cannot convert float NaN to integer'')
     | _ \<Rightarrow> Inl (PyExc ''OverflowError'' ''cannot convert float infinity to integer''))
   | Y_str s \<Rightarrow> (case py_int s of Some n \<Rightarrow> Inr n | None \<Rightarrow> Inl (PyExc ''ValueError'' ''invalid literal for int()''))
   | Y_bytes s \<Rightarrow> (case py_int s of Some n \<Rightarrow> Inr n | None \<Rightarrow> Inl (PyExc ''ValueError'' ''invalid literal for int()''))
   | _ \<Rightarrow> type_error)"

text \<open>\<open>x if x in options else default\<close>\<close>

definition one_of :: "string list \<Rightarrow> string \<Rightarrow> yaml \<Rightarrow> string" where
  "one_of options fallback v = (case v of Y_str s \<Rightarrow> if s \<in> set options then s else fallback | _ \<Rightarrow> fallback)"

section \<open>Files\<close>

text \<open>
  \<open>fs_regular d\<close> is what \<open>rglob("*")\<close> lists below \<open>d\<close> of the files that are not links: their relative
  POSIX path and their bytes.
\<close>

record file_system =
  fs_is_symlink :: "string \<Rightarrow> bool"
  fs_is_file :: "string \<Rightarrow> bool"
  fs_is_dir :: "string \<Rightarrow> bool"
  fs_size :: "string \<Rightarrow> int"
  fs_bytes :: "string \<Rightarrow> string res"
  fs_resolve :: "string \<Rightarrow> string res"
  fs_regular :: "string \<Rightarrow> (string \<times> string res) list"

definition safe_load_yaml :: "yaml_library \<Rightarrow> file_system \<Rightarrow> string \<Rightarrow> ydict res" where
  "safe_load_yaml yl fs path =
    (if fs_is_symlink fs path then protection_error
     else if \<not> fs_is_file fs path then validation_error
     else if fs_size fs path > MAX_MANIFEST_BYTES
     then Inl (make_error ValidationError (Some (ec_value EC_ARTIFACT_LIMIT)))
     else bind_res (read_text (fs_bytes fs path)) (\<lambda>content.
       bind_res (yaml_load yl content) (\<lambda>data.
         case data of Y_map d \<Rightarrow> Inr d | _ \<Rightarrow> validation_error)))"

text \<open>
  \<open>_resolve_relative_path\<close>. \<open>Path.resolve\<close> raises a \<open>ValueError\<close> for a null byte and a \<open>RuntimeError\<close>
  for a loop of links; a \<open>ProtectionError\<close> raised inside the block is neither.
\<close>

definition resolve_relative_path :: "file_system \<Rightarrow> string \<Rightarrow> string \<Rightarrow> string res" where
  "resolve_relative_path fs root_dir rel_path_str =
    (if ''..'' \<in> set (split_on CHR ''/'' (map (\<lambda>c. if c = backslash then CHR ''/'' else c) rel_path_str))
     then protection_error
     else let p = join_path root_dir rel_path_str in
       if fs_is_symlink fs p then protection_error
       else case bind_res (fs_resolve fs p) (\<lambda>resolved. bind_res (fs_resolve fs root_dir) (\<lambda>resolved_root.
           Inr (is_relative_to resolved resolved_root))) of
         Inl (PyExc cls msg) \<Rightarrow>
           if cls \<in> {''ValueError'', ''RuntimeError''} then protection_error else Inl (PyExc cls msg)
       | Inl (VCI c code) \<Rightarrow> Inl (VCI c code)
       | Inr False \<Rightarrow> protection_error
       | Inr True \<Rightarrow> Inr p)"

section \<open>read\_local\_manifest\<close>

record LocalImportManifest =
  lim_schema_version :: string
  lim_task :: Task
  lim_contract_file :: string
  lim_snapshot_file :: string
  lim_environment_file :: string
  lim_requirement_files :: "string list"
  lim_verifier_file :: string
  lim_control_files :: "string list"

definition utc :: "datetime \<Rightarrow> any_datetime" where
  "utc t = \<lparr>dt_instant = t, dt_offset = Some 0\<rparr>"

definition ELIGIBILITIES :: "string list" where
  "ELIGIBILITIES = [''eligible'', ''excluded'', ''pending'']"

text \<open>
  A field of the task: of the section \<open>task\<close> if it is a dictionary with entries, else of the
  manifest itself, else the default.
\<close>

definition task_section :: "ydict \<Rightarrow> ydict" where
  "task_section data = (case get_or data ''task'' (Y_map []) of Y_map t \<Rightarrow> t | _ \<Rightarrow> [])"

definition task_field :: "ydict \<Rightarrow> string \<Rightarrow> yaml \<Rightarrow> yaml" where
  "task_field data k fallback = get_or (task_section data) k (get_or data k fallback)"

definition task_envelope :: "(yaml \<Rightarrow> string) \<Rightarrow> datetime \<Rightarrow> string \<Rightarrow> ydict \<Rightarrow> Task" where
  "task_envelope rp now path data =
    (let task_id = str_of rp (task_field data ''task_id'' (Y_str (path_stem path)));
         version = str_of rp (task_field data ''version'' (Y_str ''1.0.0''))
     in \<lparr>t_task_key = task_id @ ''@'' @ version, t_task_id = task_id, t_version = version,
       t_statement = str_of rp (task_field data ''statement'' (Y_str [])),
       t_adapter = str_of rp (get_or data ''adapter'' (Y_str ''local'')),
       t_contract_hash = replicate 64 CHR ''0'', t_snapshot_digest = replicate 64 CHR ''0'',
       t_environment_id = task_id @ ''-env'',
       t_licence = str_of rp (task_field data ''licence'' (Y_str ''Apache-2.0'')),
       t_provenance = str_of rp (task_field data ''provenance'' (Y_str path)),
       t_eligibility = one_of ELIGIBILITIES ''eligible'' (task_field data ''eligibility'' (Y_str ''eligible'')),
       t_notes = str_of rp (task_field data ''notes'' (Y_str [])),
       t_created_at = utc now\<rparr>)"

definition schema_version_of :: "(yaml \<Rightarrow> string) \<Rightarrow> ydict \<Rightarrow> string" where
  "schema_version_of rp data =
    str_of rp (get_or data ''schema_version'' (get_or data ''version'' (Y_str ''1.0.0'')))"

definition check_paths :: "file_system \<Rightarrow> string \<Rightarrow> string list \<Rightarrow> unit res" where
  "check_paths fs root_dir paths = bind_res (map_res (resolve_relative_path fs root_dir) paths) (\<lambda>_. Inr ())"

definition read_local_manifest ::
    "(yaml \<Rightarrow> string) \<Rightarrow> file_system \<Rightarrow> datetime \<Rightarrow> string \<Rightarrow> ydict \<Rightarrow> LocalImportManifest res" where
  "read_local_manifest rp fs now path data =
    (let root_dir = path_parent path;
         resolve = (\<lambda>f. check_paths fs root_dir [f]);
         contract_file = str_of rp (get_or data ''contract_file'' (get_or data ''contract'' (Y_str ''contract.yaml'')));
         snapshot_file = str_of rp (get_or data ''snapshot_file'' (get_or data ''snapshot'' (Y_str ''source/'')));
         environment_file = (case get_or data ''environment_file'' (get_or data ''environment'' (Y_map [])) of
           Y_str s \<Rightarrow> s | _ \<Rightarrow> ''environment.yaml'');
         verifier_file = str_of rp (get_or data ''verifier_file'' (get_or data ''verifier'' (Y_str ''v1.yaml'')))
     in if get_key data ''task_id'' = None \<and> get_key data ''task'' = None then validation_error
     else bind_res (resolve contract_file) (\<lambda>_.
       bind_res (resolve snapshot_file) (\<lambda>_.
       bind_res (resolve environment_file) (\<lambda>_.
       bind_res (str_tuple rp (get_or data ''requirement_files'' (Y_seq []))) (\<lambda>requirement_files.
       bind_res (check_paths fs root_dir requirement_files) (\<lambda>_.
       bind_res (resolve verifier_file) (\<lambda>_.
       bind_res (str_tuple rp (get_or data ''control_files'' (Y_seq []))) (\<lambda>control_files.
       bind_res (check_paths fs root_dir control_files) (\<lambda>_.
       Inr \<lparr>lim_schema_version = schema_version_of rp data, lim_task = task_envelope rp now path data,
         lim_contract_file = contract_file, lim_snapshot_file = snapshot_file,
         lim_environment_file = environment_file, lim_requirement_files = requirement_files,
         lim_verifier_file = verifier_file, lim_control_files = control_files\<rparr>)))))))))"

text \<open>\<open>read_local_manifest(path)\<close> without the data loads the file.\<close>

definition read_manifest_file ::
    "yaml_library \<Rightarrow> file_system \<Rightarrow> datetime \<Rightarrow> string \<Rightarrow> LocalImportManifest res" where
  "read_manifest_file yl fs now path =
    bind_res (safe_load_yaml yl fs path) (read_local_manifest (yl_repr yl) fs now path)"

section \<open>import\_task\<close>

record ImportRequest =
  ir_adapter :: string
  ir_instance :: string
  ir_source :: string
  ir_source_revision :: string
  ir_environment_manifest :: "string option"
  ir_output_dir :: string
  ir_dry_run :: bool

record RepositorySnapshot =
  rs_snapshot_digest :: string
  rs_repository_id :: string
  rs_commit_oid :: string
  rs_archive_uri :: string
  rs_tree_digest :: string
  rs_submodule_digests :: "string list"
  rs_lock_digests :: "string list"
  rs_licence :: string
  rs_created_at :: datetime

text \<open>The image digest and the platform are taken from the file as they are.\<close>

record Environment =
  en_environment_id :: string
  en_backend :: string
  en_image_digest :: yaml
  en_platform :: yaml
  en_recipe_digest :: string
  en_lock_digests :: "string list"
  en_service_manifests :: "string list"
  en_resource_policy_hash :: string
  en_runtime_fingerprint :: string
  en_mirror_uris :: "string list"

record ImportBundle =
  ib_task :: Task
  ib_contract :: Contract
  ib_requirements :: "Requirement list"
  ib_snapshot :: RepositorySnapshot
  ib_environment :: Environment
  ib_verifier :: VerifierVersion
  ib_verifier_manifest :: VerifierManifest
  ib_controls :: "PatchCase list"
  ib_upstream_artifact :: Artifact
  ib_diagnostics :: "string list"

definition supports :: "string \<Rightarrow> bool" where
  "supports task_id \<longleftrightarrow> task_id \<noteq> []"

definition SUPPORTED_LOCAL_VERSIONS :: "string list" where
  "SUPPORTED_LOCAL_VERSIONS = [''1.0'', ''1.0.0'']"

definition supported_source_version :: "string \<Rightarrow> bool" where
  "supported_source_version version \<longleftrightarrow> version \<in> set SUPPORTED_LOCAL_VERSIONS"

definition BACKENDS :: "string list" where
  "BACKENDS = [''fixture'', ''docker'']"

text \<open>\<open>not image_digest or "@sha256:" not in image_digest\<close>\<close>

definition unpinned :: "yaml \<Rightarrow> bool res" where
  "unpinned img = (case img of
     Y_null \<Rightarrow> Inr True
   | Y_str s \<Rightarrow> Inr (s = [] \<or> \<not> contains ''@sha256:'' s)
   | Y_seq xs \<Rightarrow> Inr (Y_str ''@sha256:'' \<notin> set xs)
   | Y_set xs \<Rightarrow> Inr (Y_str ''@sha256:'' \<notin> set xs)
   | Y_map kvs \<Rightarrow> Inr (Y_str ''@sha256:'' \<notin> fst ` set kvs)
   | Y_bool b \<Rightarrow> if b then type_error else Inr True
   | Y_int n \<Rightarrow> if n \<noteq> 0 then type_error else Inr True
   | Y_float f \<Rightarrow> if f \<noteq> PFin 0 then type_error else Inr True
   | Y_bytes s \<Rightarrow> if s \<noteq> [] then type_error else Inr True
   | Y_date s \<Rightarrow> type_error)"

definition validate_environment :: "Environment \<Rightarrow> unit res" where
  "validate_environment env =
    (if en_backend env \<notin> set BACKENDS then validation_error
     else if en_backend env \<noteq> ''docker'' then Inr ()
     else bind_res (unpinned (en_image_digest env)) (\<lambda>bad. if bad then validation_error else Inr ()))"

text \<open>One requirement of the contract file, hashed.\<close>

definition import_requirement ::
    "(string \<Rightarrow> string) \<Rightarrow> (pyfloat \<Rightarrow> string) \<Rightarrow> (yaml \<Rightarrow> string) \<Rightarrow> yaml \<Rightarrow> Requirement res" where
  "import_requirement H fr rp r = (case r of
     Y_map d \<Rightarrow> bind_res (str_tuple rp (get_or d ''evidence_digests'' (Y_seq []))) (\<lambda>ev_digests.
       let req_obj = \<lparr>rq_requirement_hash = ''temp'',
         rq_requirement_id = str_of rp (get_or d ''requirement_id'' (Y_str ''REQ'')),
         rq_text = strip (str_of rp (get_or d ''text'' (Y_str []))),
         rq_source_kind = one_of [''explicit'', ''repository'', ''clarification''] ''explicit''
           (get_or d ''source_kind'' (Y_str ''explicit'')),
         rq_evidence_digests = ev_digests,
         rq_source_locator = str_of rp (get_or d ''source_locator'' (Y_str ''contract.yaml'')),
         rq_allowed_variation = str_of rp (get_or d ''allowed_variation'' (Y_str ''None''))\<rparr>
       in bind_res (requirement_hash H fr req_obj) (\<lambda>req_hash. Inr (req_obj\<lparr>rq_requirement_hash := req_hash\<rparr>)))
   | _ \<Rightarrow> validation_error)"

definition import_requirements ::
    "(string \<Rightarrow> string) \<Rightarrow> (pyfloat \<Rightarrow> string) \<Rightarrow> (yaml \<Rightarrow> string) \<Rightarrow> ydict \<Rightarrow> Requirement list res" where
  "import_requirements H fr rp contract_data = (case get_or contract_data ''requirements'' (Y_seq []) of
     Y_seq raw_reqs \<Rightarrow> map_res (import_requirement H fr rp) raw_reqs
   | _ \<Rightarrow> validation_error)"

definition import_contract ::
    "(string \<Rightarrow> string) \<Rightarrow> (pyfloat \<Rightarrow> string) \<Rightarrow> (yaml \<Rightarrow> string) \<Rightarrow> datetime \<Rightarrow> Task \<Rightarrow> ydict
     \<Rightarrow> Requirement list \<Rightarrow> Contract res" where
  "import_contract H fr rp now task contract_data requirements =
    bind_res (str_tuple rp (get_or contract_data ''unresolved_questions'' (Y_seq []))) (\<lambda>questions.
      let contract_obj = \<lparr>ct_contract_hash = ''temp'', ct_task_id = t_task_id task, ct_version = t_version task,
        ct_requirement_hashes = map rq_requirement_hash requirements,
        ct_allowed_variation = str_of rp (get_or contract_data ''allowed_variation'' (Y_str ''None'')),
        ct_unresolved_questions = questions, ct_evidence_digests = [], ct_created_at = now\<rparr>
      in bind_res (contract_hash H fr contract_obj) (\<lambda>chash. Inr (contract_obj\<lparr>ct_contract_hash := chash\<rparr>)))"

definition environment_of ::
    "(string \<Rightarrow> string) \<Rightarrow> (yaml \<Rightarrow> string) \<Rightarrow> string \<Rightarrow> ydict \<Rightarrow> Environment res" where
  "environment_of H rp task_id env = (case get_or env ''backend'' (Y_str ''fixture'') of
     Y_str backend \<Rightarrow>
       if backend \<notin> set BACKENDS then validation_error
       else Inr \<lparr>en_environment_id = task_id @ ''-env'', en_backend = backend,
         en_image_digest = get_or env ''image_digest'' Y_null,
         en_platform = get_or env ''platform'' (Y_str ''linux/arm64''),
         en_recipe_digest = H ''fixture-recipe'', en_lock_digests = [], en_service_manifests = [],
         en_resource_policy_hash = H ''default-policy'',
         en_runtime_fingerprint = str_of rp (get_or env ''runtime_fingerprint'' (Y_str ''cpython-3.12'')),
         en_mirror_uris = []\<rparr>
   | _ \<Rightarrow> validation_error)"

definition import_environment ::
    "(string \<Rightarrow> string) \<Rightarrow> yaml_library \<Rightarrow> file_system \<Rightarrow> string \<Rightarrow> ydict \<Rightarrow> LocalImportManifest
     \<Rightarrow> Environment res" where
  "import_environment H yl fs root_dir manifest_data local_manifest =
    (let inline = (case get_or manifest_data ''environment'' Y_null of Y_map d \<Rightarrow> d | _ \<Rightarrow> []);
         loaded = (if inline = [] \<and> lim_environment_file local_manifest \<noteq> []
           then bind_res (resolve_relative_path fs root_dir (lim_environment_file local_manifest)) (safe_load_yaml yl fs)
           else Inr inline)
     in bind_res loaded (environment_of H (yl_repr yl) (t_task_id (lim_task local_manifest))))"

text \<open>
  The text whose hash is the snapshot digest: for each file in the order of the paths (by their parts)
  its path, a null byte, and its content.
\<close>

definition nul :: char where "nul = CHR 0x00"

fun snapshot_text :: "(string \<times> string res) list \<Rightarrow> string res" where
  "snapshot_text [] = Inr []"
| "snapshot_text ((rel_posix, bytes) # files) =
    bind_res bytes (\<lambda>b. bind_res (snapshot_text files) (\<lambda>t. Inr (rel_posix @ [nul] @ b @ t)))"

definition snapshot_digest_of :: "(string \<Rightarrow> string) \<Rightarrow> (string \<times> string res) list \<Rightarrow> string res" where
  "snapshot_digest_of H files =
    bind_res (snapshot_text (sort_key (\<lambda>f. split_on CHR ''/'' (fst f)) files)) (\<lambda>t. Inr (H t))"

definition import_snapshot ::
    "(string \<Rightarrow> string) \<Rightarrow> file_system \<Rightarrow> datetime \<Rightarrow> string \<Rightarrow> LocalImportManifest \<Rightarrow> RepositorySnapshot res" where
  "import_snapshot H fs now root_dir local_manifest =
    (let snapshot_dir = join_path root_dir (lim_snapshot_file local_manifest) in
     if \<not> fs_is_dir fs snapshot_dir then validation_error
     else bind_res (snapshot_digest_of H (fs_regular fs snapshot_dir)) (\<lambda>snapshot_digest.
       Inr \<lparr>rs_snapshot_digest = snapshot_digest, rs_repository_id = t_task_id (lim_task local_manifest),
         rs_commit_oid = ''HEAD'', rs_archive_uri = snapshot_dir, rs_tree_digest = snapshot_digest,
         rs_submodule_digests = [], rs_lock_digests = [], rs_licence = t_licence (lim_task local_manifest),
         rs_created_at = now\<rparr>))"

text \<open>The verifier file: its manifest with the hash of the manifest.\<close>

definition import_verifier_manifest ::
    "(string \<Rightarrow> string) \<Rightarrow> (pyfloat \<Rightarrow> string) \<Rightarrow> (yaml \<Rightarrow> string) \<Rightarrow> string res \<Rightarrow> ydict \<Rightarrow> VerifierManifest res" where
  "import_verifier_manifest H fr rp file_bytes d =
    bind_res (str_tuple rp (get_or d ''command'' (Y_seq [Y_str ''pytest'', Y_str ''tests/'']))) (\<lambda>v_cmd.
    bind_res (str_tuple rp (get_or d ''build_command'' (Y_seq []))) (\<lambda>v_bcmd.
    bind_res (str_tuple rp (get_or d ''expected_collection'' (Y_seq []))) (\<lambda>v_exp.
    bind_res (str_tuple rp (get_or d ''required_pass_ids'' (Y_seq []))) (\<lambda>v_req.
    bind_res (str_tuple rp (get_or d ''permitted_skips'' (Y_seq []))) (\<lambda>v_skips.
    bind_res (str_tuple rp (get_or d ''allowed_edit_paths'' (Y_seq [Y_str ''src/'']))) (\<lambda>v_edits.
    bind_res (int_of (get_or d ''timeout_seconds'' (Y_int 60))) (\<lambda>v_timeout.
    bind_res file_bytes (\<lambda>bytes.
      let v_man_obj = \<lparr>vm_manifest_hash = ''temp'',
        vm_mode = one_of [''compatibility'', ''blackbox''] ''compatibility'' (get_or d ''mode'' (Y_str ''compatibility'')),
        vm_command = v_cmd, vm_build_command = v_bcmd, vm_expected_collection = v_exp,
        vm_parser_id = str_of rp (get_or d ''parser_id'' (Y_str ''pytest-report-v1'')),
        vm_report_path = str_of rp (get_or d ''report_path'' (Y_str ''report.json'')),
        vm_payload_digest = H bytes, vm_allowed_edit_paths = v_edits, vm_required_pass_ids = v_req,
        vm_permitted_skips = v_skips, vm_timeout_seconds = v_timeout\<rparr>
      in bind_res (manifest_hash H fr v_man_obj) (\<lambda>mhash. Inr (v_man_obj\<lparr>vm_manifest_hash := mhash\<rparr>))))))))))"

definition import_verifier ::
    "(yaml \<Rightarrow> string) \<Rightarrow> datetime \<Rightarrow> Task \<Rightarrow> string \<Rightarrow> VerifierManifest \<Rightarrow> ydict \<Rightarrow> VerifierVersion" where
  "import_verifier rp now task chash manifest d =
    (let verifier_id = str_of rp (get_or d ''verifier_id'' (Y_str (t_task_id task @ ''-v1'')));
         verifier_ver = str_of rp (get_or d ''version'' (Y_str ''1.0.0''))
     in \<lparr>vv_verifier_key = verifier_id @ ''@'' @ verifier_ver, vv_verifier_id = verifier_id,
       vv_version = verifier_ver, vv_parent_key = None, vv_manifest_hash = vm_manifest_hash manifest,
       vv_payload_digest = vm_payload_digest manifest, vv_compatible_contract_hashes = [chash],
       vv_created_at = now\<rparr>)"

text \<open>The control cases; a file that is missing is skipped.\<close>

fun import_controls ::
    "(string \<Rightarrow> string) \<Rightarrow> file_system \<Rightarrow> (nat \<Rightarrow> datetime) \<Rightarrow> nat \<Rightarrow> string \<Rightarrow> Task \<Rightarrow> string list
     \<Rightarrow> PatchCase list res" where
  "import_controls H fs now n root_dir task [] = Inr []"
| "import_controls H fs now n root_dir task (ctrl_path_str # ctrls) =
    bind_res (resolve_relative_path fs root_dir ctrl_path_str) (\<lambda>cp.
      if \<not> fs_is_file fs cp then import_controls H fs now n root_dir task ctrls
      else bind_res (fs_bytes fs cp) (\<lambda>diff_bytes.
        let case_record = \<lparr>pc_case_id = t_task_id task @ ''-ctrl-'' @ path_stem cp, pc_task_key = t_task_key task,
          pc_diff_digest = H diff_bytes, pc_base_snapshot_digest = t_snapshot_digest task,
          pc_source = ''reference'', pc_source_run_id = None, pc_parent_case_ids = [],
          pc_family_id = ''reference-family'', pc_role = R_reference, pc_provenance_digest = H cp,
          pc_licence = t_licence task, pc_created_at = now n\<rparr>
        in bind_res (import_controls H fs now (Suc n) root_dir task ctrls) (\<lambda>cases. Inr (case_record # cases))))"

definition upstream_artifact_of ::
    "(string \<Rightarrow> string) \<Rightarrow> datetime \<Rightarrow> string \<Rightarrow> string \<Rightarrow> Artifact" where
  "upstream_artifact_of H now uri raw_bytes = \<lparr>art_digest = H raw_bytes, art_kind = ''manifest'',
     art_size_bytes = int (length raw_bytes), art_storage_uri = uri, art_media_type = ''application/yaml'',
     art_access_policy = ''public'', art_retention_until = None, art_available = True, art_created_at = now\<rparr>"

text \<open>The final task: the envelope with the computed identities.\<close>

definition final_task :: "datetime \<Rightarrow> Task \<Rightarrow> string \<Rightarrow> string \<Rightarrow> Task" where
  "final_task now task chash snapshot_digest = task\<lparr>t_adapter := ''local'', t_contract_hash := chash,
     t_snapshot_digest := snapshot_digest, t_environment_id := t_task_id task @ ''-env'', t_created_at := utc now\<rparr>"

text \<open>\<open>now n\<close> is the \<open>n\<close>th reading of the clock that is kept.\<close>

definition import_task ::
    "(string \<Rightarrow> string) \<Rightarrow> (pyfloat \<Rightarrow> string) \<Rightarrow> yaml_library \<Rightarrow> file_system \<Rightarrow> (nat \<Rightarrow> datetime) \<Rightarrow> ImportRequest
     \<Rightarrow> ImportBundle res" where
  "import_task H fr yl fs now request =
    (let manifest_path = path_of (ir_source request); root_dir = path_parent manifest_path; rp = yl_repr yl in
     if \<not> fs_is_file fs manifest_path then validation_error
     else if fs_size fs manifest_path > MAX_MANIFEST_BYTES then validation_error
     else bind_res (fs_bytes fs manifest_path) (\<lambda>raw_bytes.
       bind_res (fs_resolve fs manifest_path) (\<lambda>uri.
       bind_res (safe_load_yaml yl fs manifest_path) (\<lambda>manifest_data.
       bind_res (read_local_manifest rp fs (now 1) manifest_path manifest_data) (\<lambda>local_manifest.
       if \<not> supported_source_version (lim_schema_version local_manifest) then validation_error
       else bind_res (resolve_relative_path fs root_dir (lim_contract_file local_manifest)) (\<lambda>contract_path.
       bind_res (safe_load_yaml yl fs contract_path) (\<lambda>contract_data.
       bind_res (import_requirements H fr rp contract_data) (\<lambda>requirements.
       bind_res (import_contract H fr rp (now 2) (lim_task local_manifest) contract_data requirements) (\<lambda>contract.
       bind_res (import_environment H yl fs root_dir manifest_data local_manifest) (\<lambda>environment.
       bind_res (import_snapshot H fs (now 3) root_dir local_manifest) (\<lambda>snapshot.
       bind_res (resolve_relative_path fs root_dir (lim_verifier_file local_manifest)) (\<lambda>verifier_path.
       bind_res (safe_load_yaml yl fs verifier_path) (\<lambda>verifier_data.
       bind_res (import_verifier_manifest H fr rp (fs_bytes fs verifier_path) verifier_data) (\<lambda>verifier_manifest.
       let chash = ct_contract_hash contract;
           verifier = import_verifier rp (now 4) (lim_task local_manifest) chash verifier_manifest verifier_data;
           task = final_task (now 5) (lim_task local_manifest) chash (rs_snapshot_digest snapshot)
       in bind_res (validate_task H fr task contract) (\<lambda>_.
       bind_res (import_controls H fs now 6 root_dir task (lim_control_files local_manifest)) (\<lambda>controls.
       bind_res (validate_environment environment) (\<lambda>_.
       Inr \<lparr>ib_task = task, ib_contract = contract, ib_requirements = requirements, ib_snapshot = snapshot,
         ib_environment = environment, ib_verifier = verifier, ib_verifier_manifest = verifier_manifest,
         ib_controls = controls, ib_upstream_artifact = upstream_artifact_of H (now 0) uri raw_bytes,
         ib_diagnostics = []\<rparr>)))))))))))))))))"

end
