(* ===== verification/Import_Properties.thy ===== *)
theory Import_Properties
  imports Local_Import
begin

text \<open>
  What the importer of local tasks promises: a bundle whose identities fit together, references that stay
  inside the directory of the manifest, and a loader that bounds what it composes; and where
  it promises less than it seems to.
\<close>

section \<open>The restricted loader\<close>

text \<open>The nodes on the longest path of a tree, and the trees without aliases.\<close>

primrec node_height :: "ynode \<Rightarrow> nat" where
  "node_height N_alias = 1"
| "node_height (N_scalar s) = 1"
| "node_height (N_seq ns) = Suc (foldr max (map node_height ns) 0)"
| "node_height (N_map kvs) = Suc (foldr max (map (\<lambda>(k, v). max k v) (map (map_prod node_height node_height) kvs)) 0)"

primrec alias_free :: "ynode \<Rightarrow> bool" where
  "alias_free N_alias = False"
| "alias_free (N_scalar s) = True"
| "alias_free (N_seq ns) = list_all id (map alias_free ns)"
| "alias_free (N_map kvs) = list_all (\<lambda>(k, v). k \<and> v) (map (map_prod alias_free alias_free) kvs)"

lemma alias_free_map: "alias_free (N_map kvs) \<longleftrightarrow> (\<forall>(k, v) \<in> set kvs. alias_free k \<and> alias_free v)"
  by (auto simp: list_all_iff)

lemma catch_yaml_error_simps [simp]:
  "catch_yaml_error (Inl (make_error c code)) = Inl (make_error c code)" "catch_yaml_error (Inr y) = Inr y"
  by (simp_all add: catch_yaml_error_def make_error_def)

lemma compose_node_iff:
  "compose_node depth n = (if alias_free n \<and> depth + node_height n \<le> MAX_YAML_DEPTH then Inr () else validation_error)"
  "compose_seq depth ns = (if list_all (\<lambda>n. alias_free n \<and> depth + node_height n \<le> MAX_YAML_DEPTH) ns
    then Inr () else validation_error)"
  "compose_map depth kvs = (if list_all (\<lambda>(k, v). alias_free k \<and> alias_free v
    \<and> depth + node_height k \<le> MAX_YAML_DEPTH \<and> depth + node_height v \<le> MAX_YAML_DEPTH) kvs
    then Inr () else validation_error)"
proof (induction depth n and depth ns and depth kvs rule: compose_node_compose_seq_compose_map.induct)
  case (3 depth ns)
  have "d + foldr max (map node_height ns) 0 \<le> m \<longleftrightarrow> d \<le> m \<and> (\<forall>n \<in> set ns. d + node_height n \<le> m)" for d m
    by (induction ns) auto
  from 3 this [of "Suc depth" MAX_YAML_DEPTH] show ?case
    by (auto simp: list_all_iff)
next
  case (4 depth kvs)
  have "d + foldr max (map (\<lambda>(k, v). max k v) (map (map_prod node_height node_height) kvs)) 0 \<le> m \<longleftrightarrow>
      d \<le> m \<and> (\<forall>(k, v) \<in> set kvs. d + node_height k \<le> m \<and> d + node_height v \<le> m)" for d m
    by (induction kvs) auto
  from 4 this [of "Suc depth" MAX_YAML_DEPTH] show ?case
    by (auto simp: alias_free_map list_all_iff case_prod_unfold simp del: alias_free.simps(4))
qed (auto simp: list_all_iff)

text \<open>
  The loader bounds what it composes. A document without syntax errors is constructed exactly
  if no alias occurs in it and no path of nested nodes is longer than 32; every other document that
  has a node is a \<open>ValidationError\<close>, and an empty one is null.
\<close>

lemma yaml_load_is_restricted:
  assumes "yl_tree yl content = Inr document"
  shows "yaml_load yl content = (case document of
     None \<Rightarrow> Inr Y_null
   | Some node \<Rightarrow> if alias_free node \<and> node_height node \<le> 32 then catch_yaml_error (yl_construct yl node)
     else validation_error)"
  using assms by (simp add: yaml_load_def compose_node_iff(1) MAX_YAML_DEPTH_def split: option.split)

lemma yaml_load_is_restricted_witness:
  "let yl = \<lparr>yl_tree = (\<lambda>s. Inr (Some (N_seq [N_scalar s, N_alias]))), yl_construct = (\<lambda>n. Inr Y_null), yl_repr = (\<lambda>y. [])\<rparr>
   in yaml_load yl ''a'' = validation_error"
  unfolding Let_def
  by (subst yaml_load_is_restricted [where document = "Some (N_seq [N_scalar ''a'', N_alias])"]) simp_all

section \<open>References\<close>

definition inside :: "file_system \<Rightarrow> string \<Rightarrow> string \<Rightarrow> bool" where
  "inside fs root_dir f \<longleftrightarrow> \<not> fs_is_symlink fs (join_path root_dir f)
     \<and> (\<exists>p r. fs_resolve fs (join_path root_dir f) = Inr p \<and> fs_resolve fs root_dir = Inr r \<and> is_relative_to p r)"

lemma resolve_relative_path_inside:
  assumes "resolve_relative_path fs root_dir f = Inr p"
  shows "p = join_path root_dir f" and "inside fs root_dir f"
  using assms
  by (auto simp: resolve_relative_path_def inside_def protection_error_def Let_def bind_res_def
      split: if_splits sum.splits exn.splits bool.splits)

lemma resolve_relative_path_errors:
  assumes "resolve_relative_path fs root_dir f = Inl e"
  shows "e = make_error ProtectionError (Some (ec_value EC_PROTECTION_ERROR)) \<or> (\<exists>p. fs_resolve fs p = Inl e)"
  using assms
  by (auto simp: resolve_relative_path_def protection_error_def Let_def bind_res_def
      split: if_splits sum.splits exn.splits bool.splits)

lemma check_paths_Cons:
  "check_paths fs root_dir (f # fs') = bind_res (resolve_relative_path fs root_dir f) (\<lambda>_. check_paths fs root_dir fs')"
  by (cases "resolve_relative_path fs root_dir f"; cases "map_res (resolve_relative_path fs root_dir) fs'")
    (simp_all add: check_paths_def)

lemma check_paths_cases:
  "(\<exists>u. check_paths fs root_dir ps = Inr u \<and> (\<forall>f \<in> set ps. inside fs root_dir f))
   \<or> (\<exists>e. check_paths fs root_dir ps = Inl e
      \<and> (e = make_error ProtectionError (Some (ec_value EC_PROTECTION_ERROR)) \<or> (\<exists>p. fs_resolve fs p = Inl e)))"
proof (induction ps)
  case (Cons f ps)
  then show ?case
    by (cases "resolve_relative_path fs root_dir f")
      (auto simp: check_paths_Cons dest: resolve_relative_path_inside(2) resolve_relative_path_errors)
qed (simp add: check_paths_def)

lemma str_tuple_errors: "str_tuple rp v = Inl e \<Longrightarrow> e = PyExc ''TypeError'' ''unsupported type''"
  by (auto simp: str_tuple_def type_error_def split: yaml.splits)

text \<open>The files a manifest names.\<close>

definition referenced :: "LocalImportManifest \<Rightarrow> string set" where
  "referenced lm = {lim_contract_file lm, lim_snapshot_file lm, lim_environment_file lm, lim_verifier_file lm}
     \<union> set (lim_requirement_files lm) \<union> set (lim_control_files lm)"

text \<open>What a step of reading the manifest may raise.\<close>

definition manifest_error :: "file_system \<Rightarrow> exn \<Rightarrow> bool" where
  "manifest_error fs e \<longleftrightarrow> e = make_error ValidationError (Some (ec_value EC_VALIDATION_ERROR))
     \<or> e = make_error ProtectionError (Some (ec_value EC_PROTECTION_ERROR)) \<or> e = PyExc ''TypeError'' ''unsupported type''
     \<or> (\<exists>p. fs_resolve fs p = Inl e)"

lemma checked_step:
  assumes "(\<forall>f \<in> set ps. inside fs root_dir f) \<Longrightarrow> Q (k ())" and "\<And>e. manifest_error fs e \<Longrightarrow> Q (Inl e)"
  shows "Q (bind_res (check_paths fs root_dir ps) k)"
proof (cases "check_paths fs root_dir ps")
  case (Inl e)
  with check_paths_cases [of fs root_dir ps] have "manifest_error fs e" by (auto simp: manifest_error_def)
  with assms(2) Inl show ?thesis by simp
next
  case (Inr u)
  with check_paths_cases [of fs root_dir ps] assms(1) show ?thesis by simp
qed

lemma tuple_step:
  assumes "\<And>ss. Q (k ss)" and "\<And>e. manifest_error fs e \<Longrightarrow> Q (Inl e)"
  shows "Q (bind_res (str_tuple rp v) k)"
  using str_tuple_errors [of rp v] assms by (cases "str_tuple rp v") (auto simp: manifest_error_def)

text \<open>
  C38. References of a manifest stay inside. When \<open>read_local_manifest\<close> answers a manifest, every file it
  names (contract, snapshot, environment, verifier, requirements, controls) is no link and
  resolves to a path below the resolved directory of the manifest. Otherwise it raises a \<open>ValidationError\<close>
  or \<open>ProtectionError\<close>, a \<open>TypeError\<close> for a list of files that is not one, or what \<open>Path.resolve\<close> raised.
\<close>

theorem manifest_references_stay_inside:
  "case read_local_manifest rp fs now path data of
     Inr lm \<Rightarrow> \<forall>f \<in> referenced lm. inside fs (path_parent path) f
   | Inl e \<Rightarrow> manifest_error fs e"
  unfolding read_local_manifest_def Let_def
proof (split if_split, intro conjI impI)
  let ?Q = "\<lambda>r. case r of Inr lm \<Rightarrow> \<forall>f \<in> referenced lm. inside fs (path_parent path) f | Inl e \<Rightarrow> manifest_error fs e"
  have err: "manifest_error fs e \<Longrightarrow> ?Q (Inl e)" for e by simp
  show "?Q validation_error" by (simp add: manifest_error_def)
  show "?Q (bind_res (check_paths fs (path_parent path) [c]) (\<lambda>_.
       bind_res (check_paths fs (path_parent path) [s]) (\<lambda>_.
       bind_res (check_paths fs (path_parent path) [n]) (\<lambda>_.
       bind_res (str_tuple rp r) (\<lambda>requirement_files.
       bind_res (check_paths fs (path_parent path) requirement_files) (\<lambda>_.
       bind_res (check_paths fs (path_parent path) [v]) (\<lambda>_.
       bind_res (str_tuple rp t) (\<lambda>control_files.
       bind_res (check_paths fs (path_parent path) control_files) (\<lambda>_.
       Inr \<lparr>lim_schema_version = sv, lim_task = tk, lim_contract_file = c, lim_snapshot_file = s,
         lim_environment_file = n, lim_requirement_files = requirement_files,
         lim_verifier_file = v, lim_control_files = control_files\<rparr>)))))))))" for c s n r v t sv tk
    by (intro checked_step [where Q = ?Q] tuple_step [where Q = ?Q and fs = fs] err) (auto simp: referenced_def)
qed

section \<open>The bundle\<close>

lemma import_requirement_hashed:
  assumes "import_requirement H fr rp y = Inr r"
  shows "requirement_hash H fr r = Inr (rq_requirement_hash r)"
  using assms
  by (auto simp: import_requirement_def bind_res_Inr_iff requirement_hash_def requirement_payload_def Let_def
      split: yaml.splits)

lemma map_res_all:
  assumes "map_res f xs = Inr ys" and "\<And>x y. f x = Inr y \<Longrightarrow> P y"
  shows "\<forall>y \<in> set ys. P y"
  using assms(1) by (induction xs arbitrary: ys) (auto simp: bind_res_Inr_iff dest: assms(2))

lemma import_requirements_hashed:
  assumes "import_requirements H fr rp d = Inr rs"
  shows "\<forall>r \<in> set rs. requirement_hash H fr r = Inr (rq_requirement_hash r)"
proof -
  from assms obtain ys where "map_res (import_requirement H fr rp) ys = Inr rs"
    by (auto simp: import_requirements_def split: yaml.splits)
  then show ?thesis by (rule map_res_all) (rule import_requirement_hashed)
qed

lemma import_contract_hashed:
  assumes "import_contract H fr rp now task d rs = Inr c"
  shows "contract_hash H fr c = Inr (ct_contract_hash c) \<and> ct_requirement_hashes c = map rq_requirement_hash rs"
  using assms
  by (auto simp: import_contract_def bind_res_Inr_iff contract_hash_def contract_payload_def Let_def)

lemma import_verifier_manifest_hashed:
  assumes "import_verifier_manifest H fr rp b d = Inr m"
  shows "manifest_hash H fr m = Inr (vm_manifest_hash m) \<and> vm_mode m \<in> {''compatibility'', ''blackbox''}"
proof -
  have "one_of [''compatibility'', ''blackbox''] ''compatibility'' v \<in> {''compatibility'', ''blackbox''}" for v
    by (simp add: one_of_def split: yaml.split)
  moreover have "\<exists>v. vm_mode m = one_of [''compatibility'', ''blackbox''] ''compatibility'' v"
    using assms by (auto simp: import_verifier_manifest_def bind_res_Inr_iff Let_def)
  moreover have "manifest_hash H fr m = Inr (vm_manifest_hash m)"
    using assms by (auto simp: import_verifier_manifest_def bind_res_Inr_iff manifest_hash_def verifier_payload_def Let_def)
  ultimately show ?thesis by metis
qed

lemma import_controls_cases:
  assumes "import_controls H fs now n root_dir task fls = Inr cs" and "c \<in> set cs"
  shows "\<exists>f b. f \<in> set fls \<and> inside fs root_dir f \<and> fs_bytes fs (join_path root_dir f) = Inr b
    \<and> pc_diff_digest c = H b \<and> pc_task_key c = t_task_key task
    \<and> pc_base_snapshot_digest c = t_snapshot_digest task \<and> pc_role c = R_reference"
  using assms
proof (induction fls arbitrary: n cs)
  case (Cons f fls)
  from Cons.prems(1) obtain cp where cp: "resolve_relative_path fs root_dir f = Inr cp"
    by (auto simp: bind_res_Inr_iff)
  note here = resolve_relative_path_inside [OF cp]
  show ?case
  proof (cases "fs_is_file fs cp")
    case False
    with Cons.prems(1) cp have "import_controls H fs now n root_dir task fls = Inr cs" by simp
    from Cons.IH [OF this Cons.prems(2)] show ?thesis by (meson list.set_intros(2))
  next
    case True
    with Cons.prems(1) cp obtain b rest where
      b: "fs_bytes fs cp = Inr b" "import_controls H fs now (Suc n) root_dir task fls = Inr rest"
      "cs = \<lparr>pc_case_id = t_task_id task @ ''-ctrl-'' @ path_stem cp, pc_task_key = t_task_key task,
          pc_diff_digest = H b, pc_base_snapshot_digest = t_snapshot_digest task,
          pc_source = ''reference'', pc_source_run_id = None, pc_parent_case_ids = [],
          pc_family_id = ''reference-family'', pc_role = R_reference, pc_provenance_digest = H cp,
          pc_licence = t_licence task, pc_created_at = now n\<rparr> # rest"
      by (auto simp: bind_res_Inr_iff Let_def)
    with Cons.prems(2) Cons.IH [OF b(2)] here show ?thesis by fastforce
  qed
qed simp

lemma final_task_simps [simp]:
  "t_task_id (final_task now task h d) = t_task_id task" "t_task_key (final_task now task h d) = t_task_key task"
  "t_contract_hash (final_task now task h d) = h" "t_snapshot_digest (final_task now task h d) = d"
  "t_environment_id (final_task now task h d) = t_task_id task @ ''-env''"
  by (simp_all add: final_task_def)

lemma import_verifier_valid:
  assumes "manifest_hash H fr m = Inr (vm_manifest_hash m)" and "vm_mode m \<in> {''compatibility'', ''blackbox''}"
  shows "validate_verifier H fr (import_verifier rp now task h m d) m = Inr ()
    \<longleftrightarrow> 0 < vm_timeout_seconds m \<and> vm_command m \<noteq> []"
  using assms by (auto simp: validate_verifier_def import_verifier_def Let_def)

lemma import_environment_id:
  assumes "import_environment H yl fs root_dir d lm = Inr env"
  shows "en_environment_id env = t_task_id (lim_task lm) @ ''-env''"
proof -
  from assms [unfolded import_environment_def Let_def bind_res_Inr_iff]
  obtain x where "environment_of H (yl_repr yl) (t_task_id (lim_task lm)) x = Inr env"
    by (elim exE conjE)
  then show ?thesis by (auto simp: environment_of_def split: yaml.splits if_splits)
qed

lemma import_snapshot_digest:
  assumes "import_snapshot H fs now root_dir lm = Inr snap"
  shows "snapshot_digest_of H (fs_regular fs (rs_archive_uri snap)) = Inr (rs_snapshot_digest snap)"
  using assms by (auto simp: import_snapshot_def Let_def bind_res_Inr_iff split: if_splits)

definition bundle_consistent :: "(string \<Rightarrow> string) \<Rightarrow> (pyfloat \<Rightarrow> string) \<Rightarrow> ImportBundle \<Rightarrow> bool" where
  "bundle_consistent H fr b \<longleftrightarrow>
     validate_task H fr (ib_task b) (ib_contract b) = Inr ()
   \<and> (\<forall>r \<in> set (ib_requirements b). requirement_hash H fr r = Inr (rq_requirement_hash r))
   \<and> ct_requirement_hashes (ib_contract b) = map rq_requirement_hash (ib_requirements b)
   \<and> manifest_hash H fr (ib_verifier_manifest b) = Inr (vm_manifest_hash (ib_verifier_manifest b))
   \<and> vv_compatible_contract_hashes (ib_verifier b) = [t_contract_hash (ib_task b)]
   \<and> t_snapshot_digest (ib_task b) = rs_snapshot_digest (ib_snapshot b)
   \<and> t_environment_id (ib_task b) = en_environment_id (ib_environment b)
   \<and> validate_environment (ib_environment b) = Inr ()
   \<and> (\<forall>c \<in> set (ib_controls b). pc_task_key c = t_task_key (ib_task b)
        \<and> pc_base_snapshot_digest c = t_snapshot_digest (ib_task b) \<and> pc_role c = R_reference)"

text \<open>
  C37. An imported bundle is consistent. When \<open>import_task\<close> answers a bundle, the task validates
  against its contract, every requirement and the verifier manifest carry the hash of their content, the contract lists
  exactly the requirements, the verifier is declared for that contract only, task, snapshot, environment
  and control cases refer to each other, and the environment is supported (a pinned image for Docker). The verifier
  itself validates exactly if its timeout is positive and its command not empty, which the importer does not check. The
  snapshot digest is that of the files below its directory.
\<close>

theorem imported_bundle_is_consistent:
  assumes "import_task H fr yl fs now request = Inr b"
  shows "bundle_consistent H fr b
    \<and> (validate_verifier H fr (ib_verifier b) (ib_verifier_manifest b) = Inr ()
      \<longleftrightarrow> 0 < vm_timeout_seconds (ib_verifier_manifest b) \<and> vm_command (ib_verifier_manifest b) \<noteq> [])
    \<and> snapshot_digest_of H (fs_regular fs (rs_archive_uri (ib_snapshot b))) = Inr (rs_snapshot_digest (ib_snapshot b))"
proof -
  let ?path = "path_of (ir_source request)"
  from assms obtain lm d cd reqs c env snap bytes vd m ctrls raw uri where steps:
    "import_requirements H fr (yl_repr yl) cd = Inr reqs"
    "import_contract H fr (yl_repr yl) (now 2) (lim_task lm) cd reqs = Inr c"
    "import_environment H yl fs (path_parent ?path) d lm = Inr env"
    "import_snapshot H fs (now 3) (path_parent ?path) lm = Inr snap"
    "import_verifier_manifest H fr (yl_repr yl) bytes vd = Inr m"
    "validate_task H fr (final_task (now 5) (lim_task lm) (ct_contract_hash c) (rs_snapshot_digest snap)) c = Inr ()"
    "import_controls H fs now 6 (path_parent ?path)
       (final_task (now 5) (lim_task lm) (ct_contract_hash c) (rs_snapshot_digest snap)) (lim_control_files lm) = Inr ctrls"
    "validate_environment env = Inr ()"
    and b: "b = \<lparr>ib_task = final_task (now 5) (lim_task lm) (ct_contract_hash c) (rs_snapshot_digest snap),
       ib_contract = c, ib_requirements = reqs, ib_snapshot = snap, ib_environment = env,
       ib_verifier = import_verifier (yl_repr yl) (now 4) (lim_task lm) (ct_contract_hash c) m vd,
       ib_verifier_manifest = m, ib_controls = ctrls,
       ib_upstream_artifact = upstream_artifact_of H (now 0) uri raw, ib_diagnostics = []\<rparr>"
    by (auto simp: import_task_def Let_def bind_res_Inr_iff split: if_splits)
  note facts = import_requirements_hashed [OF steps(1)] import_contract_hashed [OF steps(2)]
    import_environment_id [OF steps(3)] import_snapshot_digest [OF steps(4)] import_verifier_manifest_hashed [OF steps(5)]
  have "vv_compatible_contract_hashes (ib_verifier b) = [ct_contract_hash c]"
    by (simp add: b import_verifier_def Let_def)
  moreover have "\<forall>x \<in> set ctrls. pc_task_key x = t_task_key (lim_task lm)
    \<and> pc_base_snapshot_digest x = rs_snapshot_digest snap \<and> pc_role x = R_reference"
    using import_controls_cases [OF steps(7)] by auto
  ultimately have "bundle_consistent H fr b"
    using steps(6,8) facts by (simp add: b bundle_consistent_def)
  then show ?thesis
    using import_verifier_valid facts by (simp add: b)
qed

definition ex_fs :: "string list \<Rightarrow> file_system" where
  "ex_fs files = \<lparr>fs_is_symlink = (\<lambda>p. False), fs_is_file = (\<lambda>p. p \<in> set files), fs_is_dir = (\<lambda>p. p = ''/t/source''),
     fs_size = (\<lambda>p. 1), fs_bytes = (\<lambda>p. Inr p), fs_resolve = Inr, fs_regular = (\<lambda>p. [])\<rparr>"

definition ex_yaml :: yaml_library where
  "ex_yaml = \<lparr>yl_tree = (\<lambda>s. Inr (Some (N_scalar s))),
     yl_construct = (\<lambda>n. Inr (Y_map (if n = N_scalar ''/t/task.yaml'' then [(Y_str ''task_id'', Y_str ''t'')]
       else if n = N_scalar ''/t/contract.yaml'' then [(Y_str ''requirements'', Y_seq [Y_map [(Y_str ''text'', Y_str ''r'')]])]
       else []))),
     yl_repr = (\<lambda>y. [])\<rparr>"

definition ex_request :: ImportRequest where
  "ex_request = \<lparr>ir_adapter = ''local'', ir_instance = ''t'', ir_source = ''/t/task.yaml'', ir_source_revision = ''v1'',
     ir_environment_manifest = None, ir_output_dir = ''out'', ir_dry_run = True\<rparr>"

definition ex_task_fs :: file_system where
  "ex_task_fs = ex_fs [''/t/task.yaml'', ''/t/contract.yaml'', ''/t/environment.yaml'', ''/t/v1.yaml'']"

definition ex_lm :: LocalImportManifest where
  "ex_lm = \<lparr>lim_schema_version = ''1.0.0'',
     lim_task = \<lparr>t_task_key = ''t@1.0.0'', t_task_id = ''t'', t_version = ''1.0.0'', t_statement = [],
       t_adapter = ''local'', t_contract_hash = replicate 64 CHR ''0'', t_snapshot_digest = replicate 64 CHR ''0'',
       t_environment_id = ''t-env'', t_licence = ''Apache-2.0'', t_provenance = ''/t/task.yaml'', t_eligibility = ''eligible'',
       t_notes = [], t_created_at = utc 0\<rparr>,
     lim_contract_file = ''contract.yaml'', lim_snapshot_file = ''source/'', lim_environment_file = ''environment.yaml'',
     lim_requirement_files = [], lim_verifier_file = ''v1.yaml'', lim_control_files = []\<rparr>"

definition ex_manifest_data :: ydict where
  "ex_manifest_data = [(Y_str ''task_id'', Y_str ''t'')]"

definition ex_contract_data :: ydict where
  "ex_contract_data = [(Y_str ''requirements'', Y_seq [Y_map [(Y_str ''text'', Y_str ''r'')]])]"

text \<open>The steps of the example import, evaluated one by one.\<close>

lemma ex_import_files:
  "path_of ''/t/task.yaml'' = ''/t/task.yaml''" "path_parent ''/t/task.yaml'' = ''/t''"
  "fs_is_file ex_task_fs ''/t/task.yaml''" "\<not> MAX_MANIFEST_BYTES < fs_size ex_task_fs ''/t/task.yaml''"
  "safe_load_yaml ex_yaml ex_task_fs ''/t/task.yaml'' = Inr ex_manifest_data"
  "resolve_relative_path ex_task_fs ''/t'' ''contract.yaml'' = Inr ''/t/contract.yaml''"
  "safe_load_yaml ex_yaml ex_task_fs ''/t/contract.yaml'' = Inr ex_contract_data"
  "resolve_relative_path ex_task_fs ''/t'' ''v1.yaml'' = Inr ''/t/v1.yaml''"
  "safe_load_yaml ex_yaml ex_task_fs ''/t/v1.yaml'' = Inr []"
  by code_simp+

lemma ex_import_manifest:
  "read_local_manifest (yl_repr ex_yaml) ex_task_fs 0 ''/t/task.yaml'' ex_manifest_data = Inr ex_lm"
  by code_simp

theorem manifest_references_stay_inside_witness:
  "inside ex_task_fs ''/t'' (lim_contract_file ex_lm) \<and> inside ex_task_fs ''/t'' (lim_verifier_file ex_lm)"
  using manifest_references_stay_inside [where rp = "yl_repr ex_yaml" and fs = ex_task_fs and now = 0
      and path = "''/t/task.yaml''" and data = ex_manifest_data]
  by (simp add: ex_import_manifest ex_import_files referenced_def)

definition ex_requirement :: Requirement where
  "ex_requirement = \<lparr>rq_requirement_hash = ex_hash [], rq_requirement_id = ''REQ'', rq_text = ''r'', rq_source_kind = ''explicit'',
     rq_evidence_digests = [], rq_source_locator = ''contract.yaml'', rq_allowed_variation = ''None''\<rparr>"

lemma ex_import_requirements:
  "import_requirements ex_hash ex_float_text (yl_repr ex_yaml) ex_contract_data = Inr [ex_requirement]"
  by code_simp

definition ex_import_contract :: Contract where
  "ex_import_contract = \<lparr>ct_contract_hash = ex_hash [], ct_task_id = ''t'', ct_version = ''1.0.0'',
     ct_requirement_hashes = [ex_hash []], ct_allowed_variation = ''None'', ct_unresolved_questions = [],
     ct_evidence_digests = [], ct_created_at = 0\<rparr>"

lemma ex_import_contract:
  "import_contract ex_hash ex_float_text (yl_repr ex_yaml) 0 (lim_task ex_lm) ex_contract_data [ex_requirement] = Inr ex_import_contract"
  by code_simp

lemma ex_import_environment:
  "is_ok (bind_res (import_environment ex_hash ex_yaml ex_task_fs ''/t'' ex_manifest_data ex_lm) validate_environment)"
  by code_simp

lemma ex_import_snapshot:
  "import_snapshot ex_hash ex_task_fs 0 ''/t'' ex_lm = Inr \<lparr>rs_snapshot_digest = ex_hash [], rs_repository_id = ''t'',
     rs_commit_oid = ''HEAD'', rs_archive_uri = ''/t/source'', rs_tree_digest = ex_hash [], rs_submodule_digests = [],
     rs_lock_digests = [], rs_licence = ''Apache-2.0'', rs_created_at = 0\<rparr>"
  by code_simp

lemma ex_import_verifier:
  "is_ok (import_verifier_manifest ex_hash ex_float_text (yl_repr ex_yaml) (Inr ''/t/v1.yaml'') [])"
  by code_simp

lemma ex_import_valid:
  "validate_task ex_hash ex_float_text (final_task 0 (lim_task ex_lm) (ct_contract_hash ex_import_contract) (ex_hash []))
     ex_import_contract = Inr ()"
  by code_simp

lemma ex_import_ok: "\<exists>b. import_task ex_hash ex_float_text ex_yaml ex_task_fs (\<lambda>n. 0) ex_request = Inr b"
proof -
  obtain env where env: "import_environment ex_hash ex_yaml ex_task_fs ''/t'' ex_manifest_data ex_lm = Inr env"
    "validate_environment env = Inr ()"
    using ex_import_environment by (auto simp: is_ok_iff bind_res_Inr_iff)
  obtain m where m: "import_verifier_manifest ex_hash ex_float_text (yl_repr ex_yaml) (Inr ''/t/v1.yaml'') [] = Inr m"
    using ex_import_verifier by (auto simp: is_ok_iff)
  have "ir_source ex_request = ''/t/task.yaml''" by (simp add: ex_request_def)
  moreover have "fs_bytes ex_task_fs = Inr" "fs_resolve ex_task_fs = Inr" by (simp_all add: ex_task_fs_def ex_fs_def)
  moreover have "lim_contract_file ex_lm = ''contract.yaml''" "lim_verifier_file ex_lm = ''v1.yaml''"
    "lim_control_files ex_lm = []" "supported_source_version (lim_schema_version ex_lm)"
    by (simp_all add: ex_lm_def supported_source_version_def SUPPORTED_LOCAL_VERSIONS_def)
  ultimately show ?thesis
    using env m
    by (simp add: import_task_def Let_def ex_import_files ex_import_manifest ex_import_requirements ex_import_contract
        ex_import_snapshot ex_import_valid)
qed

theorem imported_bundle_is_consistent_witness:
  "\<exists>b. import_task ex_hash ex_float_text ex_yaml ex_task_fs (\<lambda>n. 0) ex_request = Inr b
    \<and> bundle_consistent ex_hash ex_float_text b"
  using ex_import_ok imported_bundle_is_consistent by blast

section \<open>Snapshot digests\<close>

lemma split_on_inverse: "concat (map ((#) c) (split_on c xs)) = c # xs"
proof (induction xs)
  case (Cons x xs)
  then show ?case by (cases "split_on c xs") auto
qed simp

lemma split_on_inj: "split_on c xs = split_on c ys \<longleftrightarrow> xs = ys"
  by (metis list.inject split_on_inverse)

text \<open>
  C39. The snapshot digest depends on the files and not on the order in which the directory lists
  them, but it does not determine them: the text that is hashed does not say where a content ends and the next
  path begins, so for every hash function the files \<open>a\<close> with content \<open>x\<close> and \<open>b\<close> with content \<open>y\<close> have the digest of
  an empty file \<open>a\<close> and a file \<open>xb\<close> with content \<open>y\<close>.
\<close>

theorem snapshot_digest_is_ambiguous:
  "(mset files = mset files' \<and> distinct (map fst files) \<longrightarrow> snapshot_digest_of H files = snapshot_digest_of H files')
   \<and> snapshot_digest_of H [(''a'', Inr ''x''), (''b'', Inr ''y'')] = snapshot_digest_of H [(''xb'', Inr ''y''), (''a'', Inr [])]"
proof (rule conjI)
  show "mset files = mset files' \<and> distinct (map fst files) \<longrightarrow> snapshot_digest_of H files = snapshot_digest_of H files'"
  proof (intro impI, elim conjE)
    assume perm: "mset files = mset files'" and "distinct (map fst files)"
    then have "inj_on (\<lambda>f. split_on CHR ''/'' (fst f)) (set files)"
      by (auto simp: inj_on_def split_on_inj distinct_map)
    from sort_key_perm_eq [OF perm this] show "snapshot_digest_of H files = snapshot_digest_of H files'"
      by (simp add: snapshot_digest_of_def)
  qed
  have "snapshot_text (sort_key (\<lambda>f. split_on CHR ''/'' (fst f)) [(''a'', Inr ''x''), (''b'', Inr ''y'')])
    = snapshot_text (sort_key (\<lambda>f. split_on CHR ''/'' (fst f)) [(''xb'', Inr ''y''), (''a'', Inr [])])"
    by code_simp
  then show "snapshot_digest_of H [(''a'', Inr ''x''), (''b'', Inr ''y'')]
    = snapshot_digest_of H [(''xb'', Inr ''y''), (''a'', Inr [])]"
    by (simp only: snapshot_digest_of_def)
qed

theorem snapshot_digest_is_ambiguous_witness:
  "snapshot_digest_of id [(''src/b'', Inr ''y''), (''a'', Inr ''x'')] = snapshot_digest_of id [(''a'', Inr ''x''), (''src/b'', Inr ''y'')]"
proof -
  have "mset [(''src/b'', Inr ''y''), (''a'', Inr ''x'')] = mset [(''a'', Inr ''x''), (''src/b'', (Inr ''y'' :: string res))]"
    by simp
  moreover have "distinct (map fst [(''src/b'', Inr ''y''), (''a'', (Inr ''x'' :: string res))])" by simp
  ultimately show ?thesis
    using snapshot_digest_is_ambiguous by blast
qed

section \<open>Gaps\<close>

definition ex_task_record :: Task where
  "ex_task_record = task_envelope (\<lambda>y. []) 0 ''/t/task.yaml'' []"

definition map_right :: "('a \<Rightarrow> 'b) \<Rightarrow> 'e + 'a \<Rightarrow> 'e + 'b" where
  "map_right f r = bind_res r (\<lambda>x. Inr (f x))"

text \<open>
  What the importer lets through. A command that is one text becomes its characters; a timeout that
  is no number is a plain \<open>ValueError\<close>; an unknown eligibility, such as a misspelt \<open>excluded\<close>, means \<open>eligible\<close>; a manifest without
  \<open>schema_version\<close> is judged by the version of its task; two control files with one stem get one case
  identifier, and a control file that does not exist is dropped; and a Docker image may be a list that contains
  \<open>@sha256:\<close>, while a number there is a \<open>TypeError\<close>.
\<close>

lemma import_gaps:
  "map_right vm_command (import_verifier_manifest id fr rp (Inr []) [(Y_str ''command'', Y_str ''make'')])
      = Inr [''m'', ''a'', ''k'', ''e'']
   \<and> import_verifier_manifest id fr rp (Inr []) [(Y_str ''timeout_seconds'', Y_str ''60s'')]
      = Inl (PyExc ''ValueError'' ''invalid literal for int()'')
   \<and> t_eligibility (task_envelope rp 0 ''t.yaml'' [(Y_str ''eligibility'', Y_str ''exclude'')]) = ''eligible''
   \<and> schema_version_of rp [(Y_str ''task_id'', Y_str ''t''), (Y_str ''version'', Y_str ''2.0.0'')] = ''2.0.0''
   \<and> \<not> supported_source_version ''2.0.0''
   \<and> map_right (map pc_case_id) (import_controls id (ex_fs [''/t/a/fix.diff'', ''/t/b/fix.diff'']) (\<lambda>n. 0) 0 ''/t'' ex_task_record
        [''a/fix.diff'', ''b/fix.diff'', ''missing.diff''])
      = Inr [''task-ctrl-fix'', ''task-ctrl-fix'']
   \<and> unpinned (Y_seq [Y_str ''@sha256:'']) = Inr False
   \<and> unpinned (Y_int 1) = type_error"
proof (intro conjI)
  show "map_right vm_command (import_verifier_manifest id fr rp (Inr []) [(Y_str ''command'', Y_str ''make'')])
      = Inr [''m'', ''a'', ''k'', ''e'']" by code_simp
  show "import_verifier_manifest id fr rp (Inr []) [(Y_str ''timeout_seconds'', Y_str ''60s'')]
      = Inl (PyExc ''ValueError'' ''invalid literal for int()'')" by code_simp
  show "t_eligibility (task_envelope rp 0 ''t.yaml'' [(Y_str ''eligibility'', Y_str ''exclude'')]) = ''eligible''" by code_simp
  show "schema_version_of rp [(Y_str ''task_id'', Y_str ''t''), (Y_str ''version'', Y_str ''2.0.0'')] = ''2.0.0''" by code_simp
  show "\<not> supported_source_version ''2.0.0''" by code_simp
  show "map_right (map pc_case_id) (import_controls id (ex_fs [''/t/a/fix.diff'', ''/t/b/fix.diff'']) (\<lambda>n. 0) 0 ''/t'' ex_task_record
        [''a/fix.diff'', ''b/fix.diff'', ''missing.diff''])
      = Inr [''task-ctrl-fix'', ''task-ctrl-fix'']" by code_simp
  show "unpinned (Y_seq [Y_str ''@sha256:'']) = Inr False" by code_simp
  show "unpinned (Y_int 1) = type_error" by code_simp
qed

end
