(* ===== verification/Queue_On_Database.thy ===== *)
theory Queue_On_Database
  imports Queue_Lifecycle Database_Properties
begin

text \<open>
  The fenced queue of \<open>src/src/verifierci/execution/jobs.py\<close> on the SQLite layer of
  \<open>src/src/verifierci/storage/db.py\<close>: every operation of the queue is a block of \<open>transaction\<close> on one of the
  connections of the workers, the reaper and the controller. \<open>BEGIN\<close> may be refused, a \<open>COMMIT\<close>, a \<open>ROLLBACK\<close> or
  a \<open>PRAGMA\<close> may fail at any call. Whatever happens, the shared database goes through whole operations
  of the queue, so that the invariants of the queue hold of it.
\<close>

section \<open>Calls\<close>

datatype queue_answer =
    A_claimed "Job option"
  | A_job Job
  | A_completion completion
  | A_reaped "string list"
  | A_done

definition answering :: "('a \<Rightarrow> queue_answer) \<Rightarrow> ('a \<times> db) res \<Rightarrow> (queue_answer \<times> db) res" where
  "answering f r = bind_res r (\<lambda>(v, db). Inr (f v, db))"

text \<open>The block of each operation with its answer.\<close>

fun op_body :: "queue_op \<Rightarrow> db \<Rightarrow> (queue_answer \<times> db) res" where
  "op_body (Op_claim w now run lease fresh) db = answering A_claimed (claim_loop w run now lease fresh 0 db)"
| "op_body (Op_mark_running job now) db = answering A_job (mark_running_body job now db)"
| "op_body (Op_heartbeat job now ext) db = answering A_job (heartbeat_body job now ext db)"
| "op_body (Op_complete job attempt now) db = answering A_completion (complete_body job attempt now db)"
| "op_body (Op_reap order now m) db = answering A_reaped (reap_body order now m db)"
| "op_body (Op_cancel run now) db = answering (\<lambda>_. A_done) (request_cancel_body run now db)"

text \<open>
  A call names its connection and carries what SQLite and the clock answer during it.
\<close>

record db_call =
  dc_connection :: string
  dc_op :: queue_op
  dc_sqlite :: "db sqlite"
  dc_begins :: "nat \<Rightarrow> exn option"
  dc_elapsed :: "nat \<Rightarrow> rat"
  dc_jitter :: "nat \<Rightarrow> rat"

text \<open>The database file and the connections to it, each with the transaction it may still have open.\<close>

record shared =
  sh_database :: "db database"
  sh_connections :: "string \<Rightarrow> db connection"

text \<open>
  One call, from the \<open>BEGIN\<close> that succeeds to the end of its block: with \<open>BEGIN IMMEDIATE\<close> no other
  connection writes in between. Whether an open transaction of another connection makes a \<open>BEGIN\<close> busy is
  left to \<open>dc_begins\<close>, so that every pattern of busy answers is covered. Five seconds is the default timeout of \<open>transaction\<close>.
\<close>

definition serve :: "db_call \<Rightarrow> shared \<Rightarrow> (queue_answer res \<times> shared) option" where
  "serve c sh = map_option
     (\<lambda>(r, cn). (r, \<lparr>sh_database = cn_committed cn, sh_connections = (sh_connections sh)(dc_connection c := cn)\<rparr>))
     (transaction (dc_sqlite c) (dc_begins c) (dc_elapsed c) (dc_jitter c) 5 (on_tables (op_body (dc_op c)))
       ((sh_connections sh (dc_connection c))\<lparr>cn_committed := sh_database sh\<rparr>))"

fun serve_all :: "db_call list \<Rightarrow> shared \<Rightarrow> (queue_answer res list \<times> shared) option" where
  "serve_all [] sh = Some ([], sh)"
| "serve_all (c # cs) sh = (case serve c sh of
     None \<Rightarrow> None
   | Some (r, sh1) \<Rightarrow> map_option (\<lambda>(rs, sh2). (r # rs, sh2)) (serve_all cs sh1))"

section \<open>The history they implement\<close>

text \<open>
  What may disturb a call: its connection may still have an open transaction, because an earlier \<open>ROLLBACK\<close> on it
  failed (\<open>stuck\<close> has the connections where that may be so), its first \<open>BEGIN\<close> may be refused, or its \<open>COMMIT\<close> may fail.
\<close>

definition disturbed :: "string set \<Rightarrow> db_call \<Rightarrow> bool" where
  "disturbed stuck c \<longleftrightarrow> dc_connection c \<in> stuck \<or> dc_begins c 0 \<noteq> None \<or> (\<exists>w. sq_commit (dc_sqlite c) w \<noteq> None)"

definition may_stick :: "db_call list \<Rightarrow> shared \<Rightarrow> string set" where
  "may_stick calls sh = {name. cn_working (sh_connections sh name) \<noteq> None}
     \<union> dc_connection ` {c \<in> set calls. \<exists>w. \<not> sq_rollback (dc_sqlite c) w}"

text \<open>
  The specification: a history of calls with their answers. An operation happens as a whole, with the
  answer of the queue; or the queue refuses it with its exception; or, only when something disturbs the call, an exception is
  raised. In the last two cases nothing happens.
\<close>

inductive history :: "string set \<Rightarrow> db \<Rightarrow> (db_call \<times> queue_answer res) list \<Rightarrow> db \<Rightarrow> bool" for stuck where
  finished: "history stuck db [] db"
| happens: "op_body (dc_op c) db = Inr (v, db1) \<Longrightarrow> history stuck db1 rest db2 \<Longrightarrow> history stuck db ((c, Inr v) # rest) db2"
| refused: "op_body (dc_op c) db = Inl e \<Longrightarrow> history stuck db rest db2 \<Longrightarrow> history stuck db ((c, Inl e) # rest) db2"
| disturbed: "disturbed stuck c \<Longrightarrow> history stuck db rest db2 \<Longrightarrow> history stuck db ((c, Inl e) # rest) db2"

lemma op_body_run_op: "op_body p db = Inr (v, db') \<Longrightarrow> run_op p db = db'"
  by (cases p) (auto simp: claim_def mark_running_def heartbeat_def complete_def reap_expired_def request_cancel_def
      in_transaction_def answering_def bind_res_Inr_iff)

lemma history_steps: "history stuck db h db' \<Longrightarrow> queue_steps db db'"
proof (induction rule: history.induct)
  case (happens c db v db1 rest db2)
  have "queue_step db db1" using queue_step.op [of db "dc_op c"] op_body_run_op [OF happens(1)] by simp
  then show ?case
    using happens(3) by (simp add: queue_steps_rtranclp)
qed (auto intro: queue_steps.start)

section \<open>One call\<close>

text \<open>How a block on the tables ends: with its effect, with its own exception, or with a failed commit.\<close>

inductive block_outcome :: "bool \<Rightarrow> ('d \<Rightarrow> ('a \<times> 'd) res) \<Rightarrow> 'd database \<Rightarrow> 'a res \<Rightarrow> 'd database \<Rightarrow> bool" where
  effect: "f (tables d) = Inr (v, t) \<Longrightarrow> block_outcome fault f d (Inr v) (d\<lparr>tables := t\<rparr>)"
| own: "f (tables d) = Inl e \<Longrightarrow> block_outcome fault f d (Inl e) d"
| fault: "fault \<Longrightarrow> block_outcome fault f d (Inl e) d"

lemma run_block_outcome:
  assumes "run_block sq (on_tables f) (begin_transaction conn) = (r, c)"
  shows "block_outcome (\<exists>w. sq_commit sq w \<noteq> None) f (cn_committed conn) r (cn_committed c)"
    and "(\<And>w. sq_rollback sq w) \<Longrightarrow> cn_working c = None"
proof -
  have "block_outcome (\<exists>w. sq_commit sq w \<noteq> None) f (cn_committed conn) r (cn_committed c)
    \<and> ((\<forall>w. sq_rollback sq w) \<longrightarrow> cn_working c = None)"
  proof (cases "f (tables (cn_committed conn))")
    case (Inl e)
    with assms have "r = Inl e" "c = rollback sq (begin_transaction conn)"
      by (simp_all add: run_block_def on_tables_def current_def begin_transaction_def)
    with Inl show ?thesis
      by (auto simp: rollback_def begin_transaction_def intro: block_outcome.own)
  next
    case (Inr vt)
    obtain v t where vt: "vt = (v, t)" by (cases vt)
    let ?w = "(cn_committed conn)\<lparr>tables := t\<rparr>"
    have "on_tables f (begin_transaction conn) = (Inr v, conn\<lparr>cn_working := Some ?w\<rparr>)"
      using Inr vt by (simp add: on_tables_def current_def begin_transaction_def)
    note eqs = assms Inr vt this
    show ?thesis
    proof (cases "sq_commit sq ?w")
      case None
      with eqs show ?thesis by (auto simp: run_block_def commit_def intro: block_outcome.effect)
    next
      case (Some e)
      then have "\<exists>w. sq_commit sq w \<noteq> None" by auto
      note failed = block_outcome.fault [of "\<exists>w. sq_commit sq w \<noteq> None", OF this]
      from Some eqs have "r = Inl e" "c = rollback sq (conn\<lparr>cn_working := Some ?w\<rparr>)"
        by (simp_all add: run_block_def commit_def)
      with failed show ?thesis by (simp add: rollback_def)
    qed
  qed
  then show "block_outcome (\<exists>w. sq_commit sq w \<noteq> None) f (cn_committed conn) r (cn_committed c)"
    and "(\<And>w. sq_rollback sq w) \<Longrightarrow> cn_working c = None" by blast+
qed

lemma outcome_fault_mono: "block_outcome a f d r d' \<Longrightarrow> (a \<Longrightarrow> b) \<Longrightarrow> block_outcome b f d r d'"
  by (induction rule: block_outcome.induct) (auto intro: block_outcome.intros)

lemma reset_timeout_keeps:
  "cn_committed (reset_timeout sq c) = cn_committed c" "cn_working (reset_timeout sq c) = cn_working c"
  by (simp_all add: reset_timeout_def)

lemma transaction_outcomes:
  assumes "transaction sq begins elapsed jitter timeout (on_tables f) conn = Some (r, c)"
  shows "block_outcome (cn_working conn \<noteq> None \<or> begins 0 \<noteq> None \<or> (\<exists>w. sq_commit sq w \<noteq> None))
      f (cn_committed conn) r (cn_committed c)"
    and "cn_working conn = None \<Longrightarrow> (\<And>w. sq_rollback sq w) \<Longrightarrow> cn_working c = None"
proof -
  define conn1 where "conn1 = conn\<lparr>cn_busy_timeout := max 1 \<lfloor>timeout * 1000\<rfloor>\<rparr>"
  have same: "cn_committed conn1 = cn_committed conn" "cn_working conn1 = cn_working conn"
    by (simp_all add: conn1_def)
  obtain a sleeps where a: "acquire (begin_answers conn1 begins) elapsed jitter timeout 0 (1 / 100) [] = Some (a, sleeps)"
    using assms by (auto simp: transaction_def conn1_def Let_def split: option.splits)
  have "block_outcome (cn_working conn \<noteq> None \<or> begins 0 \<noteq> None \<or> (\<exists>w. sq_commit sq w \<noteq> None)) f (cn_committed conn) r (cn_committed c)
    \<and> (cn_working conn = None \<and> (\<forall>w. sq_rollback sq w) \<longrightarrow> cn_working c = None)"
  proof (cases a)
    case (Inl e)
    have "begin_answers conn1 begins 0 \<noteq> None"
      using a Inl by (cases "begin_answers conn1 begins 0") (simp_all add: acquire_step [where n = 0])
    then have "cn_working conn \<noteq> None \<or> begins 0 \<noteq> None"
      by (auto simp: begin_answers_def same split: if_splits)
    moreover from assms a Inl have "r = Inl e" "c = reset_timeout sq conn1"
      by (simp_all add: transaction_def conn1_def Let_def)
    ultimately show ?thesis by (auto simp: reset_timeout_keeps same intro!: block_outcome.fault)
  next
    case (Inr u)
    obtain r' c' where run: "run_block sq (on_tables f) (begin_transaction conn1) = (r', c')" by fastforce
    with assms a Inr have "r = r'" "c = reset_timeout sq c'"
      by (simp_all add: transaction_def conn1_def Let_def)
    with run_block_outcome [OF run] show ?thesis
      by (auto simp: reset_timeout_keeps same elim!: outcome_fault_mono)
  qed
  then show "block_outcome (cn_working conn \<noteq> None \<or> begins 0 \<noteq> None \<or> (\<exists>w. sq_commit sq w \<noteq> None))
      f (cn_committed conn) r (cn_committed c)"
    and "cn_working conn = None \<Longrightarrow> (\<And>w. sq_rollback sq w) \<Longrightarrow> cn_working c = None" by blast+
qed

text \<open>The connections that have no open transaction unless they may be stuck.\<close>

definition idle_outside :: "string set \<Rightarrow> shared \<Rightarrow> bool" where
  "idle_outside stuck sh \<longleftrightarrow> (\<forall>name. name \<notin> stuck \<longrightarrow> cn_working (sh_connections sh name) = None)"

lemma serve_outcome:
  assumes "serve c sh = Some (r, sh')" and "idle_outside stuck sh"
    and "dc_connection c \<notin> stuck \<Longrightarrow> (\<And>w. sq_rollback (dc_sqlite c) w)"
  shows "block_outcome (disturbed stuck c) (op_body (dc_op c)) (sh_database sh) r (sh_database sh')"
    and "idle_outside stuck sh'"
proof -
  let ?conn = "(sh_connections sh (dc_connection c))\<lparr>cn_committed := sh_database sh\<rparr>"
  from assms(1) obtain cn where run: "transaction (dc_sqlite c) (dc_begins c) (dc_elapsed c) (dc_jitter c) 5
      (on_tables (op_body (dc_op c))) ?conn = Some (r, cn)"
    and sh': "sh' = \<lparr>sh_database = cn_committed cn, sh_connections = (sh_connections sh)(dc_connection c := cn)\<rparr>"
    by (auto simp: serve_def)
  show "block_outcome (disturbed stuck c) (op_body (dc_op c)) (sh_database sh) r (sh_database sh')"
    using transaction_outcomes(1) [OF run] assms(2)
    by (auto simp: sh' disturbed_def idle_outside_def elim!: outcome_fault_mono)
  show "idle_outside stuck sh'"
    using transaction_outcomes(2) [OF run] assms(2,3) by (simp add: sh' idle_outside_def)
qed

text \<open>A clock that counts the sleeps of the busy retry.\<close>

definition counts_sleeps :: "db_call \<Rightarrow> bool" where
  "counts_sleeps c \<longleftrightarrow> 0 \<le> dc_elapsed c 0 \<and> (\<forall>i. 0 \<le> dc_jitter c i
     \<and> dc_elapsed c i + delay_at i + dc_jitter c i \<le> dc_elapsed c (Suc i))"

lemma transaction_returns:
  assumes "\<And>i. elapsed i + delay_at i + jitter i \<le> elapsed (Suc i)" and "0 \<le> elapsed 0" and "\<And>i. 0 \<le> jitter i"
  shows "\<exists>r c. transaction sq begins elapsed jitter timeout body conn = Some (r, c)"
proof -
  define conn1 where "conn1 = conn\<lparr>cn_busy_timeout := max 1 \<lfloor>timeout * 1000\<rfloor>\<rparr>"
  obtain a sleeps where "acquire (begin_answers conn1 begins) elapsed jitter timeout 0 (1 / 100) [] = Some (a, sleeps)"
    using busy_retry_stops [OF assms, where begins = "begin_answers conn1 begins" and timeout = timeout] by metis
  then show ?thesis
    by (cases a; cases "run_block sq body (begin_transaction conn1)") (simp_all add: transaction_def conn1_def Let_def)
qed

lemma serve_answers:
  assumes "counts_sleeps c"
  shows "\<exists>r sh'. serve c sh = Some (r, sh')"
proof -
  have "\<exists>r cn. transaction (dc_sqlite c) (dc_begins c) (dc_elapsed c) (dc_jitter c) 5 (on_tables (op_body (dc_op c)))
      ((sh_connections sh (dc_connection c))\<lparr>cn_committed := sh_database sh\<rparr>) = Some (r, cn)"
    by (rule transaction_returns) (use assms in \<open>simp_all add: counts_sleeps_def\<close>)
  then show ?thesis by (auto simp: serve_def)
qed

lemma serve_all_answers:
  "\<forall>c \<in> set calls. counts_sleeps c \<Longrightarrow> \<exists>rs sh'. serve_all calls sh = Some (rs, sh') \<and> length rs = length calls"
proof (induction calls arbitrary: sh)
  case (Cons c calls)
  from Cons.prems serve_answers [of c sh] obtain r sh1 where "serve c sh = Some (r, sh1)" by auto
  with Cons.IH [of sh1] Cons.prems show ?case by auto
qed simp

section \<open>Sequences of calls\<close>

lemma serve_all_history:
  assumes "serve_all calls sh = Some (rs, sh')" and "idle_outside stuck sh"
    and "\<And>c w. c \<in> set calls \<Longrightarrow> dc_connection c \<notin> stuck \<Longrightarrow> sq_rollback (dc_sqlite c) w"
  shows "history stuck (tables (sh_database sh)) (zip calls rs) (tables (sh_database sh'))
     \<and> schema_migrations (sh_database sh') = schema_migrations (sh_database sh)"
  using assms
proof (induction calls arbitrary: sh rs)
  case Nil
  then show ?case by (simp add: history.finished)
next
  case (Cons c calls)
  then obtain r sh1 rs' where first: "serve c sh = Some (r, sh1)" and rest: "serve_all calls sh1 = Some (rs', sh')"
    and rs: "rs = r # rs'"
    by (auto split: option.splits prod.splits)
  have "dc_connection c \<notin> stuck \<Longrightarrow> sq_rollback (dc_sqlite c) w" for w using Cons.prems(3) by simp
  note out = serve_outcome [OF first Cons.prems(2) this]
  from Cons.IH [OF rest out(2)] Cons.prems(3)
  have "history stuck (tables (sh_database sh1)) (zip calls rs') (tables (sh_database sh'))
     \<and> schema_migrations (sh_database sh') = schema_migrations (sh_database sh1)" by simp
  with out(1) show ?case
    by (cases rule: block_outcome.cases) (auto simp: rs intro: history.intros)
qed

lemma idle_outside_may_stick: "idle_outside (may_stick calls sh) sh"
  by (simp add: idle_outside_def may_stick_def)

text \<open>
  C32. The queue on the database. Workers, reaper and controller run any operations of the queue in any
  order, each through \<open>transaction\<close> on its connection, while \<open>BEGIN\<close> is refused, and \<open>COMMIT\<close>,
  \<open>ROLLBACK\<close> and \<open>PRAGMA\<close> fail, as they like. On clocks that count the sleeps, every call returns. The shared
  tables are those of a history in which each call happened as a whole with the answer of the queue, or was
  refused by the queue, or raised because it was disturbed, without any effect. The tracking table of the migrations is
  untouched, and the invariant of the queue and the uniqueness of the authoritative attempt are kept.
\<close>

theorem queue_on_database:
  assumes "\<forall>c \<in> set calls. counts_sleeps c" and "db_inv (tables (sh_database sh))"
  shows "\<exists>rs sh'. serve_all calls sh = Some (rs, sh') \<and> length rs = length calls
    \<and> history (may_stick calls sh) (tables (sh_database sh)) (zip calls rs) (tables (sh_database sh'))
    \<and> schema_migrations (sh_database sh') = schema_migrations (sh_database sh)
    \<and> db_inv (tables (sh_database sh')) \<and> authority_unique (attempts (tables (sh_database sh')))"
proof -
  obtain rs sh' where run: "serve_all calls sh = Some (rs, sh')" "length rs = length calls"
    using serve_all_answers [OF assms(1)] by blast
  have "history (may_stick calls sh) (tables (sh_database sh)) (zip calls rs) (tables (sh_database sh'))
     \<and> schema_migrations (sh_database sh') = schema_migrations (sh_database sh)"
    by (rule serve_all_history [OF run(1) idle_outside_may_stick]) (auto simp: may_stick_def)
  moreover from this have "db_inv (tables (sh_database sh'))"
    using queue_steps_preserve(1) [OF history_steps assms(2)] by blast
  ultimately show ?thesis
    using run db_inv_authority_unique by blast
qed

text \<open>
  Two calls on one connection: the commit of the first fails and so does its rollback, the second finds the
  transaction still open; another connection then claims the job.
\<close>

definition ex_broken :: "db sqlite" where
  "ex_broken = ex_sqlite\<lparr>sq_commit := \<lambda>_. Some (operational_error ''disk I/O error''), sq_rollback := \<lambda>_. False\<rparr>"

definition ex_call :: "string \<Rightarrow> db sqlite \<Rightarrow> db_call" where
  "ex_call conn sq = \<lparr>dc_connection = conn, dc_op = Op_claim ''w'' 100 None 50 ex_fresh, dc_sqlite = sq,
     dc_begins = \<lambda>_. None, dc_elapsed = \<lambda>n. of_nat n, dc_jitter = \<lambda>_. 0\<rparr>"

definition ex_shared :: shared where
  "ex_shared = \<lparr>sh_database = \<lparr>tables = Queue_Properties.ex_db, schema_migrations = []\<rparr>,
     sh_connections = \<lambda>_. ex_connection Queue_Properties.ex_db\<rparr>"

definition ex_calls :: "db_call list" where
  "ex_calls = [ex_call ''first'' ex_broken, ex_call ''first'' ex_sqlite, ex_call ''second'' ex_sqlite]"

theorem queue_on_database_witness:
  "\<exists>rs sh'. serve_all ex_calls ex_shared = Some (rs, sh') \<and> length rs = 3
    \<and> history (may_stick ex_calls ex_shared) Queue_Properties.ex_db (zip ex_calls rs) (tables (sh_database sh'))
    \<and> authority_unique (attempts (tables (sh_database sh')))"
proof -
  have "of_nat i + delay_at i \<le> (of_nat (Suc i) :: rat)" for i
    using delay_at_bounds(2) [of i] by simp
  then have "\<forall>c \<in> set ex_calls. counts_sleeps c"
    by (simp add: ex_calls_def ex_call_def counts_sleeps_def)
  moreover have "db_inv (tables (sh_database ex_shared))"
    using planned_db_inv [OF ex_planned] by (simp add: ex_shared_def)
  ultimately show ?thesis
    using queue_on_database [of ex_calls ex_shared] by (simp add: ex_shared_def) (auto simp: ex_calls_def)
qed

text \<open>What the three calls answer.\<close>

lemma ex_calls_answers:
  "map_option fst (serve_all ex_calls ex_shared)
    = Some [Inl (operational_error ''disk I/O error''), database_error, Inr (A_claimed (Some ex_handle))]"
proof -
  have body: "op_body (Op_claim ''w'' 100 None 50 ex_fresh) Queue_Properties.ex_db = Inr (A_claimed (Some ex_handle), ex_claimed)"
    by code_simp
  have busy: "\<not> busy_message ''cannot start a transaction within a transaction''" by code_simp
  show ?thesis
    by (simp add: ex_calls_def ex_call_def ex_shared_def serve_def transaction_def acquire_step busy body
        on_tables_def current_def begin_transaction_def run_block_def commit_def rollback_def
        ex_broken_def ex_sqlite_def ex_connection_def begin_answers_def reset_timeout_def
        Let_def database_error_def del: op_body.simps)
qed

end
