(* ===== verification/Registry_Dicts.thy ===== *)
theory Registry_Dicts
  imports Registry Py_Files
begin

text \<open>
  The content hashes of \<open>src/src/verifierci/models/task.py\<close> and \<open>models/verifier.py\<close> on plain dictionaries,
  which the functions accept beside their dataclasses. A dictionary is its items with distinct keys. How \<open>sorted\<close> treats
  lists that are not all texts (numbers, or mixed ones, which raise a \<open>TypeError\<close>) is the parameter \<open>order\<close>. Sets, byte
  strings and other iterables that canonical JSON does not know are outside: \<open>V_other\<close> is taken as not
  iterable. The last lemmas show that a dictionary of the fields of a record has the hash of the record.
\<close>

type_synonym pydict = "(string \<times> pyval) list"

text \<open>\<open>d[key]\<close> and \<open>d.get(key, ())\<close>\<close>

definition item :: "pydict \<Rightarrow> string \<Rightarrow> pyval res" where
  "item d k = (case map_of d k of Some v \<Rightarrow> Inr v | None \<Rightarrow> Inl (PyExc ''KeyError'' k))"

definition item_or_empty :: "pydict \<Rightarrow> string \<Rightarrow> pyval" where
  "item_or_empty d k = (case map_of d k of Some v \<Rightarrow> v | None \<Rightarrow> V_seq [])"

fun text_of :: "pyval \<Rightarrow> string option" where
  "text_of (V_str s) = Some s"
| "text_of _ = None"

text \<open>What iterating a value yields: a text its characters, a mapping its keys.\<close>

definition items_of :: "pyval \<Rightarrow> pyval list res" where
  "items_of v = (case v of
     V_seq xs \<Rightarrow> Inr xs
   | V_str s \<Rightarrow> Inr (map V_str (chars_of s))
   | V_mapping kvs \<Rightarrow> Inr (map (V_str \<circ> fst) kvs)
   | _ \<Rightarrow> Inl (PyExc ''TypeError'' ''object is not iterable''))"

text \<open>\<open>list(v)\<close>\<close>

definition list_values :: "pyval \<Rightarrow> pyval res" where
  "list_values v = bind_res (items_of v) (\<lambda>xs. Inr (V_seq xs))"

text \<open>\<open>sorted(v)\<close>\<close>

definition sorted_values :: "(pyval list \<Rightarrow> pyval list res) \<Rightarrow> pyval \<Rightarrow> pyval res" where
  "sorted_values order v = bind_res (items_of v) (\<lambda>xs.
     if list_all (\<lambda>x. text_of x \<noteq> None) xs then Inr (V_seq (map V_str (sort (List.map_filter text_of xs))))
     else bind_res (order xs) (\<lambda>ys. Inr (V_seq ys)))"

definition requirement_hash_dict ::
    "(string \<Rightarrow> string) \<Rightarrow> (pyfloat \<Rightarrow> string) \<Rightarrow> (pyval list \<Rightarrow> pyval list res) \<Rightarrow> pydict \<Rightarrow> string res" where
  "requirement_hash_dict H fr order d =
    bind_res (item d ''requirement_id'') (\<lambda>requirement_id.
    bind_res (item d ''text'') (\<lambda>content.
    bind_res (item d ''source_kind'') (\<lambda>source_kind.
    bind_res (sorted_values order (item_or_empty d ''evidence_digests'')) (\<lambda>evidence.
    bind_res (item d ''source_locator'') (\<lambda>source_locator.
    bind_res (item d ''allowed_variation'') (\<lambda>allowed_variation.
    canonical_hash H fr (V_mapping [
      (''requirement_id'', requirement_id), (''text'', content), (''source_kind'', source_kind),
      (''evidence_digests'', evidence), (''source_locator'', source_locator),
      (''allowed_variation'', allowed_variation)])))))))"

definition contract_hash_dict ::
    "(string \<Rightarrow> string) \<Rightarrow> (pyfloat \<Rightarrow> string) \<Rightarrow> (pyval list \<Rightarrow> pyval list res) \<Rightarrow> pydict \<Rightarrow> string res" where
  "contract_hash_dict H fr order d =
    bind_res (item d ''task_id'') (\<lambda>task_id.
    bind_res (item d ''version'') (\<lambda>version.
    bind_res (sorted_values order (item_or_empty d ''requirement_hashes'')) (\<lambda>requirement_hashes.
    bind_res (item d ''allowed_variation'') (\<lambda>allowed_variation.
    bind_res (sorted_values order (item_or_empty d ''unresolved_questions'')) (\<lambda>unresolved_questions.
    bind_res (sorted_values order (item_or_empty d ''evidence_digests'')) (\<lambda>evidence_digests.
    canonical_hash H fr (V_mapping [
      (''task_id'', task_id), (''version'', version), (''requirement_hashes'', requirement_hashes),
      (''allowed_variation'', allowed_variation), (''unresolved_questions'', unresolved_questions),
      (''evidence_digests'', evidence_digests)])))))))"

definition manifest_hash_dict ::
    "(string \<Rightarrow> string) \<Rightarrow> (pyfloat \<Rightarrow> string) \<Rightarrow> pydict \<Rightarrow> string res" where
  "manifest_hash_dict H fr d =
    bind_res (item d ''mode'') (\<lambda>mode.
    bind_res (bind_res (item d ''command'') list_values) (\<lambda>command.
    bind_res (list_values (item_or_empty d ''build_command'')) (\<lambda>build_command.
    bind_res (bind_res (item d ''expected_collection'') list_values) (\<lambda>expected_collection.
    bind_res (item d ''parser_id'') (\<lambda>parser_id.
    bind_res (item d ''report_path'') (\<lambda>report_path.
    bind_res (item d ''payload_digest'') (\<lambda>payload_digest.
    bind_res (bind_res (item d ''allowed_edit_paths'') list_values) (\<lambda>allowed_edit_paths.
    bind_res (bind_res (item d ''required_pass_ids'') list_values) (\<lambda>required_pass_ids.
    bind_res (list_values (item_or_empty d ''permitted_skips'')) (\<lambda>permitted_skips.
    bind_res (item d ''timeout_seconds'') (\<lambda>timeout_seconds.
    canonical_hash H fr (V_mapping [
      (''mode'', mode), (''command'', command), (''build_command'', build_command),
      (''expected_collection'', expected_collection), (''parser_id'', parser_id), (''report_path'', report_path),
      (''payload_digest'', payload_digest), (''allowed_edit_paths'', allowed_edit_paths),
      (''required_pass_ids'', required_pass_ids), (''permitted_skips'', permitted_skips),
      (''timeout_seconds'', timeout_seconds)]))))))))))))"

section \<open>Agreement with the records\<close>

lemma sorted_texts: "sorted_values order (V_seq (map V_str ss)) = Inr (V_seq (map V_str (sort ss)))"
proof -
  have "List.map_filter text_of (map V_str ss) = ss"
    by (induction ss) (simp_all add: List.map_filter_simps)
  then show ?thesis by (simp add: sorted_values_def items_of_def list_all_iff)
qed

text \<open>
  A dictionary that has the fields of a record, whatever its order and its other entries, has the hash of the record.
\<close>

lemma requirement_hash_dict_agrees:
  assumes "map_of d ''requirement_id'' = Some (V_str (rq_requirement_id r))" "map_of d ''text'' = Some (V_str (rq_text r))"
    "map_of d ''source_kind'' = Some (V_str (rq_source_kind r))"
    "map_of d ''evidence_digests'' = Some (V_seq (map V_str (rq_evidence_digests r)))"
    "map_of d ''source_locator'' = Some (V_str (rq_source_locator r))"
    "map_of d ''allowed_variation'' = Some (V_str (rq_allowed_variation r))"
  shows "requirement_hash_dict H fr order d = requirement_hash H fr r"
  using assms
  by (simp add: requirement_hash_dict_def item_def item_or_empty_def sorted_texts requirement_hash_def requirement_payload_def)

lemma contract_hash_dict_agrees:
  assumes "map_of d ''task_id'' = Some (V_str (ct_task_id c))" "map_of d ''version'' = Some (V_str (ct_version c))"
    "map_of d ''requirement_hashes'' = Some (V_seq (map V_str (ct_requirement_hashes c)))"
    "map_of d ''allowed_variation'' = Some (V_str (ct_allowed_variation c))"
    "map_of d ''unresolved_questions'' = Some (V_seq (map V_str (ct_unresolved_questions c)))"
    "map_of d ''evidence_digests'' = Some (V_seq (map V_str (ct_evidence_digests c)))"
  shows "contract_hash_dict H fr order d = contract_hash H fr c"
  using assms
  by (simp add: contract_hash_dict_def item_def item_or_empty_def sorted_texts contract_hash_def contract_payload_def)

definition manifest_dict :: "VerifierManifest \<Rightarrow> pydict" where
  "manifest_dict m = [
     (''manifest_hash'', V_str (vm_manifest_hash m)),
     (''mode'', V_str (vm_mode m)), (''command'', V_seq (map V_str (vm_command m))),
     (''build_command'', V_seq (map V_str (vm_build_command m))),
     (''expected_collection'', V_seq (map V_str (vm_expected_collection m))),
     (''parser_id'', V_str (vm_parser_id m)), (''report_path'', V_str (vm_report_path m)),
     (''payload_digest'', V_str (vm_payload_digest m)),
     (''allowed_edit_paths'', V_seq (map V_str (vm_allowed_edit_paths m))),
     (''required_pass_ids'', V_seq (map V_str (vm_required_pass_ids m))),
     (''permitted_skips'', V_seq (map V_str (vm_permitted_skips m))),
     (''timeout_seconds'', V_int (vm_timeout_seconds m))]"

lemma manifest_hash_dict_agrees: "manifest_hash_dict H fr (manifest_dict m) = manifest_hash H fr m"
  by (simp add: manifest_hash_dict_def item_def item_or_empty_def list_values_def items_of_def manifest_dict_def
      manifest_hash_def verifier_payload_def)

end
