(* ===== verification/Artifact_Store.thy ===== *)
theory Artifact_Store
  imports Artifact_Properties Py_Files
begin

text \<open>
  The class \<open>ArtifactStore\<close> of \<open>src/src/verifierci/storage/artifacts.py\<close>: a root directory and the
  functions of the module on it, with the default arguments of the methods. An omitted argument is \<open>None\<close>. The
  functions keep the files under their digests; \<open>digest_path\<close> is the path a digest stands for, and two digests never share
  one. \<open>resolve\<close> is \<open>str(Path.resolve())\<close>, \<open>mkdir\<close> the error of creating a directory, if any.
\<close>

record ArtifactStore =
  as_root :: string

definition make_directory :: "(string \<Rightarrow> exn option) \<Rightarrow> string \<Rightarrow> unit res" where
  "make_directory mkdir p = (case mkdir p of Some e \<Rightarrow> Inl e | None \<Rightarrow> Inr ())"

definition open_store :: "(string \<Rightarrow> exn option) \<Rightarrow> string \<Rightarrow> ArtifactStore res" where
  "open_store mkdir root_dir =
    (let p = path_of root_dir in
     bind_res (make_directory mkdir p) (\<lambda>_.
     bind_res (make_directory mkdir (join_path p ''sha256'')) (\<lambda>_.
     bind_res (make_directory mkdir (join_path p ''tmp'')) (\<lambda>_.
     Inr \<lparr>as_root = p\<rparr>))))"

text \<open>\<open>root / "sha256" / digest[:2] / digest[2:]\<close>\<close>

definition digest_path :: "string \<Rightarrow> string \<Rightarrow> string" where
  "digest_path root_dir digest = join_path (join_path (join_path root_dir ''sha256'') (take 2 digest)) (drop 2 digest)"

definition storage_uri :: "(string \<Rightarrow> string) \<Rightarrow> ArtifactStore \<Rightarrow> string \<Rightarrow> string" where
  "storage_uri resolve s digest = resolve (digest_path (as_root s) digest)"

definition or_default :: "'a \<Rightarrow> 'a option \<Rightarrow> 'a" where
  "or_default d v = (case v of None \<Rightarrow> d | Some x \<Rightarrow> x)"

definition store_put_stream ::
    "(string \<Rightarrow> string) \<Rightarrow> (string \<Rightarrow> string) \<Rightarrow> datetime \<Rightarrow> ArtifactStore \<Rightarrow> store \<Rightarrow> string list \<Rightarrow> int \<Rightarrow> string
     \<Rightarrow> string \<Rightarrow> string option \<Rightarrow> datetime option \<Rightarrow> bool \<Rightarrow> Artifact res \<times> store" where
  "store_put_stream H resolve now s st stream max_bytes kind access_policy media_type retention_until with_conn =
    put_stream H (storage_uri resolve s) now st stream max_bytes kind access_policy
      (or_default ''application/octet-stream'' media_type) retention_until with_conn"

definition store_put_bytes ::
    "(string \<Rightarrow> string) \<Rightarrow> (string \<Rightarrow> string) \<Rightarrow> datetime \<Rightarrow> ArtifactStore \<Rightarrow> store \<Rightarrow> string \<Rightarrow> int \<Rightarrow> string
     \<Rightarrow> string \<Rightarrow> string option \<Rightarrow> datetime option \<Rightarrow> bool \<Rightarrow> Artifact res \<times> store" where
  "store_put_bytes H resolve now s st data max_bytes kind access_policy media_type retention_until with_conn =
    put_bytes H (storage_uri resolve s) now st data max_bytes kind access_policy
      (or_default ''application/octet-stream'' media_type) retention_until with_conn"

definition store_register_artifact :: "Artifact \<Rightarrow> store \<Rightarrow> store" where
  "store_register_artifact artifact st = st\<lparr>st_rows := register_artifact artifact (st_rows st)\<rparr>"

definition store_open_verified :: "(string \<Rightarrow> string) \<Rightarrow> store \<Rightarrow> string \<Rightarrow> string res" where
  "store_open_verified H st digest = open_verified H st digest"

definition store_collect_outputs ::
    "(string \<Rightarrow> string) \<Rightarrow> (string \<Rightarrow> string) \<Rightarrow> datetime \<Rightarrow> ArtifactStore \<Rightarrow> (string \<Rightarrow> output_view) \<Rightarrow> string list \<Rightarrow> store
     \<Rightarrow> int option \<Rightarrow> SandboxPolicy option \<Rightarrow> int option \<Rightarrow> int option \<Rightarrow> string option \<Rightarrow> bool
     \<Rightarrow> Artifact list res \<times> store" where
  "store_collect_outputs H resolve now s view allowed st max_bytes policy max_aggregate_bytes max_files access_policy with_conn =
    collect_outputs H (storage_uri resolve s) now view allowed st max_bytes policy max_aggregate_bytes max_files
      (or_default ''restricted'' access_policy) with_conn"

definition store_garbage_collect :: "bool option \<Rightarrow> datetime \<Rightarrow> store \<Rightarrow> string list \<times> store" where
  "store_garbage_collect dry_run now st = garbage_collect (or_default True dry_run) now st"

section \<open>The layout\<close>

text \<open>Components of a path: neither empty nor a dot, and without separators.\<close>

definition component :: "string \<Rightarrow> bool" where
  "component p \<longleftrightarrow> p \<noteq> [] \<and> p \<noteq> ''.'' \<and> CHR ''/'' \<notin> set p"

lemma split_on_single: "c \<notin> set p \<Longrightarrow> split_on c p = [p]"
  by (induction p) auto

lemma split_on_join_parts:
  "ps \<noteq> [] \<Longrightarrow> \<forall>p \<in> set ps. component p \<Longrightarrow> split_on CHR ''/'' (join_parts ps) = ps"
  by (induction ps rule: join_parts.induct) (simp_all add: component_def split_on_single split_on_append)

lemma path_root_cases: "path_root s = [] \<or> path_root s = ''/'' \<or> path_root s = ''//''"
  by (simp add: path_root_def)

lemma join_parts_first:
  assumes "\<forall>p \<in> set ps. component p"
  shows "\<not> prefix ''/'' (join_parts ps)"
proof (cases ps rule: join_parts.cases)
  case (2 p)
  with assms show ?thesis by (cases p) (simp_all add: component_def)
next
  case (3 p q qs)
  with assms show ?thesis by (cases p) (simp_all add: component_def)
qed simp

lemma path_parts_components: "\<forall>p \<in> set (path_parts s). component p"
  by (auto simp: path_parts_def component_def dest: split_on_no_sep)

text \<open>Rendering a path and reading it again.\<close>

lemma make_path_reads:
  assumes "\<forall>p \<in> set ps. component p" and "ps \<noteq> []"
  shows "path_parts (make_path (path_root s) ps) = ps" and "path_root (make_path (path_root s) ps) = path_root s"
proof -
  have keep: "filter (\<lambda>p. p \<noteq> [] \<and> p \<noteq> ''.'') ps = ps"
    using assms(1) by (auto simp: component_def filter_id_conv)
  have parts: "split_on CHR ''/'' (join_parts ps) = ps"
    by (rule split_on_join_parts [OF assms(2,1)])
  obtain c cs where first: "join_parts ps = c # cs" "c \<noteq> CHR ''/''"
    using join_parts_first [OF assms(1)] assms by (cases "join_parts ps"; cases ps rule: join_parts.cases) (auto simp: component_def)
  show "path_parts (make_path (path_root s) ps) = ps"
    using path_root_cases [of s] keep parts assms(2) by (elim disjE) (simp_all add: path_parts_def make_path_def)
  show "path_root (make_path (path_root s) ps) = path_root s"
    using path_root_cases [of s] first assms(2) by (elim disjE) (simp_all add: path_root_def make_path_def)
qed

lemma component_parts: "component p \<Longrightarrow> path_parts p = [p] \<and> path_root p = []"
  using make_path_reads [of "[p]" "[]"] by (simp add: make_path_def path_root_def)

lemma join_path_component:
  "component p \<Longrightarrow> join_path s p = make_path (path_root s) (path_parts s @ [p])"
  by (simp add: join_path_def component_parts)

lemma digest_components:
  assumes "valid_digest digest"
  shows "component (take 2 digest)" and "component (drop 2 digest)"
proof -
  have hex: "set digest \<subseteq> set ''0123456789abcdef''" and len: "length digest = 64"
    using assms by (simp_all add: valid_digest_def list_all_iff subset_iff)
  have "CHR ''/'' \<notin> set ''0123456789abcdef''" "CHR ''.'' \<notin> set ''0123456789abcdef''" by simp_all
  with hex have chars: "CHR ''/'' \<notin> set digest" "CHR ''.'' \<notin> set digest" by blast+
  have sub: "component x" if "x \<noteq> []" "set x \<subseteq> set digest" for x
    using chars that unfolding component_def by (metis list.set_intros(1) subsetD)
  show "component (take 2 digest)" "component (drop 2 digest)"
    by (rule sub; use len in \<open>auto dest: in_set_takeD in_set_dropD\<close>)+
qed

lemma digest_path_make_path:
  assumes "valid_digest digest"
  shows "digest_path s digest = make_path (path_root s) (path_parts s @ [''sha256'', take 2 digest, drop 2 digest])"
    and "path_parts (digest_path s digest) = path_parts s @ [''sha256'', take 2 digest, drop 2 digest]"
proof -
  note comps = digest_components [OF assms]
  have sha: "component ''sha256''" by (simp add: component_def)
  have reads: "path_parts (make_path (path_root s) (path_parts s @ ps)) = path_parts s @ ps"
    "path_root (make_path (path_root s) (path_parts s @ ps)) = path_root s" if "ps \<noteq> []" "\<forall>p \<in> set ps. component p" for ps
    using make_path_reads [of "path_parts s @ ps" s] that path_parts_components [of s] by auto
  show eq: "digest_path s digest = make_path (path_root s) (path_parts s @ [''sha256'', take 2 digest, drop 2 digest])"
    using comps sha by (simp add: digest_path_def join_path_component reads del: append_assoc) (simp add: reads)
  show "path_parts (digest_path s digest) = path_parts s @ [''sha256'', take 2 digest, drop 2 digest]"
    unfolding eq by (rule reads) (use comps sha in simp_all)
qed

text \<open>
  Two digests never share a path, so that the files of a store are a map from digests.
\<close>

lemma digest_path_inj:
  assumes "valid_digest a" and "valid_digest b"
  shows "digest_path s a = digest_path s b \<longleftrightarrow> a = b"
proof
  assume eq: "digest_path s a = digest_path s b"
  then have "path_parts (digest_path s a) = path_parts (digest_path s b)" by simp
  then have "take 2 a = take 2 b" "drop 2 a = drop 2 b"
    by (simp_all add: digest_path_make_path(2) assms)
  then show "a = b" by (metis append_take_drop_id)
qed simp

section \<open>Defaults\<close>

text \<open>Without \<open>dry_run=False\<close> the garbage collector of the class changes nothing.\<close>

lemma gc_loop_dry: "snd (gc_loop True now rows st) = st"
  by (induction rows arbitrary: st) (auto simp: Let_def case_prod_beta split: option.splits stamp.splits)

lemma default_gc_is_dry: "snd (store_garbage_collect None now st) = st"
  by (simp add: store_garbage_collect_def or_default_def garbage_collect_def gc_loop_dry)

text \<open>What the class stored it reads back, and the artifact names the path of its digest.\<close>

lemma store_put_bytes_Inr:
  assumes "store_put_bytes H resolve now s st data max_bytes kind access_policy media_type retention_until with_conn = (Inr a, st')"
  shows "art_storage_uri a = resolve (digest_path (as_root s) (art_digest a))"
    and "art_media_type a = or_default ''application/octet-stream'' media_type"
  using assms
  by (auto simp: store_put_bytes_def put_bytes_cases Let_def artifact_at_def storage_uri_def artifact_limit_def split: if_splits)

end
