(* ===== verification/Metrics.thy ===== *)
theory Metrics
  imports Models "HOL-Library.Log_Nat"
begin

text \<open>
  The rates of \<open>src/src/verifierci/metrics/rates.py\<close> and the verdict of
  \<open>src/src/verifierci/evaluators/compatibility.py\<close>. Python's true division of two integers is the
  exact quotient rounded to a double, half to even; a quotient beyond the doubles is an \<open>OverflowError\<close>. The model has one
  zero for the two of Python.
\<close>

section \<open>True division\<close>

text \<open>The exponent of the binade of \<open>n / d\<close>, for positive \<open>n\<close> and \<open>d\<close>.\<close>

definition binade :: "int \<Rightarrow> int \<Rightarrow> int" where
  "binade n d = (let e = bitlen n - bitlen d in if 2 powi e \<le> (of_int n / of_int d :: rat) then e else e - 1)"

definition round_half_even :: "rat \<Rightarrow> int" where
  "round_half_even x =
    (let f = \<lfloor>x\<rfloor>; r = x - of_int f in
     if r < 1 / 2 \<or> r = 1 / 2 \<and> even f then f else f + 1)"

text \<open>The distance of neighbouring doubles in that binade: 53 significant bits, and no finer than the subnormals.\<close>

definition ulp :: "int \<Rightarrow> int \<Rightarrow> rat" where
  "ulp n d = 2 powi (max (-1074) (binade n d - 52))"

definition true_div :: "int \<Rightarrow> int \<Rightarrow> pyfloat res" where
  "true_div n d =
    (if d = 0 then Inl (PyExc ''ZeroDivisionError'' ''division by zero'')
     else if n = 0 then Inr (PFin 0)
     else let u = ulp \<bar>n\<bar> \<bar>d\<bar>; x = of_int (round_half_even (of_int \<bar>n\<bar> / of_int \<bar>d\<bar> / u)) * u in
       if 2 ^ 1024 \<le> x then Inl (PyExc ''OverflowError'' ''integer division result too large for a float'')
       else Inr (PFin (of_int (sgn n * sgn d) * x)))"

section \<open>Rates\<close>

definition invalid_acceptance_rate :: "int \<Rightarrow> int \<Rightarrow> pyfloat option res" where
  "invalid_acceptance_rate accepted total_invalid =
    (if total_invalid = 0 then Inr None else bind_res (true_div accepted total_invalid) (\<lambda>x. Inr (Some x)))"

definition valid_rejection_rate :: "int \<Rightarrow> int \<Rightarrow> pyfloat option res" where
  "valid_rejection_rate rejected total_valid =
    (if total_valid = 0 then Inr None else bind_res (true_div rejected total_valid) (\<lambda>x. Inr (Some x)))"

definition compatibility_score :: "bool \<Rightarrow> bool \<Rightarrow> string" where
  "compatibility_score old new =
    (if old \<and> new then ''stable_accept''
     else if old \<and> \<not> new then ''regressed_rejection''
     else if \<not> old \<and> new then ''improved_accept''
     else ''stable_reject'')"

text \<open>The verdict tells the four pairs of outcomes apart.\<close>

lemma compatibility_score_inj:
  "compatibility_score a b = compatibility_score c d \<longleftrightarrow> a = c \<and> b = d"
  by (auto simp: compatibility_score_def)

lemma bitlen_bounds_rat:
  assumes "0 < n"
  shows "2 powi (bitlen n - 1) \<le> (of_int n :: rat)" and "(of_int n :: rat) < 2 powi bitlen n"
proof -
  have pos: "0 < bitlen n" using assms bitlen_bounds [OF assms] by (cases "bitlen n = 0") (auto simp: bitlen_def)
  from bitlen_bounds [OF assms] have "2 ^ nat (bitlen n - 1) \<le> n" "n < 2 ^ nat (bitlen n)" by simp_all
  then have "of_int (2 ^ nat (bitlen n - 1)) \<le> (of_int n :: rat)" "(of_int n :: rat) < of_int (2 ^ nat (bitlen n))"
    by (simp_all only: of_int_le_iff of_int_less_iff)
  with pos show "2 powi (bitlen n - 1) \<le> (of_int n :: rat)" "(of_int n :: rat) < 2 powi bitlen n"
    by (simp_all add: power_int_def)
qed

lemma binade_le:
  assumes "0 < n" and "0 < d"
  shows "2 powi binade n d \<le> (of_int n / of_int d :: rat)"
proof -
  let ?e = "bitlen n - bitlen d"
  have "2 powi (?e - 1) * (of_int d :: rat) \<le> 2 powi (?e - 1) * 2 powi bitlen d"
    using bitlen_bounds_rat(2) [OF assms(2)] by (intro mult_left_mono) auto
  also have "\<dots> = 2 powi (bitlen n - 1)"
    by (simp add: power_int_add [symmetric])
  also have "\<dots> \<le> of_int n"
    by (rule bitlen_bounds_rat(1) [OF assms(1)])
  finally have "2 powi (?e - 1) \<le> (of_int n / of_int d :: rat)"
    using assms(2) by (simp add: pos_le_divide_eq)
  then show ?thesis by (simp add: binade_def Let_def)
qed

lemma round_half_even_near: "\<bar>of_int (round_half_even x) - x\<bar> \<le> 1 / 2"
proof -
  have "of_int \<lfloor>x\<rfloor> \<le> x" "x < of_int \<lfloor>x\<rfloor> + 1" by linarith+
  then show ?thesis unfolding round_half_even_def Let_def by (auto simp: abs_le_iff)
qed

lemma round_half_even_mono_int: "x \<le> of_int m \<Longrightarrow> round_half_even x \<le> m"
  by (auto simp: round_half_even_def Let_def) linarith+

lemma round_half_even_nonneg: "0 \<le> x \<Longrightarrow> 0 \<le> round_half_even x"
  by (auto simp: round_half_even_def Let_def)

text \<open>
  A rate of some of a positive number of cases is a number between 0 and 1, within \<open>2\<^sup>-\<^sup>5\<^sup>3\<close> of the exact share.
\<close>

lemma true_div_share:
  assumes "0 \<le> hits" and "hits \<le> n" and "0 < n"
  shows "\<exists>x. true_div hits n = Inr (PFin x) \<and> 0 \<le> x \<and> x \<le> 1 \<and> \<bar>x - of_int hits / of_int n\<bar> \<le> 1 / 2 ^ 53"
proof (cases "hits = 0")
  case True
  with assms show ?thesis by (simp add: true_div_def)
next
  case False
  with assms have hits: "0 < hits" by simp
  let ?q = "of_int hits / of_int n :: rat" and ?u = "ulp hits n"
  define k where "k = - max (-1074) (binade hits n - 52)"
  have q: "0 \<le> ?q" "?q \<le> 1" using assms by (simp_all add: divide_le_eq_1)
  have "2 powi binade hits n \<le> (1 :: rat)"
    using binade_le [OF hits assms(3)] q(2) by simp
  then have "binade hits n \<le> 0"
    by (rule contrapos_pp) (use power_int_strict_increasing [of 0 "binade hits n" "2 :: rat"] in \<open>simp add: not_le\<close>)
  then have k: "52 \<le> k" "?u = 1 / 2 ^ nat k"
    by (auto simp: k_def ulp_def power_int_def field_simps)
  let ?m = "round_half_even (?q / ?u)"
  have scaled: "0 \<le> ?q / ?u" "?q / ?u \<le> of_int (2 ^ nat k)"
    using assms mult_right_mono [OF q(2), of "2 ^ nat k"] by (simp_all add: k(2))
  note m = round_half_even_mono_int [OF scaled(2)] round_half_even_nonneg [OF scaled(1)]
  let ?x = "of_int ?m * ?u"
  have "(of_int ?m :: rat) \<le> of_int (2 ^ nat k)" using m(1) by (simp only: of_int_le_iff)
  then have x: "0 \<le> ?x" "?x \<le> 1" using m(2) by (simp_all add: k(2))
  have "\<bar>?x - ?q\<bar> = \<bar>of_int ?m - ?q / ?u\<bar> * ?u"
    by (simp add: k(2) field_simps abs_mult [symmetric] flip: abs_mult)
  also have "\<dots> \<le> 1 / 2 * ?u"
    using round_half_even_near [of "?q / ?u"] by (intro mult_right_mono) (auto simp: k(2))
  also have "\<dots> \<le> 1 / 2 ^ 53"
  proof -
    have "(2 :: rat) ^ 52 \<le> 2 ^ nat k" using k(1) by (intro power_increasing) auto
    then show ?thesis by (simp add: k(2) field_simps)
  qed
  finally have near: "\<bar>?x - ?q\<bar> \<le> 1 / 2 ^ 53" .
  have "\<not> 2 ^ 1024 \<le> ?x" using x(2) by (simp add: not_le order_le_less_trans [of _ 1])
  then have "true_div hits n = Inr (PFin ?x)"
    using hits assms(3) by (simp add: true_div_def Let_def)
  with x near show ?thesis by auto
qed

text \<open>
  C40. The two rates are shares. For a number of hits among \<open>n\<close> cases both functions answer nothing if there are no cases;
  otherwise neither raises, and both answer one number, which lies between 0 and 1 and is within \<open>2\<^sup>-\<^sup>5\<^sup>3\<close> of the
  exact share, so that rounding to a double never makes a rate exceed 1.
\<close>

theorem rates_are_shares:
  assumes "0 \<le> hits" and "hits \<le> n"
  shows "if n = 0 then invalid_acceptance_rate hits n = Inr None \<and> valid_rejection_rate hits n = Inr None
    else \<exists>x. invalid_acceptance_rate hits n = Inr (Some (PFin x)) \<and> valid_rejection_rate hits n = Inr (Some (PFin x))
      \<and> 0 \<le> x \<and> x \<le> 1 \<and> \<bar>x - of_int hits / of_int n\<bar> \<le> 1 / 2 ^ 53"
proof (cases "n = 0")
  case False
  with assms obtain x where "true_div hits n = Inr (PFin x)" "0 \<le> x" "x \<le> 1" "\<bar>x - of_int hits / of_int n\<bar> \<le> 1 / 2 ^ 53"
    using true_div_share [of hits n] by auto
  with False show ?thesis by (simp add: invalid_acceptance_rate_def valid_rejection_rate_def)
qed (simp add: invalid_acceptance_rate_def valid_rejection_rate_def)

theorem rates_are_shares_witness:
  "\<exists>x. invalid_acceptance_rate 2 3 = Inr (Some (PFin x)) \<and> x \<le> 1 \<and> \<bar>x - 2 / 3\<bar> \<le> 1 / 2 ^ 53"
  using rates_are_shares [of 2 3] by auto

end
