(* ===== verification/Spec2Isabelle.thy ===== *)
theory Spec2Isabelle
  imports Queue_Lifecycle Queue_Reap Queue_Claims Queue_Properties Outcome_Properties Matrix_Properties
    Planner_Properties Panel Registry Sandbox_Properties Artifact_Properties Worker_Properties Worker_Loop Codec_Properties
    Database_Properties Import_Properties Queue_On_Database Registry_Dicts Artifact_Store Metrics
begin

text \<open>
  VerifierCI audits the verifiers of coding agents: it runs every pinned patch case under two
  versions of a verifier, several times each, and reduces the attempts to an acceptance matrix. This
  library models its Python package, \<open>src/src/verifierci/\<close>, and proves what the parts promise each
  other. This theory composes them; the others are, in the order of the data:

  \<^item> \<open>Prelude\<close>, \<open>Py_Text\<close>, \<open>Py_Strings\<close>, \<open>Py_Files\<close>: results of fallible functions (\<open>exn + 'a\<close>), tables
    as lists of rows with a key (locale \<open>keyed_table\<close>, interpreted for the jobs, attempts, runs and
    artifact rows), sorting by key, Python's \<open>str\<close> methods, \<open>int\<close> and \<open>fnmatch\<close> on UTF-8 bytes, text files and
    the paths of \<open>pathlib\<close>.
  \<^item> \<open>Errors\<close> (\<open>errors.py\<close>), \<open>Models\<close> (the dataclasses of \<open>models/\<close> as records).
  \<^item> \<open>Canonical_Json\<close>, \<open>Canonical_Records\<close> (\<open>models/task.py\<close>): canonical bytes determine the
    value they were made from; every content identity below rests on it.
  \<^item> \<open>Json_Loads\<close>, \<open>Codec\<close>, \<open>Codec_Properties\<close> (\<open>models/protocol.py\<close>): the grammar of \<open>json.loads\<close>, the
    registry of all record classes with the types of their fields, and the decoder of records.
  \<^item> \<open>Planner\<close>, \<open>Planner_Properties\<close> (\<open>execution/planner.py\<close>): a manifest becomes jobs,
    one per task, case, verifier and repetition, identified by hashes of their coordinates.
  \<^item> \<open>Panel\<close> (\<open>models/panel.py\<close>), \<open>Registry\<close>, \<open>Registry_Dicts\<close> (\<open>models/task.py\<close>, \<open>models/verifier.py\<close>): panels
    of patch cases and their lineage, content hashes and validation of tasks, contracts and
    verifiers, command templates; the hashes of plain dictionaries.
  \<^item> \<open>Local_Import\<close>, \<open>Import_Properties\<close> (\<open>adapters/local.py\<close>): a directory of YAML files becomes a task with
    its contract, requirements, environment, snapshot, verifier and control cases.
  \<^item> \<open>Database\<close>, \<open>Database_Properties\<close> (\<open>storage/db.py\<close>): connections, transactions with the busy retry, backups
    and schema migrations.
  \<^item> \<open>Queue\<close>, \<open>Queue_Invariant\<close>, \<open>Queue_Properties\<close>, \<open>Queue_Claims\<close>, \<open>Queue_Reap\<close>,
    \<open>Queue_Lifecycle\<close> (\<open>execution/jobs.py\<close> on the tables of
    \<open>storage/migrations/001_initial_schema.sql\<close>): the job queue with leases and fences.
  \<^item> \<open>Queue_On_Database\<close> (\<open>execution/jobs.py\<close> on \<open>storage/db.py\<close>): the operations of the queue as blocks of
    \<open>transaction\<close> on the connections of workers, reaper and controller.
  \<^item> \<open>Sandbox\<close>, \<open>Sandbox_Properties\<close> (\<open>execution/sandbox.py\<close>): patches, workspaces, processes.
  \<^item> \<open>Artifacts\<close>, \<open>Artifact_Properties\<close>, \<open>Artifact_Store\<close> (\<open>storage/artifacts.py\<close>): content-addressed evidence.
  \<^item> \<open>Outcomes\<close>, \<open>Outcome_Properties\<close> (\<open>evaluators/pytest_report.py\<close>, \<open>execution/outcomes.py\<close>):
    from a captured execution to accept, reject, invalid, error, flaky or cancelled.
  \<^item> \<open>Worker\<close>, \<open>Worker_Properties\<close>, \<open>Worker_Loop\<close> (\<open>execution/worker.py\<close>): one worker, which
    claims a job, runs it in the sandbox, stores the evidence, classifies it and submits the attempt.
  \<^item> \<open>Matrix\<close>, \<open>Matrix_Properties\<close> (\<open>execution/matrix.py\<close>): attempts become cells.
  \<^item> \<open>Metrics\<close> (\<open>metrics/rates.py\<close>, \<open>evaluators/compatibility.py\<close>): rates as doubles, and a verdict.

  State and operations. A table of the database is the list of its rows, in the record \<open>db\<close>; the
  body of a \<open>with transaction(conn, immediate=True)\<close> block is a function from the database to an
  exception or a value with the new database, and \<open>in_transaction\<close> adds the rollback, which
  \<open>Database_Properties\<close> shows to be what the connection does; \<open>Queue_On_Database\<close> lets \<open>BEGIN\<close>, \<open>COMMIT\<close>,
  \<open>ROLLBACK\<close> and \<open>PRAGMA\<close> fail at any call and shows that the queue still goes through whole operations. The constraints of
  the schema that a statement can violate make it raise. \<open>queue_step\<close> relates the databases before
  and after any queue operation with any arguments, and \<open>queue_steps\<close> is an execution of any length.
  The store maps a digest to what lies at its path; a directory tree maps relative paths to bytes. A
  \<open>world\<close> of the worker has all three. Functions keep their names and records their fields (behind a
  prefix, since Python's classes share field names); every raise and early return is a branch.

  Parameters. What is not Python code of the repository is an argument: \<open>H\<close> is SHA-256 in hexadecimal,
  \<open>fr\<close> the text of a float, \<open>loads\<close> and \<open>float_str\<close> are \<open>json.loads\<close> and \<open>float\<close> of a string,
  \<open>parse_version\<close> is that of \<open>packaging\<close>, \<open>git\<close> and \<open>spawn\<close> are what \<open>git apply\<close> and a child
  process do, \<open>flt\<close> and \<open>fromiso\<close> are \<open>float\<close> of a JSON token and \<open>datetime.fromisoformat\<close> in the codec, the
  records \<open>yaml_library\<close>, \<open>file_system\<close> and \<open>sqlite\<close> hold what PyYAML, the file system and SQLite answer to the
  importer and to the database layer, and there are the clock, fresh UUIDs, the environment and the answers of the file system.
  Theorems that need something of one say so in a hypothesis: that \<open>H\<close> does not collide on the values at hand, that
  a UUID is fresh, that the reports of \<open>os.stat\<close> and of reading a file agree. \<open>s_others\<close> in the surroundings of
  a call of the worker is what other connections do to the database between its transactions;
  theorems restrict it to sequences of queue operations, or to those that spare the worker's lease.

  What the lemmas show. The queue: an invariant (\<open>db_inv\<close>) of every reachable database, from which
  follow that an attempt is authoritative exactly if its job selected it, and then carries the last fence, fencing (a superseded handle never commits), finality of
  settled jobs and of cancellation, a bound on the attempts of a job, and a refinement of a five-rule machine;
  \<open>claim\<close>, \<open>mark_running\<close>, \<open>heartbeat\<close>, \<open>complete\<close> and \<open>reap_expired\<close> are characterised on every
  branch, the two loops against specifications without loops. The planner: \<open>expand\<close> is the
  sorted cross product of the pins, and hashes bind. Outcomes: a report is accepted exactly
  if it is complete and every collected test passed, and the first fault of an execution decides its classification. The matrix: a cell accepts or rejects
  only if every planned repetition did, each attempt is listed once, and row order is irrelevant. The sandbox: a patch
  is accepted exactly if every path its checked headers name is permitted, with the gaps of the checks by example; captured streams are bounded prefixes. The
  store: what is read is what was stored, and collection keeps its limits. The worker: each
  call settles its job or leaves it leased, an acceptance is earned, and the loop drains the queue.
  The codec: the parser inverts the printer, decoded records have the declared types at every depth, decoding
  inverts encoding, and its gaps by example. The importer: a bundle that is answered is consistent, references stay
  inside their directory, and the snapshot digest is ambiguous. The database layer: the busy retry is
  bounded, blocks are atomic, migrations commit a prefix with their tracking rows and running them again changes nothing,
  unless a file has changed, which is refused; what goes wrong with unpadded or repeated version numbers is shown by example.
  Rates lie between 0 and 1 and are the exact shares up to rounding.
  The last theorem below follows an audit from its plan to its matrix.

  Interfaces. \<open>keyed_table\<close> gives the laws of a table; \<open>invariant_system\<close> and \<open>simulated_system\<close>
  lift an invariant from small transitions to operations and executions (interpreted for the queue
  invariant and for the attempt budget); \<open>worker_moves\<close> lifts a relation on databases from queue
  operations to calls and loops of the worker (interpreted for the safety of the queue and for
  the number of pending jobs).

  Loops. There is no fuel: every loop is a total function. A round of \<open>claim_loop\<close> that does not answer
  fails a pending job of a cancelled run, so the number of pending jobs is its measure; the lineage search
  colours a case at each call, so the number of uncoloured cases is one; reading and decoding
  consume input; everything else is structural recursion. \<open>acquire\<close>, whose end depends on the clock,
  is a partial function into an option, with a theorem that bounds its rounds. \<open>run_until_terminal\<close> recurses over the list of
  the surroundings of its iterations, whose length is \<open>max_iterations\<close>. Python integers are \<open>int\<close>;
  counters and clocks stay far below the 64 bits of SQLite.

  Not modelled. The stubs \<open>contracts/\<close>, \<open>snapshots/\<close>, \<open>panels/\<close>, \<open>reports/\<close>, \<open>telemetry/\<close>, which are empty classes; the
  command line, which prints its version, and an entry point that raises \<open>NotImplementedError\<close>; the package files. Of
  \<open>storage/db.py\<close>, opening a connection is the plan of its effects, and the SQL of the migrations is a parameter. Inside the
  modelled files: the prose and details of exceptions, Python's recursion limit, the
  freezing of dictionaries by \<open>MappingProxyType\<close> (values here never change), the two \<open>TypedDict\<close>s of the wire, threads and process groups (their effect is in the answers above), temporary files, and races on the file system.
\<close>

section \<open>From the plan to the matrix\<close>

lemma expanded_jobs_planned:
  assumes "expand H fr m panel = Inr js"
  shows "list_all planned_job js" and "mset (map job_order js) = mset (coordinates m panel)"
    and "mset (map j_job_id js) = mset (map (\<lambda>k. H (coord_text (m_run_id m) k)) (coordinates m panel))"
proof -
  have js: "js = sort_key job_order (map (coord_job H (m_run_id m)) (coordinates m panel))"
    using assms by (simp add: expand_eq)
  show "list_all planned_job js"
    by (auto simp: js list_all_iff planned_job_def coord_job_def fresh_job_def split: prod.splits)
  show "mset (map job_order js) = mset (coordinates m panel)"
    by (simp add: js image_mset.compositionality comp_def)
  show "mset (map j_job_id js) = mset (map (\<lambda>k. H (coord_text (m_run_id m) k)) (coordinates m panel))"
    by (simp add: js image_mset.compositionality comp_def)
qed

lemma expanded_ids_distinct:
  assumes "expand H fr m panel = Inr js" and "pins_ok (m_task_pins m)"
    and "inj_on H (coord_text (m_run_id m) ` set (coordinates m panel))"
  shows "distinct (map j_job_id js)"
proof -
  have "inj_on (\<lambda>k. H (coord_text (m_run_id m) k)) (set (coordinates m panel))"
    using assms(3) by (auto simp: inj_on_def coord_text_inj)
  then have "distinct (map (\<lambda>k. H (coord_text (m_run_id m) k)) (coordinates m panel))"
    using coordinates_distinct [OF assms(2)] by (simp add: distinct_map)
  then show ?thesis
    using expanded_jobs_planned(3) [OF assms(1)] by (metis mset_eq_imp_distinct_iff)
qed

text \<open>
  C31. From the plan to the matrix. Expand a manifest whose pins name each task once, with distinct
  cases and two different verifiers; store the planned jobs; let a worker run any number of calls while the others run
  any queue operations. Then the jobs are still exactly the planned coordinates, each once; the queue
  invariant holds, so no coordinate has two authoritative attempts; and the matrix can be built from the
  jobs and attempts of the database: the reducer does not raise, and it has one cell per task, case and
  verifier. The hypothesis on \<open>H\<close> is that the planned coordinates do not collide.
\<close>

theorem planned_audit_reaches_matrix:
  assumes "expand H fr m panel = Inr js" and "pins_ok (m_task_pins m)"
    and "inj_on H (coord_text (m_run_id m) ` set (coordinates m panel))"
    and "w_db w = \<lparr>jobs = js, attempts = [], runs = [run], manifests = ms, artifact_digests = ds\<rparr>"
    and "r_state run = Run_PLANNED"
    and "\<And>s n db. s \<in> set ss \<Longrightarrow> queue_steps db (s_others s n db)"
    and "map (\<lambda>a. (a_attempt_id a, a_job_id a)) loaded
      = map (\<lambda>r. (ar_attempt_id r, ar_job_id r)) (attempts (w_db (snd (run_until_terminal lib wk ss rid w))))"
  shows "let db' = w_db (snd (run_until_terminal lib wk ss rid w)) in
    mset (map job_order (jobs db')) = mset (coordinates m panel) \<and> distinct (map job_order (jobs db'))
    \<and> db_inv db' \<and> authority_unique (attempts db')
    \<and> (\<exists>matrix. build_matrix H' fr' now m (jobs db') loaded adjs cases repos version = Inr matrix
        \<and> map (\<lambda>c. (cell_task_key c, cell_case_id c, cell_verifier_key c)) (mx_cells matrix)
            = sorted_list_of_set ((\<lambda>(t, c, v, r). (t, c, v)) ` set (coordinates m panel)))"
proof -
  let ?db' = "w_db (snd (run_until_terminal lib wk ss rid w))"
  note plan = expanded_jobs_planned [OF assms(1)] and ids = expanded_ids_distinct [OF assms(1-3)]
  have "db_inv (w_db w)"
    by (rule planned_db_inv) (use assms(4,5) plan(1) ids in \<open>simp add: planned_db_def\<close>)
  moreover have "safely_moves (w_db w) ?db'"
    by (rule safe.run_until_terminal_R) (rule queue_steps_safe [OF assms(6)])
  ultimately have inv: "db_inv ?db'" and static: "map job_keys (jobs ?db') = map job_keys js"
    using assms(4) by (auto simp: safely_moves_def static_def split: if_splits)
  have "map snd (map job_keys (jobs ?db')) = map snd (map job_keys js)"
    by (simp only: static)
  then have order: "map job_order (jobs ?db') = map job_order js"
    by (simp add: job_keys_def job_order_def [abs_def] comp_def)
  then have planned: "mset (map job_order (jobs ?db')) = mset (coordinates m panel)"
    using plan(2) by simp
  then have distinct: "distinct (map job_order (jobs ?db'))"
    using coordinates_distinct [OF assms(2)] by (metis mset_eq_imp_distinct_iff)
  have "matrix_inputs_ok (jobs ?db') loaded"
  proof -
    have ids: "map a_attempt_id loaded = map ar_attempt_id (attempts ?db')"
      and jobs: "map a_job_id loaded = map ar_job_id (attempts ?db')"
      using arg_cong [OF assms(7), of "map fst"] arg_cong [OF assms(7), of "map snd"] by (simp_all add: comp_def)
    have "ar_job_id r \<in> j_job_id ` set (jobs ?db')" if "r \<in> set (attempts ?db')" for r
      using db_invD(3) [OF inv db_keysD(2) [OF db_invD(1) [OF inv] that]]
      by (auto simp: row_inv_def dest!: lookup_row_SomeD intro: rev_image_eqI)
    then have "set (map a_job_id loaded) \<subseteq> j_job_id ` set (jobs ?db')"
      unfolding jobs by auto
    then show ?thesis
      using db_invD(1) [OF inv] by (auto simp: matrix_inputs_ok_def db_keys_def ids)
  qed
  with build_matrix_result [where H = H' and fr = fr' and now = now and manifest = m and jobs = "jobs ?db'"
      and attempts = loaded and adjs = adjs and cases = cases and repos = repos and version = version]
  obtain matrix where matrix: "build_matrix H' fr' now m (jobs ?db') loaded adjs cases repos version = Inr matrix"
    "mx_cells matrix = matrix_cells m (jobs ?db') loaded adjs cases repos"
    by (auto split: sum.splits)
  have "cell_key ` set (jobs ?db') = (\<lambda>(t, c, v, r). (t, c, v)) ` job_order ` set (jobs ?db')"
    by (simp add: image_image cell_key_def job_order_def)
  also have "job_order ` set (jobs ?db') = set (coordinates m panel)"
    using mset_eq_setD [OF planned] by simp
  finally show ?thesis
    using planned distinct inv db_inv_authority_unique [OF inv] matrix cells_in_order
    by (auto simp: Let_def)
qed

definition ex_planned_world :: "Job list \<Rightarrow> world" where
  "ex_planned_world js = \<lparr>w_db = \<lparr>jobs = js, attempts = [], runs = [ex_run], manifests = [], artifact_digests = []\<rparr>,
     w_store = empty_store, w_dirs = Map.empty\<rparr>"

theorem planned_audit_reaches_matrix_witness:
  "\<exists>js. expand id ex_float_text (ex_audit [ex_pin ''t'' ''v2'']) None = Inr js
    \<and> (let db' = w_db (snd (run_until_terminal ex_library ex_worker [ex_surroundings] None (ex_planned_world js))) in
       distinct (map job_order (jobs db')) \<and> db_inv db' \<and> authority_unique (attempts db'))"
proof -
  let ?m = "ex_audit [ex_pin ''t'' ''v2'']"
  obtain js where js: "expand id ex_float_text ?m None = Inr js" by (simp add: expand_eq)
  let ?db' = "w_db (snd (run_until_terminal ex_library ex_worker [ex_surroundings] None (ex_planned_world js)))"
  have "pins_ok (m_task_pins ?m)" by (simp add: pins_ok_def pin_ok_def ex_pin_def)
  moreover have "queue_steps db (s_others s n db)" if "s \<in> set [ex_surroundings]" for s n db
    using that by (simp add: ex_surroundings_def queue_steps.start)
  ultimately show ?thesis
    using planned_audit_reaches_matrix [where H = id and fr = ex_float_text and m = ?m and panel = None and js = js
        and w = "ex_planned_world js" and run = ex_run and ms = "[]" and ds = "[]" and ss = "[ex_surroundings]"
        and lib = ex_library and wk = ex_worker and rid = None
        and loaded = "map (\<lambda>r. ex_attempt\<lparr>a_attempt_id := ar_attempt_id r, a_job_id := ar_job_id r\<rparr>) (attempts ?db')"
        and H' = id and fr' = ex_float_text and now = 0 and adjs = "[]" and cases = "\<lambda>_. None" and repos = "\<lambda>_. None"
        and version = "''1''"] js
    by (simp add: ex_planned_world_def ex_run_def Let_def comp_def)
qed

end
